theory Spec2Isabelle
  imports Main "HOL-Library.Code_Target_Nat"
begin

section \<open>Outcomes of a call\<close>

text \<open>
  A member function of \<^verbatim>\<open>Vector<T>\<close> either returns, or leaves through an exception
  (and the object keeps the state it had when the exception left the call), or runs
  into undefined behaviour (a read of a slot that holds no object, an access outside
  the block, \<^verbatim>\<open>operator delete\<close> on a pointer that \<^verbatim>\<open>operator new\<close> never
  returned). \<open>Normal s r\<close> is a return with state \<open>s\<close> and value \<open>r\<close>.
\<close>

datatype ('s, 'r) result = Normal 's 'r | Exception 's | Undefined

section \<open>The element type and the allocator\<close>

text \<open>
  What the container sees of its template argument \<^verbatim>\<open>T\<close> and of \<^verbatim>\<open>operator new\<close>:
  the two type traits the relocation code branches on, which values make a constructor
  or an assignment throw, the state a move leaves its source in, the value of
  \<^verbatim>\<open>T()\<close> (\<open>None\<close> when the default constructor throws), \<^verbatim>\<open>sizeof(T)\<close>, and which
  requests \<^verbatim>\<open>operator new\<close> refuses with \<^verbatim>\<open>std::bad_alloc\<close> (by the number of elements
  the request is for; the byte count is a function of it). A copy is equal to its
  source; an operation that throws leaves its operands as they were.
\<close>

record 'a traits =
  is_nothrow_move_constructible :: bool
  is_copy_constructible :: bool
  copy_ctor_throws :: "'a \<Rightarrow> bool"
  move_ctor_throws :: "'a \<Rightarrow> bool"
  copy_assign_throws :: "'a \<Rightarrow> bool"
  move_assign_throws :: "'a \<Rightarrow> bool"
  moved_from :: "'a \<Rightarrow> 'a"
  value_init :: "'a option"
  sizeof_T :: nat
  alloc_fails :: "nat \<Rightarrow> bool"

text \<open>
  \<^verbatim>\<open>size_t\<close> is 64 bits wide and \<^verbatim>\<open>int\<close> 32 (the LP64 and LLP64 data models). The
  members \<^verbatim>\<open>size_\<close> and \<^verbatim>\<open>capacity_\<close> are modelled by \<open>nat\<close>: a block of \<open>n\<close>
  elements occupies at least \<open>n\<close> bytes of the address space, so \<^verbatim>\<open>size_ + 1\<close> and
  \<^verbatim>\<open>Size() * 2\<close> stay far below \<open>2 ^ 64\<close> for every block that holds its elements. The
  one product that can leave \<^verbatim>\<open>size_t\<close>, the byte count \<^verbatim>\<open>n * sizeof(T)\<close> of an
  allocation, wraps (see \<open>Allocate\<close>). \<open>to_int\<close> is the conversion of a pointer
  difference to \<^verbatim>\<open>int\<close> in \<^verbatim>\<open>int pos = position - begin();\<close>, which keeps the low 32
  bits in two's complement.
\<close>

definition to_int :: "nat \<Rightarrow> int" where
  "to_int d = (let m = int d mod 2 ^ 32 in if m < 2 ^ 31 then m else m - 2 ^ 32)"

definition INT_MAX :: nat where
  "INT_MAX = 2147483647"

section \<open>RawMemory\<close>

text \<open>
  A block is the list of its slots: \<open>None\<close> is raw memory, \<open>Some x\<close> a live object of
  value \<open>x\<close>. The null pointer is the empty block. Pointers into a block are offsets
  from its start.
\<close>

type_synonym 'a block = "'a option list"

record 'a RawMemory =
  buffer_m :: "'a block"
  capacity_m :: nat

text \<open>
  \<^verbatim>\<open>Allocate(n)\<close> is \<^verbatim>\<open>n != 0 ? operator new(n * sizeof(T)) : nullptr\<close>. The product is
  computed in \<^verbatim>\<open>size_t\<close>, so \<^verbatim>\<open>operator new\<close> is asked for
  \<open>n * sizeof(T) mod (SIZE_MAX + 1)\<close> bytes, and the block it returns has room for
  that many bytes divided by \<^verbatim>\<open>sizeof(T)\<close> objects: \<open>n\<close> of them when the product did
  not wrap, fewer when it did (none when it wrapped to 0: \<^verbatim>\<open>operator new(0)\<close> returns a
  block of no use). The member \<^verbatim>\<open>capacity_\<close> is set to \<open>n\<close> in either case. \<open>fits T n\<close>
  says that the byte count of \<open>n\<close> elements is a \<^verbatim>\<open>size_t\<close>.
\<close>

definition SIZE_MAX :: nat where
  "SIZE_MAX = 2 ^ 64 - 1"

definition Allocate :: "'a traits \<Rightarrow> nat \<Rightarrow> 'a block option" where
  "Allocate T n =
     (if n \<noteq> 0 then
        (if alloc_fails T n then None
         else Some (replicate (((n * sizeof_T T) mod (SIZE_MAX + 1)) div sizeof_T T) None))
      else Some [])"

definition fits :: "'a traits \<Rightarrow> nat \<Rightarrow> bool" where
  "fits T n \<longleftrightarrow> 0 < sizeof_T T \<and> n * sizeof_T T \<le> SIZE_MAX"

definition RawMemory_default :: "'a RawMemory" where
  "RawMemory_default = \<lparr>buffer_m = [], capacity_m = 0\<rparr>"

definition RawMemory_ctor :: "'a traits \<Rightarrow> nat \<Rightarrow> 'a RawMemory option" where
  "RawMemory_ctor T capacity =
     (case Allocate T capacity of
        None \<Rightarrow> None
      | Some b \<Rightarrow> Some \<lparr>buffer_m = b, capacity_m = capacity\<rparr>)"

text \<open>Move construction and move assignment of a RawMemory: the pair is (target, source) afterwards.\<close>

definition RawMemory_move :: "'a RawMemory \<Rightarrow> 'a RawMemory \<times> 'a RawMemory" where
  "RawMemory_move other = (\<lparr>buffer_m = buffer_m other, capacity_m = capacity_m other\<rparr>,
                            \<lparr>buffer_m = [], capacity_m = 0\<rparr>)"

definition RawMemory_Swap :: "'a RawMemory \<Rightarrow> 'a RawMemory \<Rightarrow> 'a RawMemory \<times> 'a RawMemory" where
  "RawMemory_Swap this other =
     (\<lparr>buffer_m = buffer_m other, capacity_m = capacity_m other\<rparr>,
      \<lparr>buffer_m = buffer_m this, capacity_m = capacity_m this\<rparr>)"

definition RawMemory_Capacity :: "'a RawMemory \<Rightarrow> nat" where
  "RawMemory_Capacity m = capacity_m m"

text \<open>Reading the object in a slot: \<open>None\<close> when the slot is outside the block or holds no object.\<close>

definition read_slot :: "'a block \<Rightarrow> nat \<Rightarrow> 'a option" where
  "read_slot blk i = (if i < length blk then blk ! i else None)"

section \<open>The library algorithms the container calls\<close>

text \<open>
  \<^verbatim>\<open>std::uninitialized_copy_n(first, n, d_first)\<close>: copy-constructs \<open>n\<close> objects, one after
  the other; when a constructor throws, the objects built so far are destroyed and the
  exception goes on. The source block is not changed.
\<close>

fun uninitialized_copy_n ::
  "'a traits \<Rightarrow> 'a block \<Rightarrow> nat \<Rightarrow> nat \<Rightarrow> 'a block \<Rightarrow> nat \<Rightarrow> ('a block, unit) result" where
  "uninitialized_copy_n T src first 0 dst d_first = Normal dst ()"
| "uninitialized_copy_n T src first (Suc n) dst d_first =
     (case read_slot src first of
        None \<Rightarrow> Undefined
      | Some x \<Rightarrow>
          if \<not> d_first < length dst then Undefined
          else if copy_ctor_throws T x then Exception dst
          else (case uninitialized_copy_n T src (Suc first) n (dst[d_first := Some x]) (Suc d_first) of
                  Normal dst' u \<Rightarrow> Normal dst' u
                | Exception dst' \<Rightarrow> Exception (dst'[d_first := None])
                | Undefined \<Rightarrow> Undefined))"

text \<open>
  \<^verbatim>\<open>std::uninitialized_move_n(first, n, d_first)\<close>: the same with the move constructor.
  Each source object stays alive in its moved-from state; on an exception the objects
  built in the destination are destroyed, the sources already moved from stay so.
  The state is the pair (source block, destination block).
\<close>

fun uninitialized_move_n ::
  "'a traits \<Rightarrow> 'a block \<Rightarrow> nat \<Rightarrow> nat \<Rightarrow> 'a block \<Rightarrow> nat \<Rightarrow> ('a block \<times> 'a block, unit) result" where
  "uninitialized_move_n T src first 0 dst d_first = Normal (src, dst) ()"
| "uninitialized_move_n T src first (Suc n) dst d_first =
     (case read_slot src first of
        None \<Rightarrow> Undefined
      | Some x \<Rightarrow>
          if \<not> d_first < length dst then Undefined
          else if move_ctor_throws T x then Exception (src, dst)
          else (case uninitialized_move_n T (src[first := Some (moved_from T x)]) (Suc first) n
                       (dst[d_first := Some x]) (Suc d_first) of
                  Normal s u \<Rightarrow> Normal s u
                | Exception (src', dst') \<Rightarrow> Exception (src', dst'[d_first := None])
                | Undefined \<Rightarrow> Undefined))"

text \<open>
  \<^verbatim>\<open>std::uninitialized_value_construct_n(first, n)\<close>: builds \<open>n\<close> objects \<^verbatim>\<open>T()\<close>; on an
  exception the objects built so far are destroyed.
\<close>

fun uninitialized_value_construct_n ::
  "'a traits \<Rightarrow> 'a block \<Rightarrow> nat \<Rightarrow> nat \<Rightarrow> ('a block, unit) result" where
  "uninitialized_value_construct_n T blk first 0 = Normal blk ()"
| "uninitialized_value_construct_n T blk first (Suc n) =
     (if \<not> first < length blk then Undefined
      else (case value_init T of
              None \<Rightarrow> Exception blk
            | Some x \<Rightarrow>
                (case uninitialized_value_construct_n T (blk[first := Some x]) (Suc first) n of
                   Normal blk' u \<Rightarrow> Normal blk' u
                 | Exception blk' \<Rightarrow> Exception (blk'[first := None])
                 | Undefined \<Rightarrow> Undefined)))"

text \<open>
  \<^verbatim>\<open>std::destroy_n(first, n)\<close> and \<^verbatim>\<open>std::destroy_at(p)\<close>: the destructor runs on each
  object and leaves raw memory; destroying what is not an object is undefined
  (\<open>None\<close>). Destructors do not throw.
\<close>

fun destroy_n :: "'a block \<Rightarrow> nat \<Rightarrow> nat \<Rightarrow> 'a block option" where
  "destroy_n blk first 0 = Some blk"
| "destroy_n blk first (Suc n) =
     (case read_slot blk first of
        None \<Rightarrow> None
      | Some x \<Rightarrow> destroy_n (blk[first := None]) (Suc first) n)"

definition destroy_at :: "'a block \<Rightarrow> nat \<Rightarrow> 'a block option" where
  "destroy_at blk p = destroy_n blk p 1"

text \<open>
  One move assignment \<^verbatim>\<open>blk[d] = std::move(blk[s])\<close> between two objects of a block:
  the target takes the value, the source is left moved-from.
\<close>

definition move_assign_slot :: "'a traits \<Rightarrow> 'a block \<Rightarrow> nat \<Rightarrow> nat \<Rightarrow> ('a block, unit) result" where
  "move_assign_slot T blk d s =
     (case (read_slot blk d, read_slot blk s) of
        (Some y, Some x) \<Rightarrow>
          if move_assign_throws T x then Exception blk
          else Normal (blk[s := Some (moved_from T x), d := Some x]) ()
      | _ \<Rightarrow> Undefined)"

text \<open>
  \<^verbatim>\<open>std::move(first, last, d_first)\<close> inside one block: move-assigns front to back.
  \<open>move_n\<close> is its loop, counting the elements left. A range whose end lies before
  its start is undefined.
\<close>

fun move_n :: "'a traits \<Rightarrow> 'a block \<Rightarrow> nat \<Rightarrow> nat \<Rightarrow> nat \<Rightarrow> ('a block, unit) result" where
  "move_n T blk first 0 d_first = Normal blk ()"
| "move_n T blk first (Suc n) d_first =
     (case move_assign_slot T blk d_first first of
        Normal blk' u \<Rightarrow> move_n T blk' (Suc first) n (Suc d_first)
      | Exception blk' \<Rightarrow> Exception blk'
      | Undefined \<Rightarrow> Undefined)"

definition std_move :: "'a traits \<Rightarrow> 'a block \<Rightarrow> nat \<Rightarrow> nat \<Rightarrow> nat \<Rightarrow> ('a block, unit) result" where
  "std_move T blk first lst d_first =
     (if first \<le> lst then move_n T blk first (lst - first) d_first else Undefined)"

text \<open>
  \<^verbatim>\<open>std::move_backward(first, last, d_last)\<close> inside one block: move-assigns back to
  front, \<^verbatim>\<open>*(--d_last) = std::move(*(--last))\<close>.
\<close>

fun move_backward_n :: "'a traits \<Rightarrow> 'a block \<Rightarrow> nat \<Rightarrow> nat \<Rightarrow> nat \<Rightarrow> ('a block, unit) result" where
  "move_backward_n T blk lst 0 d_last = Normal blk ()"
| "move_backward_n T blk lst (Suc n) d_last =
     (if lst = 0 \<or> d_last = 0 then Undefined
      else (case move_assign_slot T blk (d_last - 1) (lst - 1) of
              Normal blk' u \<Rightarrow> move_backward_n T blk' (lst - 1) n (d_last - 1)
            | Exception blk' \<Rightarrow> Exception blk'
            | Undefined \<Rightarrow> Undefined))"

definition move_backward :: "'a traits \<Rightarrow> 'a block \<Rightarrow> nat \<Rightarrow> nat \<Rightarrow> nat \<Rightarrow> ('a block, unit) result" where
  "move_backward T blk first lst d_last =
     (if first \<le> lst then move_backward_n T blk lst (lst - first) d_last else Undefined)"

text \<open>
  Placement new \<^verbatim>\<open>new (blk + p) T(args...)\<close>. The argument is the object the constructor
  call yields, \<open>None\<close> when the constructor throws.
\<close>

definition construct_at :: "'a block \<Rightarrow> nat \<Rightarrow> 'a option \<Rightarrow> ('a block, unit) result" where
  "construct_at blk p args =
     (if \<not> p < length blk then Undefined
      else (case args of
              None \<Rightarrow> Exception blk
            | Some x \<Rightarrow> Normal (blk[p := Some x]) ()))"

text \<open>
  \<^verbatim>\<open>new (blk + d) T(std::forward<T>(blk[s]))\<close>: move construction of slot \<open>d\<close> from the
  object in slot \<open>s\<close> of the same block.
\<close>

definition move_construct :: "'a traits \<Rightarrow> 'a block \<Rightarrow> nat \<Rightarrow> nat \<Rightarrow> ('a block, unit) result" where
  "move_construct T blk s d =
     (case read_slot blk s of
        None \<Rightarrow> Undefined
      | Some x \<Rightarrow>
          if \<not> d < length blk then Undefined
          else if move_ctor_throws T x then Exception blk
          else Normal (blk[s := Some (moved_from T x), d := Some x]) ())"

text \<open>
  The relocation rule, written four times in the source as
  \<^verbatim>\<open>if constexpr (std::is_nothrow_move_constructible_v<T> || !std::is_copy_constructible_v<T>)\<close>
  around \<^verbatim>\<open>uninitialized_move_n\<close> and \<^verbatim>\<open>uninitialized_copy_n\<close>.
  The state is the pair (old block, new block).
\<close>

definition relocate ::
  "'a traits \<Rightarrow> 'a block \<Rightarrow> nat \<Rightarrow> nat \<Rightarrow> 'a block \<Rightarrow> nat \<Rightarrow> ('a block \<times> 'a block, unit) result" where
  "relocate T src first n dst d_first =
     (if is_nothrow_move_constructible T \<or> \<not> is_copy_constructible T
      then uninitialized_move_n T src first n dst d_first
      else (case uninitialized_copy_n T src first n dst d_first of
              Normal dst' u \<Rightarrow> Normal (src, dst') u
            | Exception dst' \<Rightarrow> Exception (src, dst')
            | Undefined \<Rightarrow> Undefined))"

section \<open>Vector\<close>

record 'a Vector =
  data_m :: "'a RawMemory"
  size_m :: nat

definition Size :: "'a Vector \<Rightarrow> nat" where
  "Size this = size_m this"

definition Capacity :: "'a Vector \<Rightarrow> nat" where
  "Capacity this = RawMemory_Capacity (data_m this)"

text \<open>The slots of the vector's block, and the vector after its block was written.\<close>

definition slots :: "'a Vector \<Rightarrow> 'a block" where
  "slots this = buffer_m (data_m this)"

definition with_slots :: "'a Vector \<Rightarrow> 'a block \<Rightarrow> 'a Vector" where
  "with_slots this blk = this\<lparr>data_m := (data_m this)\<lparr>buffer_m := blk\<rparr>\<rparr>"

text \<open>\<^verbatim>\<open>operator[]\<close>: the object in slot \<open>index\<close>, \<open>None\<close> where the access is undefined.\<close>

definition subscript :: "'a Vector \<Rightarrow> nat \<Rightarrow> 'a option" where
  "subscript this index = read_slot (slots this) index"

subsection \<open>Construction\<close>

definition Vector_default :: "'a Vector" where
  "Vector_default = \<lparr>data_m = RawMemory_default, size_m = 0\<rparr>"

definition Vector_sized :: "'a traits \<Rightarrow> nat \<Rightarrow> (unit, 'a Vector) result" where
  "Vector_sized T n =
     (case RawMemory_ctor T n of
        None \<Rightarrow> Exception ()
      | Some d \<Rightarrow>
          (case uninitialized_value_construct_n T (buffer_m d) 0 n of
             Undefined \<Rightarrow> Undefined
           | Exception b \<Rightarrow> Exception ()
           | Normal b u \<Rightarrow> Normal () \<lparr>data_m = d\<lparr>buffer_m := b\<rparr>, size_m = n\<rparr>))"

definition Vector_copy :: "'a traits \<Rightarrow> 'a Vector \<Rightarrow> (unit, 'a Vector) result" where
  "Vector_copy T other =
     (case RawMemory_ctor T (Size other) of
        None \<Rightarrow> Exception ()
      | Some d \<Rightarrow>
          (case uninitialized_copy_n T (slots other) 0 (Size other) (buffer_m d) 0 of
             Undefined \<Rightarrow> Undefined
           | Exception b \<Rightarrow> Exception ()
           | Normal b u \<Rightarrow> Normal () \<lparr>data_m = d\<lparr>buffer_m := b\<rparr>, size_m = Size other\<rparr>))"

text \<open>Move construction: the pair is (the new vector, \<open>other\<close> afterwards).\<close>

definition Vector_move :: "'a Vector \<Rightarrow> 'a Vector \<times> 'a Vector" where
  "Vector_move other =
     (let (d, od) = RawMemory_move (data_m other)
      in (\<lparr>data_m = d, size_m = size_m other\<rparr>, \<lparr>data_m = od, size_m = 0\<rparr>))"

text \<open>The destructor: \<open>False\<close> when \<^verbatim>\<open>std::destroy_n\<close> meets a slot that holds no object.\<close>

definition Vector_dtor :: "'a Vector \<Rightarrow> bool" where
  "Vector_dtor this = (destroy_n (slots this) 0 (Size this) \<noteq> None)"

subsection \<open>Swap and move assignment\<close>

text \<open>The pair is (\<open>this\<close>, \<open>other\<close>) afterwards, for two distinct objects.\<close>

definition Swap :: "'a Vector \<Rightarrow> 'a Vector \<Rightarrow> 'a Vector \<times> 'a Vector" where
  "Swap this other =
     (let (tmp_data, other_data) = RawMemory_move (data_m other);
          tmp_size = size_m other;
          (other_data', this_data) = RawMemory_move (data_m this);
          other' = \<lparr>data_m = other_data', size_m = size_m this\<rparr>;
          (this_data', tmp_data') = RawMemory_move tmp_data
      in (\<lparr>data_m = this_data', size_m = tmp_size\<rparr>, other'))"

definition move_assign :: "'a Vector \<Rightarrow> 'a Vector \<Rightarrow> 'a Vector \<times> 'a Vector" where
  "move_assign this rhs =
     (let (d, rd) = RawMemory_move (data_m rhs)
      in (\<lparr>data_m = d, size_m = size_m rhs\<rparr>, \<lparr>data_m = rd, size_m = 0\<rparr>))"

text \<open>
  \<^verbatim>\<open>v = std::move(v)\<close>: source and target are one object, so the null pointer, the
  capacity 0 and the size 0 written to \<^verbatim>\<open>rhs\<close> are written to \<^verbatim>\<open>*this\<close>.
\<close>

definition move_assign_self :: "'a Vector \<Rightarrow> 'a Vector" where
  "move_assign_self this = \<lparr>data_m = \<lparr>buffer_m = [], capacity_m = 0\<rparr>, size_m = 0\<rparr>"

subsection \<open>Copy assignment\<close>

text \<open>
  The right-hand side is a reference: to another vector, which the call does not
  change, or to \<^verbatim>\<open>*this\<close>, and then every read of \<^verbatim>\<open>rhs\<close> sees what the call has
  written so far.
\<close>

datatype 'a rhs_ref = Other "'a Vector" | This

definition deref :: "'a rhs_ref \<Rightarrow> 'a Vector \<Rightarrow> 'a Vector" where
  "deref r this = (case r of Other v \<Rightarrow> v | This \<Rightarrow> this)"

text \<open>
  The loop \<^verbatim>\<open>for (i = 0; i < bound; ++i) data_[i] = rhs[i];\<close> with \<open>k\<close> iterations left.
  The bound (\<^verbatim>\<open>rhs.Size()\<close> or \<^verbatim>\<open>Size()\<close>) is not changed by the body, which writes one
  element.
\<close>

fun assign_loop :: "'a traits \<Rightarrow> 'a Vector \<Rightarrow> 'a rhs_ref \<Rightarrow> nat \<Rightarrow> nat \<Rightarrow> ('a Vector, unit) result" where
  "assign_loop T this r i 0 = Normal this ()"
| "assign_loop T this r i (Suc k) =
     (case (read_slot (slots this) i, read_slot (slots (deref r this)) i) of
        (Some y, Some x) \<Rightarrow>
          if copy_assign_throws T x then Exception this
          else assign_loop T (with_slots this ((slots this)[i := Some x])) r (Suc i) k
      | _ \<Rightarrow> Undefined)"

definition copy_assign :: "'a traits \<Rightarrow> 'a Vector \<Rightarrow> 'a rhs_ref \<Rightarrow> ('a Vector, unit) result" where
  "copy_assign T this r =
     (if Size (deref r this) > RawMemory_Capacity (data_m this) then
        (case Vector_copy T (deref r this) of
           Undefined \<Rightarrow> Undefined
         | Exception u \<Rightarrow> Exception this
         | Normal u rhs_copy \<Rightarrow>
             (case Swap this rhs_copy of
                (this', rhs_copy') \<Rightarrow> if Vector_dtor rhs_copy' then Normal this' () else Undefined))
      else if Size (deref r this) < Size this then
        (case assign_loop T this r 0 (Size (deref r this)) of
           Undefined \<Rightarrow> Undefined
         | Exception this1 \<Rightarrow> Exception this1
         | Normal this1 u \<Rightarrow>
             (case destroy_n (slots this1) (Size (deref r this1)) (Size this1 - Size (deref r this1)) of
                None \<Rightarrow> Undefined
              | Some blk \<Rightarrow>
                  (let this2 = with_slots this1 blk
                   in Normal (this2\<lparr>size_m := size_m (deref r this2)\<rparr>) ())))
      else
        (case assign_loop T this r 0 (Size this) of
           Undefined \<Rightarrow> Undefined
         | Exception this1 \<Rightarrow> Exception this1
         | Normal this1 u \<Rightarrow>
             (case uninitialized_copy_n T (slots (deref r this1)) (Size this1)
                     (Size (deref r this1) - Size this1) (slots this1) (Size this1) of
                Undefined \<Rightarrow> Undefined
              | Exception blk \<Rightarrow> Exception (with_slots this1 blk)
              | Normal blk u \<Rightarrow>
                  (let this2 = with_slots this1 blk
                   in Normal (this2\<lparr>size_m := size_m (deref r this2)\<rparr>) ()))))"

subsection \<open>Reserve, Resize\<close>

text \<open>
  \<^verbatim>\<open>std::make_unique<RawMemory<T>>(capacity)\<close> throws \<^verbatim>\<open>std::bad_alloc\<close> when either of its
  allocations fails; in both cases nothing was touched. After the swap the old block
  is released with the \<^verbatim>\<open>unique_ptr\<close>.
\<close>

definition Reserve :: "'a traits \<Rightarrow> 'a Vector \<Rightarrow> nat \<Rightarrow> ('a Vector, unit) result" where
  "Reserve T this capacity =
     (if RawMemory_Capacity (data_m this) \<ge> capacity then Normal this ()
      else
        (case RawMemory_ctor T capacity of
           None \<Rightarrow> Exception this
         | Some new_data \<Rightarrow>
             (case relocate T (slots this) 0 (Size this) (buffer_m new_data) 0 of
                Undefined \<Rightarrow> Undefined
              | Exception (old, new) \<Rightarrow> Exception (with_slots this old)
              | Normal (old, new) u \<Rightarrow>
                  (case destroy_n old 0 (Size this) of
                     None \<Rightarrow> Undefined
                   | Some old' \<Rightarrow>
                       Normal (this\<lparr>data_m := fst (RawMemory_Swap (data_m this) (new_data\<lparr>buffer_m := new\<rparr>))\<rparr>) ()))))"

definition Resize :: "'a traits \<Rightarrow> 'a Vector \<Rightarrow> nat \<Rightarrow> ('a Vector, unit) result" where
  "Resize T this new_size =
     (if new_size = Size this then Normal this ()
      else if new_size < Size this then
        (case destroy_n (slots this) new_size (Size this - new_size) of
           None \<Rightarrow> Undefined
         | Some blk \<Rightarrow> Normal ((with_slots this blk)\<lparr>size_m := new_size\<rparr>) ())
      else
        (case Reserve T this new_size of
           Undefined \<Rightarrow> Undefined
         | Exception this1 \<Rightarrow> Exception this1
         | Normal this1 u \<Rightarrow>
             (case uninitialized_value_construct_n T (slots this1) (Size this1) (new_size - Size this1) of
                Undefined \<Rightarrow> Undefined
              | Exception blk \<Rightarrow> Exception (with_slots this1 blk)
              | Normal blk u \<Rightarrow> Normal ((with_slots this1 blk)\<lparr>size_m := new_size\<rparr>) ())))"

subsection \<open>PushBack, EmplaceBack, PopBack\<close>

text \<open>
  The argument of \<open>PushBack\<close>, \<open>EmplaceBack\<close>, \<open>Emplace\<close> and \<open>Insert\<close> is the object
  that \<^verbatim>\<open>T(std::forward<Args>(args)...)\<close> yields, \<open>None\<close> when that constructor throws.
\<close>

definition PushBack :: "'a traits \<Rightarrow> 'a Vector \<Rightarrow> 'a option \<Rightarrow> ('a Vector, unit) result" where
  "PushBack T this val =
     (if RawMemory_Capacity (data_m this) > Size this then
        (case construct_at (slots this) (Size this) val of
           Undefined \<Rightarrow> Undefined
         | Exception blk \<Rightarrow> Exception this
         | Normal blk u \<Rightarrow> Normal ((with_slots this blk)\<lparr>size_m := size_m this + 1\<rparr>) ())
      else
        (case RawMemory_ctor T (if Size this = 0 then 1 else Size this * 2) of
           None \<Rightarrow> Exception this
         | Some new_data \<Rightarrow>
             (case construct_at (buffer_m new_data) (Size this) val of
                Undefined \<Rightarrow> Undefined
              | Exception new0 \<Rightarrow> Exception this
              | Normal new1 u \<Rightarrow>
                  (case relocate T (slots this) 0 (Size this) new1 0 of
                     Undefined \<Rightarrow> Undefined
                   | Exception (old, new) \<Rightarrow> Exception (with_slots this old)
                   | Normal (old, new) u \<Rightarrow>
                       (case destroy_n old 0 (Size this) of
                          None \<Rightarrow> Undefined
                        | Some old' \<Rightarrow>
                            Normal (this\<lparr>data_m := fst (RawMemory_Swap (data_m this) (new_data\<lparr>buffer_m := new\<rparr>)),
                                         size_m := size_m this + 1\<rparr>) ())))))"

text \<open>\<open>EmplaceBack\<close> returns the reference \<^verbatim>\<open>data_[size_++]\<close>: the index of the new element.\<close>

definition EmplaceBack :: "'a traits \<Rightarrow> 'a Vector \<Rightarrow> 'a option \<Rightarrow> ('a Vector, nat) result" where
  "EmplaceBack T this args =
     (if RawMemory_Capacity (data_m this) > Size this then
        (case construct_at (slots this) (Size this) args of
           Undefined \<Rightarrow> Undefined
         | Exception blk \<Rightarrow> Exception this
         | Normal blk u \<Rightarrow> Normal ((with_slots this blk)\<lparr>size_m := size_m this + 1\<rparr>) (size_m this))
      else
        (case RawMemory_ctor T (if Size this = 0 then 1 else Size this * 2) of
           None \<Rightarrow> Exception this
         | Some new_data \<Rightarrow>
             (case construct_at (buffer_m new_data) (Size this) args of
                Undefined \<Rightarrow> Undefined
              | Exception new0 \<Rightarrow> Exception this
              | Normal new1 u \<Rightarrow>
                  (case relocate T (slots this) 0 (Size this) new1 0 of
                     Undefined \<Rightarrow> Undefined
                   | Exception (old, new) \<Rightarrow> Exception (with_slots this old)
                   | Normal (old, new) u \<Rightarrow>
                       (case destroy_n old 0 (Size this) of
                          None \<Rightarrow> Undefined
                        | Some old' \<Rightarrow>
                            Normal (this\<lparr>data_m := fst (RawMemory_Swap (data_m this) (new_data\<lparr>buffer_m := new\<rparr>)),
                                         size_m := size_m this + 1\<rparr>) (size_m this))))))"

text \<open>With \<^verbatim>\<open>Size() == 0\<close> the pointer \<^verbatim>\<open>data_.GetAddress() + Size() - 1\<close> lies before the block.\<close>

definition PopBack :: "'a Vector \<Rightarrow> ('a Vector, unit) result" where
  "PopBack this =
     (if Size this = 0 then Undefined
      else (case destroy_n (slots this) (Size this - 1) 1 of
              None \<Rightarrow> Undefined
            | Some blk \<Rightarrow> Normal ((with_slots this blk)\<lparr>size_m := size_m this - 1\<rparr>) ()))"

subsection \<open>Emplace, Insert, Erase\<close>

text \<open>
  An iterator is its offset from \<^verbatim>\<open>begin()\<close>. \<open>position\<close> is the offset of the argument,
  \<open>pos\<close> what \<^verbatim>\<open>int pos = position - begin();\<close> makes of it. A pointer \<^verbatim>\<open>begin() + pos\<close>
  with a negative \<open>pos\<close> lies before the block: undefined.

  \<open>Emplace_try\<close> is the body of the \<^verbatim>\<open>try\<close> block, on the slots of the block;
  \<open>sz\<close> is \<^verbatim>\<open>Size()\<close>. With \<^verbatim>\<open>Size() == 0\<close> the index \<^verbatim>\<open>Size() - 1\<close> wraps around
  and \<^verbatim>\<open>data_[Size() - 1]\<close> is outside every block.
\<close>

definition Emplace_try :: "'a traits \<Rightarrow> 'a block \<Rightarrow> nat \<Rightarrow> nat \<Rightarrow> int \<Rightarrow> 'a option \<Rightarrow> ('a block, unit) result" where
  "Emplace_try T blk sz position pos args =
     (if position \<noteq> sz then
        (case args of
           None \<Rightarrow> Exception blk
         | Some tmp_obj \<Rightarrow>
             if sz = 0 then Undefined
             else
               (case move_construct T blk (sz - 1) sz of
                  Undefined \<Rightarrow> Undefined
                | Exception blk1 \<Rightarrow> Exception blk1
                | Normal blk1 u \<Rightarrow>
                    if pos < 0 then Undefined
                    else
                      (case move_backward T blk1 (nat pos) (sz - 1) sz of
                         Undefined \<Rightarrow> Undefined
                       | Exception blk2 \<Rightarrow> Exception blk2
                       | Normal blk2 u \<Rightarrow>
                           (case read_slot blk2 (nat pos) of
                              None \<Rightarrow> Undefined
                            | Some y \<Rightarrow>
                                if move_assign_throws T tmp_obj then Exception blk2
                                else Normal (blk2[nat pos := Some tmp_obj]) ()))))
      else construct_at blk sz args)"

text \<open>
  The handler of the \<^verbatim>\<open>try\<close> block is \<^verbatim>\<open>operator delete (end()); throw;\<close>. The pointer
  \<^verbatim>\<open>end()\<close> either lies inside the block, and was never returned by \<^verbatim>\<open>operator new\<close>,
  or it is the start of the block (\<^verbatim>\<open>Size() == 0\<close>), and the block is released while the
  vector still owns it and releases it again in its destructor. Both are undefined
  behaviour, so an exception in the \<^verbatim>\<open>try\<close> block ends in \<open>Undefined\<close>.
  \<open>Emplace\<close> returns the iterator \<^verbatim>\<open>begin() + pos\<close>.
\<close>

definition Emplace :: "'a traits \<Rightarrow> 'a Vector \<Rightarrow> nat \<Rightarrow> 'a option \<Rightarrow> ('a Vector, nat) result" where
  "Emplace T this position args =
     (let pos = to_int position in
      if RawMemory_Capacity (data_m this) > Size this then
        (case Emplace_try T (slots this) (Size this) position pos args of
           Undefined \<Rightarrow> Undefined
         | Exception blk \<Rightarrow> Undefined
         | Normal blk u \<Rightarrow>
             if pos < 0 then Undefined
             else Normal ((with_slots this blk)\<lparr>size_m := size_m this + 1\<rparr>) (nat pos))
      else
        (case RawMemory_ctor T (if Size this = 0 then 1 else Size this * 2) of
           None \<Rightarrow> Exception this
         | Some new_data \<Rightarrow>
             if pos < 0 then Undefined
             else
               (case construct_at (buffer_m new_data) (nat pos) args of
                  Undefined \<Rightarrow> Undefined
                | Exception new0 \<Rightarrow> Exception this
                | Normal new1 u \<Rightarrow>
                    (case relocate T (slots this) 0 (nat pos) new1 0 of
                       Undefined \<Rightarrow> Undefined
                     | Exception (old1, new) \<Rightarrow> Exception (with_slots this old1)
                     | Normal (old1, new2) u \<Rightarrow>
                         if nat pos > Size this then Undefined
                         else
                           (case relocate T old1 (nat pos) (Size this - nat pos) new2 (nat pos + 1) of
                              Undefined \<Rightarrow> Undefined
                            | Exception (old2, new) \<Rightarrow> Exception (with_slots this old2)
                            | Normal (old2, new3) u \<Rightarrow>
                                (case destroy_n old2 0 (Size this) of
                                   None \<Rightarrow> Undefined
                                 | Some old' \<Rightarrow>
                                     Normal (this\<lparr>data_m := fst (RawMemory_Swap (data_m this) (new_data\<lparr>buffer_m := new3\<rparr>)),
                                                  size_m := size_m this + 1\<rparr>) (nat pos)))))))"

definition Insert :: "'a traits \<Rightarrow> 'a Vector \<Rightarrow> nat \<Rightarrow> 'a option \<Rightarrow> ('a Vector, nat) result" where
  "Insert T this position val = Emplace T this position val"

text \<open>
  \<open>Erase\<close>: with \<^verbatim>\<open>position == end()\<close> the range \<^verbatim>\<open>[begin() + pos + 1, end())\<close> ends
  before it starts.
\<close>

definition Erase :: "'a traits \<Rightarrow> 'a Vector \<Rightarrow> nat \<Rightarrow> ('a Vector, nat) result" where
  "Erase T this position =
     (let pos = to_int position in
      if pos < 0 then Undefined
      else
        (case std_move T (slots this) (nat pos + 1) (Size this) (nat pos) of
           Undefined \<Rightarrow> Undefined
         | Exception blk1 \<Rightarrow> Exception (with_slots this blk1)
         | Normal blk1 u \<Rightarrow>
             if Size this = 0 then Undefined
             else
               (case destroy_at blk1 (Size this - 1) of
                  None \<Rightarrow> Undefined
                | Some blk2 \<Rightarrow> Normal ((with_slots this blk2)\<lparr>size_m := size_m this - 1\<rparr>) (nat pos))))"

section \<open>Well-formed vectors and what a caller observes\<close>

text \<open>
  The elements of a vector are the objects in the slots \<open>[0, Size())\<close>. A vector is
  well-formed when its block has \<open>capacity_m\<close> slots, the first \<open>size_m\<close> of them hold
  objects and the others are raw memory. \<open>vec xs cap\<close> is the well-formed vector with
  elements \<open>xs\<close> in a block of \<open>cap\<close> slots.
\<close>

definition elems :: "'a Vector \<Rightarrow> 'a list" where
  "elems this = map the (take (Size this) (slots this))"

definition wf :: "'a Vector \<Rightarrow> bool" where
  "wf this \<longleftrightarrow>
     length (slots this) = Capacity this \<and> Size this \<le> Capacity this \<and>
     list_all (\<lambda>s. s \<noteq> None) (take (Size this) (slots this)) \<and>
     list_all (\<lambda>s. s = None) (drop (Size this) (slots this))"

definition vec :: "'a list \<Rightarrow> nat \<Rightarrow> 'a Vector" where
  "vec xs cap = \<lparr>data_m = \<lparr>buffer_m = map Some xs @ replicate (cap - length xs) None, capacity_m = cap\<rparr>,
                 size_m = length xs\<rparr>"

text \<open>
  Whether relocating the elements \<open>xs\<close> throws, and the state relocation leaves the old
  elements in: moved-from under the move rule, untouched under the copy rule.
\<close>

definition reloc_throws :: "'a traits \<Rightarrow> 'a list \<Rightarrow> bool" where
  "reloc_throws T xs =
     (if is_nothrow_move_constructible T \<or> \<not> is_copy_constructible T
      then list_ex (move_ctor_throws T) xs else list_ex (copy_ctor_throws T) xs)"

definition relocated :: "'a traits \<Rightarrow> 'a list \<Rightarrow> 'a list" where
  "relocated T xs =
     (if is_nothrow_move_constructible T \<or> \<not> is_copy_constructible T
      then map (moved_from T) xs else xs)"

text \<open>
  The old elements after a relocation that threw: under the move rule the elements
  before the first one whose move constructor throws are moved-from.
\<close>

definition reloc_partial :: "'a traits \<Rightarrow> 'a list \<Rightarrow> 'a list" where
  "reloc_partial T xs =
     (if is_nothrow_move_constructible T \<or> \<not> is_copy_constructible T
      then map (moved_from T) (takeWhile (\<lambda>x. \<not> move_ctor_throws T x) xs)
           @ dropWhile (\<lambda>x. \<not> move_ctor_throws T x) xs
      else xs)"

text \<open>
  An element type none of whose operations throws (\<^verbatim>\<open>int\<close>, for one), and an allocator
  that never runs out of memory.
\<close>

definition nothrow :: "'a traits \<Rightarrow> bool" where
  "nothrow T \<longleftrightarrow>
     (\<forall>x. \<not> copy_ctor_throws T x \<and> \<not> move_ctor_throws T x \<and>
          \<not> copy_assign_throws T x \<and> \<not> move_assign_throws T x) \<and>
     value_init T \<noteq> None"

definition never_bad_alloc :: "'a traits \<Rightarrow> bool" where
  "never_bad_alloc T \<longleftrightarrow> (\<forall>n. \<not> alloc_fails T n)"

text \<open>\<^verbatim>\<open>Vector<int>\<close> with an allocator that never fails.\<close>

definition int_traits :: "int traits" where
  "int_traits =
     \<lparr>is_nothrow_move_constructible = True, is_copy_constructible = True,
      copy_ctor_throws = (\<lambda>x. False), move_ctor_throws = (\<lambda>x. False),
      copy_assign_throws = (\<lambda>x. False), move_assign_throws = (\<lambda>x. False),
      moved_from = (\<lambda>x. x), value_init = Some 0, sizeof_T = 4, alloc_fails = (\<lambda>n. False)\<rparr>"

text \<open>The capacity the growth branch of PushBack, EmplaceBack and Emplace asks for.\<close>

definition grown :: "nat \<Rightarrow> nat" where
  "grown sz = (if sz = 0 then 1 else sz * 2)"

text \<open>Consecutive \<open>PushBack\<close> calls, one for each value of the list; an exception ends the sequence.\<close>

fun PushBack_all :: "'a traits \<Rightarrow> 'a Vector \<Rightarrow> 'a list \<Rightarrow> ('a Vector, unit) result" where
  "PushBack_all T v [] = Normal v ()"
| "PushBack_all T v (x # xs) =
     (case PushBack T v (Some x) of
        Normal v' u \<Rightarrow> PushBack_all T v' xs
      | Exception v' \<Rightarrow> Exception v'
      | Undefined \<Rightarrow> Undefined)"

text \<open>\<open>c\<close> is the smallest power of two that is at least \<open>n\<close>, for \<open>n \<ge> 1\<close>.\<close>

definition tight_pow2 :: "nat \<Rightarrow> nat \<Rightarrow> bool" where
  "tight_pow2 n c \<longleftrightarrow> (\<exists>e. c = 2 ^ e \<and> n \<le> c \<and> (e = 0 \<or> 2 ^ (e - 1) < n))"

text \<open>
  The states a vector object can be in: what a constructor yields, and what a public
  operation leaves behind, on return or on exit by exception, when applied to such a
  state (and, for the operations with a second vector, to a second such state).
  Undefined behaviour leaves no state.
\<close>

inductive reachable :: "'a traits \<Rightarrow> 'a Vector \<Rightarrow> bool" for T :: "'a traits" where
  r_default: "reachable T Vector_default"
| r_sized: "Vector_sized T n = Normal () v \<Longrightarrow> reachable T v"
| r_copy: "reachable T w \<Longrightarrow> Vector_copy T w = Normal () v \<Longrightarrow> reachable T v"
| r_move_new: "reachable T w \<Longrightarrow> reachable T (fst (Vector_move w))"
| r_move_old: "reachable T w \<Longrightarrow> reachable T (snd (Vector_move w))"
| r_copy_assign: "reachable T v \<Longrightarrow> reachable T w \<Longrightarrow>
     copy_assign T v (Other w) = Normal v' u \<or> copy_assign T v (Other w) = Exception v' \<Longrightarrow> reachable T v'"
| r_copy_assign_self: "reachable T v \<Longrightarrow>
     copy_assign T v This = Normal v' u \<or> copy_assign T v This = Exception v' \<Longrightarrow> reachable T v'"
| r_move_assign_this: "reachable T v \<Longrightarrow> reachable T w \<Longrightarrow> reachable T (fst (move_assign v w))"
| r_move_assign_rhs: "reachable T v \<Longrightarrow> reachable T w \<Longrightarrow> reachable T (snd (move_assign v w))"
| r_move_assign_self: "reachable T v \<Longrightarrow> reachable T (move_assign_self v)"
| r_Reserve: "reachable T v \<Longrightarrow>
     Reserve T v c = Normal v' u \<or> Reserve T v c = Exception v' \<Longrightarrow> reachable T v'"
| r_Resize: "reachable T v \<Longrightarrow>
     Resize T v n = Normal v' u \<or> Resize T v n = Exception v' \<Longrightarrow> reachable T v'"
| r_PushBack: "reachable T v \<Longrightarrow>
     PushBack T v a = Normal v' u \<or> PushBack T v a = Exception v' \<Longrightarrow> reachable T v'"
| r_EmplaceBack: "reachable T v \<Longrightarrow>
     EmplaceBack T v a = Normal v' i \<or> EmplaceBack T v a = Exception v' \<Longrightarrow> reachable T v'"
| r_PopBack: "reachable T v \<Longrightarrow> PopBack v = Normal v' u \<Longrightarrow> reachable T v'"
| r_Emplace: "reachable T v \<Longrightarrow>
     Emplace T v p a = Normal v' i \<or> Emplace T v p a = Exception v' \<Longrightarrow> reachable T v'"
| r_Insert: "reachable T v \<Longrightarrow>
     Insert T v p a = Normal v' i \<or> Insert T v p a = Exception v' \<Longrightarrow> reachable T v'"
| r_Erase: "reachable T v \<Longrightarrow>
     Erase T v p = Normal v' i \<or> Erase T v p = Exception v' \<Longrightarrow> reachable T v'"
| r_Swap_this: "reachable T v \<Longrightarrow> reachable T w \<Longrightarrow> reachable T (fst (Swap v w))"
| r_Swap_other: "reachable T v \<Longrightarrow> reachable T w \<Longrightarrow> reachable T (snd (Swap v w))"

text \<open>
  The element types for which a relocation that throws cannot have touched the old
  elements: \<^verbatim>\<open>T\<close> is copy-constructible or its move constructor does not throw (and
  then the trait \<^verbatim>\<open>is_nothrow_move_constructible\<close> tells the truth).
\<close>

definition safe_relocation :: "'a traits \<Rightarrow> bool" where
  "safe_relocation T \<longleftrightarrow>
     (is_nothrow_move_constructible T \<or> is_copy_constructible T) \<and>
     (is_nothrow_move_constructible T \<longrightarrow> (\<forall>x. \<not> move_ctor_throws T x))"

text \<open>
  Two element types over \<open>int\<close> values whose constructors throw on the value 13: one
  that can be copied (its move constructor is not \<^verbatim>\<open>noexcept\<close>), and a move-only one
  whose move leaves the value 0 behind.
\<close>

definition throwing_copy_traits :: "int traits" where
  "throwing_copy_traits =
     \<lparr>is_nothrow_move_constructible = False, is_copy_constructible = True,
      copy_ctor_throws = (\<lambda>x. x = 13), move_ctor_throws = (\<lambda>x. x = 13),
      copy_assign_throws = (\<lambda>x. x = 13), move_assign_throws = (\<lambda>x. x = 13),
      moved_from = (\<lambda>x. 0), value_init = Some 0, sizeof_T = 4, alloc_fails = (\<lambda>n. False)\<rparr>"

definition move_only_traits :: "int traits" where
  "move_only_traits =
     \<lparr>is_nothrow_move_constructible = False, is_copy_constructible = False,
      copy_ctor_throws = (\<lambda>x. False), move_ctor_throws = (\<lambda>x. x = 13),
      copy_assign_throws = (\<lambda>x. False), move_assign_throws = (\<lambda>x. x = 13),
      moved_from = (\<lambda>x. 0), value_init = Some 0, sizeof_T = 4, alloc_fails = (\<lambda>n. False)\<rparr>"

text \<open>The outcome of a call without its return value, to compare a call that returns an iterator with one that returns nothing.\<close>

definition outcome :: "('s, 'r) result \<Rightarrow> ('s, unit) result" where
  "outcome r = (case r of Normal s x \<Rightarrow> Normal s () | Exception s \<Rightarrow> Exception s | Undefined \<Rightarrow> Undefined)"

section \<open>The library algorithms on blocks of a known shape\<close>

lemma to_int_small: "d \<le> INT_MAX \<Longrightarrow> to_int d = int d"
  by (simp add: to_int_def INT_MAX_def Let_def)

lemma read_slot_mid [simp]: "length A = n \<Longrightarrow> read_slot (A @ s # B) n = s"
  by (auto simp: read_slot_def)

lemma read_slot_replicate_None [simp]: "read_slot (replicate n None) i = None"
  by (simp add: read_slot_def)

lemma update_mid [simp]: "length A = n \<Longrightarrow> (A @ s # B)[n := t] = A @ t # B"
  by (auto simp: list_update_append)

lemma uninitialized_copy_n_eq:
  "uninitialized_copy_n T (A @ map Some xs @ B) (length A) (length xs)
       (C @ replicate (length xs) None @ E) (length C) =
     (if list_ex (copy_ctor_throws T) xs then Exception (C @ replicate (length xs) None @ E)
      else Normal (C @ map Some xs @ E) ())"
proof (induction xs arbitrary: A C)
  case Nil
  then show ?case by simp
next
  case (Cons x xs)
  have ih: "uninitialized_copy_n T ((A @ [Some x]) @ map Some xs @ B) (length (A @ [Some x])) (length xs)
       ((C @ [Some x]) @ replicate (length xs) None @ E) (length (C @ [Some x])) =
     (if list_ex (copy_ctor_throws T) xs then Exception ((C @ [Some x]) @ replicate (length xs) None @ E)
      else Normal ((C @ [Some x]) @ map Some xs @ E) ())"
    by (rule Cons.IH)
  show ?case using ih by simp
qed

lemma uninitialized_move_n_eq:
  "uninitialized_move_n T (A @ map Some xs @ B) (length A) (length xs)
       (C @ replicate (length xs) None @ E) (length C) =
     (if list_ex (move_ctor_throws T) xs
      then Exception (A @ map Some (map (moved_from T) (takeWhile (\<lambda>x. \<not> move_ctor_throws T x) xs)
                                     @ dropWhile (\<lambda>x. \<not> move_ctor_throws T x) xs) @ B,
                      C @ replicate (length xs) None @ E)
      else Normal (A @ map Some (map (moved_from T) xs) @ B, C @ map Some xs @ E) ())"
proof (induction xs arbitrary: A C)
  case Nil
  then show ?case by simp
next
  case (Cons x xs)
  have ih: "uninitialized_move_n T ((A @ [Some (moved_from T x)]) @ map Some xs @ B) (length (A @ [Some (moved_from T x)])) (length xs)
       ((C @ [Some x]) @ replicate (length xs) None @ E) (length (C @ [Some x])) =
     (if list_ex (move_ctor_throws T) xs
      then Exception ((A @ [Some (moved_from T x)]) @ map Some (map (moved_from T) (takeWhile (\<lambda>x. \<not> move_ctor_throws T x) xs)
                                     @ dropWhile (\<lambda>x. \<not> move_ctor_throws T x) xs) @ B,
                      (C @ [Some x]) @ replicate (length xs) None @ E)
      else Normal ((A @ [Some (moved_from T x)]) @ map Some (map (moved_from T) xs) @ B, (C @ [Some x]) @ map Some xs @ E) ())"
    by (rule Cons.IH)
  show ?case using ih by simp
qed

lemma destroy_n_eq:
  "destroy_n (A @ map Some xs @ B) (length A) (length xs) = Some (A @ replicate (length xs) None @ B)"
proof (induction xs arbitrary: A)
  case Nil
  then show ?case by simp
next
  case (Cons x xs)
  have "destroy_n ((A @ [None]) @ map Some xs @ B) (length (A @ [None])) (length xs)
        = Some ((A @ [None]) @ replicate (length xs) None @ B)"
    by (rule Cons.IH)
  then show ?case by simp
qed

lemma uninitialized_value_construct_n_eq:
  "uninitialized_value_construct_n T (A @ replicate n None @ B) (length A) n =
     (case value_init T of
        None \<Rightarrow> if n = 0 then Normal (A @ B) () else Exception (A @ replicate n None @ B)
      | Some x \<Rightarrow> Normal (A @ replicate n (Some x) @ B) ())"
proof (induction n arbitrary: A)
  case 0
  then show ?case by (simp split: option.splits)
next
  case (Suc n)
  show ?case
  proof (cases "value_init T")
    case None
    then show ?thesis by simp
  next
    case (Some x)
    have "uninitialized_value_construct_n T ((A @ [Some x]) @ replicate n None @ B) (length (A @ [Some x])) n =
       Normal ((A @ [Some x]) @ replicate n (Some x) @ B) ()"
      using Suc.IH[of "A @ [Some x]"] Some by simp
    then show ?thesis using Some by simp
  qed
qed

lemma move_assign_slot_next [simp]:
  "length A = n \<Longrightarrow> move_assign_slot T (A @ Some y # Some z # B) n (Suc n) =
     (if move_assign_throws T z then Exception (A @ Some y # Some z # B)
      else Normal (A @ Some z # Some (moved_from T z) # B) ())"
  by (auto simp: move_assign_slot_def read_slot_def nth_append list_update_append)

lemma move_assign_slot_prev [simp]:
  "length A = n \<Longrightarrow> move_assign_slot T (A @ Some z # Some y # B) (Suc n) n =
     (if move_assign_throws T z then Exception (A @ Some z # Some y # B)
      else Normal (A @ Some (moved_from T z) # Some z # B) ())"
  by (auto simp: move_assign_slot_def read_slot_def nth_append list_update_append)

lemma move_n_Normal_iff:
  "move_n T (A @ Some y # map Some ys @ B) (Suc (length A)) (length ys) (length A) = Normal r u \<longleftrightarrow>
     \<not> list_ex (move_assign_throws T) ys \<and>
     r = A @ map Some ys @ Some (if ys = [] then y else moved_from T (last ys)) # B"
proof (induction ys arbitrary: A y)
  case Nil
  then show ?case by auto
next
  case (Cons z zs)
  have ih: "move_n T ((A @ [Some z]) @ Some (moved_from T z) # map Some zs @ B) (Suc (length (A @ [Some z]))) (length zs) (length (A @ [Some z])) = Normal r u \<longleftrightarrow>
     \<not> list_ex (move_assign_throws T) zs \<and>
     r = (A @ [Some z]) @ map Some zs @ Some (if zs = [] then moved_from T z else moved_from T (last zs)) # B"
    by (rule Cons.IH)
  show ?case using ih by auto
qed

lemma move_n_throws:
  "list_ex (move_assign_throws T) ys \<Longrightarrow>
   \<exists>r. move_n T (A @ Some y # map Some ys @ B) (Suc (length A)) (length ys) (length A) = Exception r"
proof (induction ys arbitrary: A y)
  case Nil
  then show ?case by simp
next
  case (Cons z zs)
  show ?case
  proof (cases "move_assign_throws T z")
    case True
    then show ?thesis by simp
  next
    case False
    with Cons.prems have "list_ex (move_assign_throws T) zs" by simp
    from Cons.IH[OF this, of "A @ [Some z]" "moved_from T z"] False
    show ?thesis by simp
  qed
qed

lemma move_backward_n_Normal_iff:
  "move_backward_n T (A @ map Some ys @ Some y # B) (length A + length ys) (length ys) (Suc (length A + length ys)) = Normal r u \<longleftrightarrow>
     \<not> list_ex (move_assign_throws T) ys \<and>
     r = A @ Some (if ys = [] then y else moved_from T (hd ys)) # map Some ys @ B"
proof (induction ys arbitrary: y B rule: rev_induct)
  case Nil
  then show ?case by auto
next
  case (snoc z zs)
  have ih: "move_backward_n T (A @ map Some zs @ Some (moved_from T z) # (Some z # B)) (length A + length zs) (length zs) (Suc (length A + length zs)) = Normal r u \<longleftrightarrow>
     \<not> list_ex (move_assign_throws T) zs \<and>
     r = A @ Some (if zs = [] then moved_from T z else moved_from T (hd zs)) # map Some zs @ (Some z # B)"
    by (rule snoc.IH)
  have step: "move_assign_slot T ((A @ map Some zs) @ Some z # Some y # B) (Suc (length (A @ map Some zs))) (length (A @ map Some zs)) =
     (if move_assign_throws T z then Exception ((A @ map Some zs) @ Some z # Some y # B)
      else Normal ((A @ map Some zs) @ Some (moved_from T z) # Some z # B) ())"
    by (rule move_assign_slot_prev) simp
  show ?case using ih step by (auto simp: hd_append)
qed

lemma move_construct_next [simp]:
  "length A = n \<Longrightarrow> move_construct T (A @ Some l # None # B) n (Suc n) =
     (if move_ctor_throws T l then Exception (A @ Some l # None # B)
      else Normal (A @ Some (moved_from T l) # Some l # B) ())"
  by (auto simp: move_construct_def read_slot_def nth_append list_update_append)

lemma Emplace_try_mid:
  "Emplace_try T (map Some (as @ ys @ [l]) @ None # R) (Suc (length as + length ys)) (length as)
       (int (length as)) (Some x) = Normal r u \<longleftrightarrow>
     \<not> move_ctor_throws T l \<and> \<not> list_ex (move_assign_throws T) ys \<and> \<not> move_assign_throws T x \<and>
     r = map Some (as @ x # ys @ [l]) @ R"
proof -
  let ?A = "map Some as"
  let ?blk = "?A @ map Some ys @ Some l # None # R"
  let ?blk1 = "?A @ map Some ys @ Some (moved_from T l) # Some l # R"
  let ?blk2 = "?A @ Some (if ys = [] then moved_from T l else moved_from T (hd ys)) # map Some ys @ Some l # R"
  let ?mb = "move_backward T ?blk1 (length as) (length as + length ys) (Suc (length as + length ys))"
  have mc: "move_construct T ?blk (length as + length ys) (Suc (length as + length ys)) =
     (if move_ctor_throws T l then Exception ?blk else Normal ?blk1 ())"
    using move_construct_next[of "?A @ map Some ys" "length as + length ys" T l R] by simp
  have mb: "?mb = Normal r u \<longleftrightarrow> \<not> list_ex (move_assign_throws T) ys \<and> r = ?blk2" for r u
    using move_backward_n_Normal_iff[of T ?A ys "moved_from T l" "Some l # R" r u]
    by (simp add: move_backward_def)
  have rd: "read_slot ?blk2 (length as) = Some (if ys = [] then moved_from T l else moved_from T (hd ys))"
    by (rule read_slot_mid) simp
  have up: "?blk2[length as := Some x] = ?A @ Some x # map Some ys @ Some l # R"
    by (rule update_mid) simp
  show ?thesis
  proof (cases "move_ctor_throws T l")
    case True
    then show ?thesis by (simp add: Emplace_try_def mc)
  next
    case nl: False
    show ?thesis
    proof (cases "list_ex (move_assign_throws T) ys")
      case True
      then have "?mb \<noteq> Normal r' u'" for r' u' using mb by simp
      then show ?thesis using True nl by (cases ?mb) (auto simp: Emplace_try_def mc)
    next
      case False
      then have "?mb = Normal ?blk2 ()" using mb by simp
      then show ?thesis using False nl by (auto simp: Emplace_try_def mc rd up)
    qed
  qed
qed

section \<open>The operations on well-formed vectors\<close>

lemmas vec_simps = vec_def slots_def Size_def Capacity_def RawMemory_Capacity_def with_slots_def

lemma relocate_eq:
  "relocate T (A @ map Some xs @ B) (length A) (length xs)
       (C @ replicate (length xs) None @ E) (length C) =
     (if reloc_throws T xs
      then Exception (A @ map Some (reloc_partial T xs) @ B, C @ replicate (length xs) None @ E)
      else Normal (A @ map Some (relocated T xs) @ B, C @ map Some xs @ E) ())"
  unfolding relocate_def reloc_throws_def relocated_def reloc_partial_def
  by (simp add: uninitialized_copy_n_eq uninitialized_move_n_eq del: map_map map_append)

lemma length_relocated [simp]: "length (relocated T xs) = length xs"
  by (simp add: relocated_def)

lemma length_reloc_partial [simp]: "length (reloc_partial T xs) = length xs"
proof -
  have "length (takeWhile P xs) + length (dropWhile P xs) = length xs" for P :: "'a \<Rightarrow> bool"
    by (metis length_append takeWhile_dropWhile_id)
  then show ?thesis by (simp add: reloc_partial_def)
qed

lemma slots_vec [simp]: "slots (vec xs cap) = map Some xs @ replicate (cap - length xs) None"
  by (simp add: vec_simps)

lemma Size_vec [simp]: "Size (vec xs cap) = length xs"
  by (simp add: vec_simps)

lemma Capacity_vec [simp]: "Capacity (vec xs cap) = cap"
  by (simp add: vec_simps)

lemma elems_vec [simp]: "elems (vec xs cap) = xs"
  by (simp add: elems_def comp_def)

lemma wf_vec [simp]: "wf (vec xs cap) \<longleftrightarrow> length xs \<le> cap"
  by (auto simp: wf_def list_all_iff)

lemma wf_is_vec: 
  assumes "wf v"
  shows "v = vec (elems v) (Capacity v)"
proof -
  let ?b = "slots v"
  have len: "length ?b = Capacity v" and le: "Size v \<le> Capacity v"
    and live: "list_all (\<lambda>s. s \<noteq> None) (take (Size v) ?b)"
    and raw: "list_all (\<lambda>s. s = None) (drop (Size v) ?b)"
    using assms by (auto simp: wf_def)
  have t: "take (Size v) ?b = map Some (elems v)"
    using live by (auto simp: elems_def list_all_iff intro!: map_idI[symmetric])
  have d: "drop (Size v) ?b = replicate (Capacity v - Size v) None"
    using raw len by (auto simp: list_all_iff intro!: replicate_eqI)
  have "?b = map Some (elems v) @ replicate (Capacity v - Size v) None"
    using t d append_take_drop_id[of "Size v" ?b] by simp
  moreover have "length (elems v) = Size v"
    using len le by (simp add: elems_def)
  ultimately show ?thesis
    by (cases v, cases "data_m v") (simp add: vec_simps)
qed

lemma wf_length_elems: "wf v \<Longrightarrow> length (elems v) = Size v"
  by (simp add: wf_def elems_def)

lemma replicate_split:
  "n < m \<Longrightarrow> replicate m x = replicate n x @ x # replicate (m - Suc n) x"
  by (metis Suc_diff_Suc add_diff_inverse_nat less_imp_le_nat not_less replicate_Suc replicate_add le_add_diff_inverse)

lemma grown_gt: "n < grown n"
  by (simp add: grown_def)

lemma construct_at_mid:
  "length A = n \<Longrightarrow> construct_at (A @ None # B) n args =
     (case args of None \<Rightarrow> Exception (A @ None # B) | Some x \<Rightarrow> Normal (A @ Some x # B) ())"
  by (auto simp: construct_at_def split: option.splits)

lemma alloc_len_fits:
  "fits T n \<Longrightarrow> ((n * sizeof_T T) mod (SIZE_MAX + 1)) div sizeof_T T = n"
  "fits T n \<Longrightarrow> ((n * sizeof_T T) mod Suc SIZE_MAX) div sizeof_T T = n"
  by (simp_all add: fits_def)

lemma fits_mono: "fits T n \<Longrightarrow> m \<le> n \<Longrightarrow> fits T m"
proof -
  assume f: "fits T n" and le: "m \<le> n"
  have "m * sizeof_T T \<le> n * sizeof_T T" using le by simp
  then show ?thesis using f unfolding fits_def by (meson le_trans)
qed

lemma RawMemory_ctor_eq:
  "0 < n \<Longrightarrow> fits T n \<Longrightarrow> RawMemory_ctor T n =
     (if alloc_fails T n then None else Some \<lparr>buffer_m = replicate n None, capacity_m = n\<rparr>)"
  by (simp add: RawMemory_ctor_def Allocate_def alloc_len_fits)

lemma vec_snoc_room:
  "length xs < cap \<Longrightarrow>
   \<lparr>data_m = \<lparr>buffer_m = map Some xs @ Some x # replicate (cap - Suc (length xs)) None, capacity_m = cap\<rparr>,
    size_m = Suc (length xs)\<rparr> = vec (xs @ [x]) cap"
  by (simp add: vec_def)

lemma Capacity_data_vec [simp]: "RawMemory_Capacity (data_m (vec xs cap)) = cap"
  by (simp add: vec_simps)

lemma slots_vec_room:
  "length xs < cap \<Longrightarrow> slots (vec xs cap) = map Some xs @ None # replicate (cap - Suc (length xs)) None"
  using replicate_split[of 0 "cap - length xs" None] by simp

lemma PushBack_vec_room:
  assumes "length xs < cap"
  shows "PushBack T (vec xs cap) val =
     (case val of None \<Rightarrow> Exception (vec xs cap) | Some x \<Rightarrow> Normal (vec (xs @ [x]) cap) ())"
proof -
  have c: "RawMemory_Capacity (data_m (vec xs cap)) > Size (vec xs cap)"
    using assms by simp
  have ca: "construct_at (slots (vec xs cap)) (Size (vec xs cap)) val =
     (case val of None \<Rightarrow> Exception (slots (vec xs cap))
      | Some x \<Rightarrow> Normal (map Some xs @ Some x # replicate (cap - Suc (length xs)) None) ())"
    unfolding slots_vec_room[OF assms] by (rule construct_at_mid) simp
  have fin: "with_slots (vec xs cap) (map Some xs @ Some x # replicate (cap - Suc (length xs)) None)
          \<lparr>size_m := size_m (vec xs cap) + 1\<rparr> = vec (xs @ [x]) cap" for x
    by (simp add: vec_def with_slots_def)
  show ?thesis
    unfolding PushBack_def
    by (simp only: c ca if_True split: option.split) (simp add: vec_def with_slots_def)
qed

lemma slots_vec_full: "slots (vec xs (length xs)) = map Some xs"
  by simp

lemma with_slots_vec_full:
  "length ys = length xs \<Longrightarrow> with_slots (vec xs (length xs)) (map Some ys) = vec ys (length xs)"
  by (simp add: vec_def with_slots_def)

lemma grown_block:
  "(replicate (grown n) None)[n := Some x] = replicate n None @ Some x # replicate (grown n - Suc n) None"
  by (subst replicate_split[OF grown_gt]) simp

lemma relocate_all:
  "relocate T (map Some xs) 0 (length xs) (replicate (length xs) None @ E) 0 =
     (if reloc_throws T xs
      then Exception (map Some (reloc_partial T xs), replicate (length xs) None @ E)
      else Normal (map Some (relocated T xs), map Some xs @ E) ())"
  using relocate_eq[of T "[]" xs "[]" "[]" E] by simp

lemma destroy_n_all: "length ys = n \<Longrightarrow> destroy_n (map Some ys) 0 n = Some (replicate n None)"
  using destroy_n_eq[of "[]" ys "[]"] by auto

lemma grow_tail:
  assumes nd: "nd = \<lparr>buffer_m = replicate (grown (length xs)) None, capacity_m = grown (length xs)\<rparr>"
  shows "(case construct_at (buffer_m nd) (Size (vec xs (length xs))) val of
            Undefined \<Rightarrow> Undefined
          | Exception new0 \<Rightarrow> Exception (vec xs (length xs))
          | Normal new1 u \<Rightarrow>
              (case relocate T (slots (vec xs (length xs))) 0 (Size (vec xs (length xs))) new1 0 of
                 Undefined \<Rightarrow> Undefined
               | Exception (old, new) \<Rightarrow> Exception (with_slots (vec xs (length xs)) old)
               | Normal (old, new) u \<Rightarrow>
                   (case destroy_n old 0 (Size (vec xs (length xs))) of
                      None \<Rightarrow> Undefined
                    | Some old' \<Rightarrow>
                        Normal ((vec xs (length xs))\<lparr>data_m := fst (RawMemory_Swap (data_m (vec xs (length xs)))
                                       (nd\<lparr>buffer_m := new\<rparr>)),
                                     size_m := size_m (vec xs (length xs)) + 1\<rparr>) r))) =
         (case val of
            None \<Rightarrow> Exception (vec xs (length xs))
          | Some x \<Rightarrow>
              if reloc_throws T xs then Exception (vec (reloc_partial T xs) (length xs))
              else Normal (vec (xs @ [x]) (grown (length xs))) r)"
proof (cases val)
  case None
  then show ?thesis using grown_gt[of "length xs"] by (simp add: construct_at_def nd)
next
  case (Some x)
  have ca: "construct_at (buffer_m nd) (length xs) val =
      Normal (replicate (length xs) None @ Some x # replicate (grown (length xs) - Suc (length xs)) None) ()"
    using grown_gt[of "length xs"] Some grown_block[of "length xs" x] by (simp add: construct_at_def nd)
  have sl: "slots (vec xs (length xs)) = map Some xs" by simp
  have sz: "Size (vec xs (length xs)) = length xs" by simp
  show ?thesis
  proof (cases "reloc_throws T xs")
    case True
    show ?thesis
      unfolding ca sl sz result.case relocate_all
      using True Some by (simp add: with_slots_def vec_def)
  next
    case False
    show ?thesis
      unfolding ca sl sz result.case relocate_all
      using False Some grown_gt[of "length xs"]
      by (simp add: destroy_n_all vec_def RawMemory_Swap_def nd)
  qed
qed

lemma grown_if: "(if Size (vec xs cap) = 0 then 1 else Size (vec xs cap) * 2) = grown (length xs)"
  by (simp add: grown_def)

lemma PushBack_vec_grow:
  assumes ft: "fits T (grown (length xs))"
  shows "PushBack T (vec xs (length xs)) val =
     (if alloc_fails T (grown (length xs)) then Exception (vec xs (length xs))
      else (case val of
              None \<Rightarrow> Exception (vec xs (length xs))
            | Some x \<Rightarrow>
                if reloc_throws T xs then Exception (vec (reloc_partial T xs) (length xs))
                else Normal (vec (xs @ [x]) (grown (length xs))) ()))"
proof -
  have c: "\<not> RawMemory_Capacity (data_m (vec xs (length xs))) > Size (vec xs (length xs))"
    by simp
  have rc: "RawMemory_ctor T (grown (length xs)) =
     (if alloc_fails T (grown (length xs)) then None
      else Some \<lparr>buffer_m = replicate (grown (length xs)) None, capacity_m = grown (length xs)\<rparr>)"
    by (rule RawMemory_ctor_eq[OF _ ft]) (simp add: grown_def)
  show ?thesis
  proof (cases "alloc_fails T (grown (length xs))")
    case True
    then show ?thesis unfolding PushBack_def by (simp only: c if_False grown_if rc if_True option.case)
  next
    case False
    then show ?thesis unfolding PushBack_def
      by (simp only: c if_False grown_if rc option.case grow_tail[OF refl])
  qed
qed

lemma EmplaceBack_vec_grow:
  assumes ft: "fits T (grown (length xs))"
  shows "EmplaceBack T (vec xs (length xs)) val =
     (if alloc_fails T (grown (length xs)) then Exception (vec xs (length xs))
      else (case val of
              None \<Rightarrow> Exception (vec xs (length xs))
            | Some x \<Rightarrow>
                if reloc_throws T xs then Exception (vec (reloc_partial T xs) (length xs))
                else Normal (vec (xs @ [x]) (grown (length xs))) (length xs)))"
proof -
  have c: "\<not> RawMemory_Capacity (data_m (vec xs (length xs))) > Size (vec xs (length xs))"
    by simp
  have rc: "RawMemory_ctor T (grown (length xs)) =
     (if alloc_fails T (grown (length xs)) then None
      else Some \<lparr>buffer_m = replicate (grown (length xs)) None, capacity_m = grown (length xs)\<rparr>)"
    by (rule RawMemory_ctor_eq[OF _ ft]) (simp add: grown_def)
  have s: "size_m (vec xs (length xs)) = length xs" by (simp add: vec_def)
  show ?thesis
  proof (cases "alloc_fails T (grown (length xs))")
    case True
    then show ?thesis unfolding EmplaceBack_def by (simp only: c if_False grown_if rc if_True option.case)
  next
    case False
    then show ?thesis unfolding EmplaceBack_def
      by (simp only: c if_False grown_if rc option.case grow_tail[OF refl]) (simp only: s)
  qed
qed

lemma EmplaceBack_vec_room:
  assumes "length xs < cap"
  shows "EmplaceBack T (vec xs cap) val =
     (case val of None \<Rightarrow> Exception (vec xs cap) | Some x \<Rightarrow> Normal (vec (xs @ [x]) cap) (length xs))"
proof -
  have c: "RawMemory_Capacity (data_m (vec xs cap)) > Size (vec xs cap)"
    using assms by simp
  have ca: "construct_at (slots (vec xs cap)) (Size (vec xs cap)) val =
     (case val of None \<Rightarrow> Exception (slots (vec xs cap))
      | Some x \<Rightarrow> Normal (map Some xs @ Some x # replicate (cap - Suc (length xs)) None) ())"
    unfolding slots_vec_room[OF assms] by (rule construct_at_mid) simp
  show ?thesis
    unfolding EmplaceBack_def
    by (simp only: c ca if_True split: option.split) (simp add: vec_def with_slots_def)
qed

lemma Emplace_grow_tail:
  assumes nd: "nd = \<lparr>buffer_m = replicate (grown (length (as @ bs))) None, capacity_m = grown (length (as @ bs))\<rparr>"
    and small: "length as \<le> INT_MAX"
  shows "(if to_int (length as) < 0 then Undefined
             else
               (case construct_at (buffer_m nd) (nat (to_int (length as))) args of
                  Undefined \<Rightarrow> Undefined
                | Exception new0 \<Rightarrow> Exception (vec (as @ bs) (length (as @ bs)))
                | Normal new1 u \<Rightarrow>
                    (case relocate T (slots (vec (as @ bs) (length (as @ bs)))) 0 (nat (to_int (length as))) new1 0 of
                       Undefined \<Rightarrow> Undefined
                     | Exception (old1, new) \<Rightarrow> Exception (with_slots (vec (as @ bs) (length (as @ bs))) old1)
                     | Normal (old1, new2) u \<Rightarrow>
                         if nat (to_int (length as)) > Size (vec (as @ bs) (length (as @ bs))) then Undefined
                         else
                           (case relocate T old1 (nat (to_int (length as))) (Size (vec (as @ bs) (length (as @ bs))) - nat (to_int (length as))) new2 (nat (to_int (length as)) + 1) of
                              Undefined \<Rightarrow> Undefined
                            | Exception (old2, new) \<Rightarrow> Exception (with_slots (vec (as @ bs) (length (as @ bs))) old2)
                            | Normal (old2, new3) u \<Rightarrow>
                                (case destroy_n old2 0 (Size (vec (as @ bs) (length (as @ bs)))) of
                                   None \<Rightarrow> Undefined
                                 | Some old' \<Rightarrow>
                                     Normal ((vec (as @ bs) (length (as @ bs)))\<lparr>data_m := fst (RawMemory_Swap (data_m (vec (as @ bs) (length (as @ bs)))) (nd\<lparr>buffer_m := new3\<rparr>)),
                                                  size_m := size_m (vec (as @ bs) (length (as @ bs))) + 1\<rparr>) (nat (to_int (length as)))))))) =
         (case args of
            None \<Rightarrow> Exception (vec (as @ bs) (length (as @ bs)))
          | Some x \<Rightarrow>
              if reloc_throws T as then Exception (vec (reloc_partial T as @ bs) (length (as @ bs)))
              else if reloc_throws T bs then Exception (vec (relocated T as @ reloc_partial T bs) (length (as @ bs)))
              else Normal (vec (as @ x # bs) (grown (length (as @ bs)))) (length as))"
proof -
  let ?n = "length as + length bs"
  let ?E = "replicate (grown ?n - Suc ?n) None"
  have ti: "to_int (length as) = int (length as)"
    by (rule to_int_small[OF small])
  have lt: "length as < grown ?n" "?n < grown ?n"
    using grown_gt[of ?n] by simp_all
  have new0: "buffer_m nd = replicate (length as) None @ None # replicate (length bs) None @ ?E"
  proof -
    have "replicate (grown ?n) None = replicate (length as) (None::'a option) @ None # replicate (grown ?n - Suc (length as)) None"
      by (rule replicate_split[OF lt(1)])
    moreover have "grown ?n - Suc (length as) = length bs + (grown ?n - Suc ?n)"
      using lt(2) by simp
    ultimately show ?thesis by (simp add: nd replicate_add)
  qed
  show ?thesis
  proof (cases args)
    case None
    then show ?thesis by (simp add: ti new0 construct_at_def)
  next
    case (Some x)
    have ca: "construct_at (buffer_m nd) (length as) (Some x) =
        Normal (replicate (length as) None @ Some x # replicate (length bs) None @ ?E) ()"
      unfolding new0 by (simp add: construct_at_mid)
    have r1: "relocate T (map Some as @ map Some bs) 0 (length as)
         (replicate (length as) None @ Some x # replicate (length bs) None @ ?E) 0 =
       (if reloc_throws T as
        then Exception (map Some (reloc_partial T as) @ map Some bs,
                        replicate (length as) None @ Some x # replicate (length bs) None @ ?E)
        else Normal (map Some (relocated T as) @ map Some bs,
                     map Some as @ Some x # replicate (length bs) None @ ?E) ())"
      using relocate_eq[of T "[]" as "map Some bs" "[]" "Some x # replicate (length bs) None @ ?E"] by simp
    have r2: "relocate T (map Some (relocated T as) @ map Some bs) (length as) (length bs)
         (map Some as @ Some x # replicate (length bs) None @ ?E) (Suc (length as)) =
       (if reloc_throws T bs
        then Exception (map Some (relocated T as) @ map Some (reloc_partial T bs),
                        map Some as @ Some x # replicate (length bs) None @ ?E)
        else Normal (map Some (relocated T as) @ map Some (relocated T bs),
                     map Some as @ Some x # map Some bs @ ?E) ())"
      using relocate_eq[of T "map Some (relocated T as)" bs "[]" "map Some as @ [Some x]" ?E] by simp
    have d: "destroy_n (map Some (relocated T as) @ map Some (relocated T bs)) 0 ?n = Some (replicate ?n None)"
      using destroy_n_all[of "relocated T as @ relocated T bs" ?n] by simp
    show ?thesis
      using Some lt
      by (simp add: ti ca r1 r2 d)
         (simp add: vec_def with_slots_def RawMemory_Swap_def nd)
  qed
qed


lemma Emplace_vec_grow:
  assumes small: "length as \<le> INT_MAX" and ft: "fits T (grown (length (as @ bs)))"
  shows "Emplace T (vec (as @ bs) (length (as @ bs))) (length as) args =
     (if alloc_fails T (grown (length (as @ bs))) then Exception (vec (as @ bs) (length (as @ bs)))
      else (case args of
              None \<Rightarrow> Exception (vec (as @ bs) (length (as @ bs)))
            | Some x \<Rightarrow>
                if reloc_throws T as then Exception (vec (reloc_partial T as @ bs) (length (as @ bs)))
                else if reloc_throws T bs
                  then Exception (vec (relocated T as @ reloc_partial T bs) (length (as @ bs)))
                else Normal (vec (as @ x # bs) (grown (length (as @ bs)))) (length as)))"
proof -
  let ?v = "vec (as @ bs) (length (as @ bs))"
  have c: "\<not> RawMemory_Capacity (data_m ?v) > Size ?v"
    by simp
  have rc: "RawMemory_ctor T (grown (length (as @ bs))) =
     (if alloc_fails T (grown (length (as @ bs))) then None
      else Some \<lparr>buffer_m = replicate (grown (length (as @ bs))) None, capacity_m = grown (length (as @ bs))\<rparr>)"
    by (rule RawMemory_ctor_eq[OF _ ft]) (simp add: grown_def)
  show ?thesis
  proof (cases "alloc_fails T (grown (length (as @ bs)))")
    case True
    then show ?thesis unfolding Emplace_def Let_def
      by (simp only: c if_False grown_if rc if_True option.case)
  next
    case False
    then show ?thesis unfolding Emplace_def Let_def
      by (simp only: c if_False grown_if rc option.case Emplace_grow_tail[OF refl small])
  qed
qed

lemma Emplace_vec_room_end:
  assumes room: "length xs < cap" and small: "length xs \<le> INT_MAX"
  shows "Emplace T (vec xs cap) (length xs) args =
     (case args of None \<Rightarrow> Undefined | Some x \<Rightarrow> Normal (vec (xs @ [x]) cap) (length xs))"
proof -
  have c: "RawMemory_Capacity (data_m (vec xs cap)) > Size (vec xs cap)"
    using room by simp
  have ti: "to_int (length xs) = int (length xs)"
    by (rule to_int_small[OF small])
  have ca: "construct_at (slots (vec xs cap)) (length xs) args =
     (case args of None \<Rightarrow> Exception (slots (vec xs cap))
      | Some x \<Rightarrow> Normal (map Some xs @ Some x # replicate (cap - Suc (length xs)) None) ())"
    unfolding slots_vec_room[OF room] by (rule construct_at_mid) simp
  have tr: "Emplace_try T (slots (vec xs cap)) (Size (vec xs cap)) (length xs) (int (length xs)) args =
     construct_at (slots (vec xs cap)) (length xs) args"
    by (simp add: Emplace_try_def)
  show ?thesis
    unfolding Emplace_def Let_def
    by (simp only: c if_True tr ca ti split: option.split) (simp add: vec_def with_slots_def)
qed

lemma Emplace_vec_room_mid:
  assumes room: "Suc (length as + length ys) < cap" and small: "length as \<le> INT_MAX"
  shows "Emplace T (vec (as @ ys @ [l]) cap) (length as) args =
     (case args of
        None \<Rightarrow> Undefined
      | Some x \<Rightarrow>
          if move_ctor_throws T l \<or> list_ex (move_assign_throws T) ys \<or> move_assign_throws T x
          then Undefined
          else Normal (vec (as @ x # ys @ [l]) cap) (length as))"
proof -
  let ?v = "vec (as @ ys @ [l]) cap"
  let ?R = "replicate (cap - Suc (Suc (length as + length ys))) None"
  let ?tb = "Emplace_try T (slots ?v) (Size ?v) (length as) (to_int (length as)) args"
  have c: "RawMemory_Capacity (data_m ?v) > Size ?v"
    using room by simp
  have ti: "to_int (length as) = int (length as)"
    by (rule to_int_small[OF small])
  have sl: "slots ?v = map Some (as @ ys @ [l]) @ None # ?R"
    using slots_vec_room[of "as @ ys @ [l]" cap] room by simp
  have sz: "Size ?v = Suc (length as + length ys)" by simp
  show ?thesis
  proof (cases args)
    case None
    then have "?tb = Exception (slots ?v)"
      by (simp add: Emplace_try_def)
    then show ?thesis unfolding Emplace_def Let_def using None
      by (simp only: c if_True result.case option.case)
  next
    case (Some x)
    have iff: "?tb = Normal r u \<longleftrightarrow>
       \<not> move_ctor_throws T l \<and> \<not> list_ex (move_assign_throws T) ys \<and> \<not> move_assign_throws T x \<and>
       r = map Some (as @ x # ys @ [l]) @ ?R" for r u
      unfolding sl sz ti Some by (rule Emplace_try_mid)
    show ?thesis
    proof (cases "move_ctor_throws T l \<or> list_ex (move_assign_throws T) ys \<or> move_assign_throws T x")
      case True
      then have "?tb \<noteq> Normal r u" for r u using iff by auto
      then have "(case ?tb of Undefined \<Rightarrow> Undefined | Exception blk \<Rightarrow> Undefined
                  | Normal blk u \<Rightarrow> if to_int (length as) < 0 then Undefined
                      else Normal ((with_slots ?v blk)\<lparr>size_m := size_m ?v + 1\<rparr>) (nat (to_int (length as)))) = Undefined"
        by (cases ?tb) auto
      then show ?thesis unfolding Emplace_def Let_def using True Some
        by (simp only: c if_True option.case)
    next
      case False
      then have "?tb = Normal (map Some (as @ x # ys @ [l]) @ ?R) ()" using iff by simp
      then show ?thesis unfolding Emplace_def Let_def using False Some room
        by (simp only: c if_True result.case option.case ti)
           (simp add: vec_def with_slots_def)
    qed
  qed
qed

lemma nothrow_reloc [simp]: "nothrow T \<Longrightarrow> \<not> reloc_throws T xs"
  by (simp add: nothrow_def reloc_throws_def list_ex_iff)

lemma nothrow_list_ex [simp]:
  "nothrow T \<Longrightarrow> \<not> list_ex (move_assign_throws T) xs"
  "nothrow T \<Longrightarrow> \<not> list_ex (copy_assign_throws T) xs"
  "nothrow T \<Longrightarrow> \<not> list_ex (copy_ctor_throws T) xs"
  "nothrow T \<Longrightarrow> \<not> list_ex (move_ctor_throws T) xs"
  by (simp_all add: nothrow_def list_ex_iff)

lemma nothrow_int_traits [simp]: "nothrow int_traits" "never_bad_alloc int_traits"
  by (simp_all add: nothrow_def never_bad_alloc_def int_traits_def)

lemma split_mid:
  assumes "p < length xs"
  obtains as ys l where "xs = as @ ys @ [l]" and "length as = p"
proof -
  have ne: "drop p xs \<noteq> []" using assms by simp
  have "take p xs @ butlast (drop p xs) @ [last (drop p xs)] = xs"
    by (simp only: append_butlast_last_id[OF ne] append_take_drop_id)
  moreover have "length (take p xs) = p" using assms by simp
  ultimately show ?thesis using that by metis
qed

lemma Emplace_vec_Normal:
  assumes le: "length xs \<le> cap" and p: "p \<le> length xs" and small: "p \<le> INT_MAX"
    and ft: "length xs = cap \<longrightarrow> fits T (grown cap)"
    and res: "Emplace T (vec xs cap) p (Some x) = Normal v' it"
  shows "v' = vec (take p xs @ x # drop p xs) (if length xs < cap then cap else grown cap) \<and> it = p"
proof (cases "length xs < cap")
  case room: True
  show ?thesis
  proof (cases "p = length xs")
    case True
    then show ?thesis using res room small Emplace_vec_room_end[OF room, of T "Some x"] by simp
  next
    case False
    then have pl: "p < length xs" using p by simp
    from split_mid[OF pl] obtain as ys l where xs: "xs = as @ ys @ [l]" and la: "length as = p"
      by blast
    have sm: "length as \<le> INT_MAX" using small la p by simp
    have rm: "Suc (length as + length ys) < cap" using room xs by simp
    show ?thesis
      using res Emplace_vec_room_mid[OF rm sm, of T l "Some x"] room
      unfolding xs la[symmetric]
      by (simp split: if_splits)
  qed
next
  case False
  then have full: "cap = length xs" using le by simp
  obtain as bs where xs: "xs = as @ bs" and la: "length as = p"
    using p by (metis append_take_drop_id length_take min.absorb2)
  have sm: "length as \<le> INT_MAX" using small la p by simp
  have ft': "fits T (grown (length (as @ bs)))" using ft full xs by simp
  show ?thesis
    using res Emplace_vec_grow[OF sm ft', of "Some x"]
    unfolding full xs la[symmetric]
    by (simp split: if_splits)
qed

lemma Emplace_vec_total:
  assumes le: "length xs \<le> cap" and p: "p \<le> length xs" and small: "p \<le> INT_MAX"
    and nt: "nothrow T" and al: "length xs = cap \<longrightarrow> \<not> alloc_fails T (grown cap)"
    and ft: "length xs = cap \<longrightarrow> fits T (grown cap)"
  shows "Emplace T (vec xs cap) p (Some x) =
           Normal (vec (take p xs @ x # drop p xs) (if length xs < cap then cap else grown cap)) p"
proof (cases "length xs < cap")
  case room: True
  show ?thesis
  proof (cases "p = length xs")
    case True
    then show ?thesis using room small Emplace_vec_room_end[OF room, of T "Some x"] by simp
  next
    case False
    then have pl: "p < length xs" using p by simp
    from split_mid[OF pl] obtain as ys l where xs: "xs = as @ ys @ [l]" and la: "length as = p"
      by blast
    have sm: "length as \<le> INT_MAX" using small la p by simp
    have rm: "Suc (length as + length ys) < cap" using room xs by simp
    have nt': "\<not> (move_ctor_throws T l \<or> list_ex (move_assign_throws T) ys \<or> move_assign_throws T x)"
      using nt by (simp add: nothrow_def list_ex_iff)
    show ?thesis
      using Emplace_vec_room_mid[OF rm sm, of T l "Some x"] room nt'
      unfolding xs la[symmetric]
      by simp
  qed
next
  case False
  then have full: "cap = length xs" using le by simp
  obtain as bs where xs: "xs = as @ bs" and la: "length as = p"
    using p by (metis append_take_drop_id length_take min.absorb2)
  have sm: "length as \<le> INT_MAX" using small la p by simp
  have ft': "fits T (grown (length (as @ bs)))" using ft full xs by simp
  show ?thesis
    using Emplace_vec_grow[OF sm ft', of "Some x"] nt al
    unfolding full xs la[symmetric]
    by simp
qed


lemma Erase_vec:
  assumes le: "Suc (length as + length ys) \<le> cap" and small: "length as \<le> INT_MAX"
  shows "Erase T (vec (as @ y # ys) cap) (length as) = Normal v' it \<longleftrightarrow>
           \<not> list_ex (move_assign_throws T) ys \<and> v' = vec (as @ ys) cap \<and> it = length as"
proof -
  let ?v = "vec (as @ y # ys) cap"
  let ?R = "replicate (cap - Suc (length as + length ys)) None"
  let ?last = "Some (if ys = [] then y else moved_from T (last ys))"
  let ?mv = "std_move T (slots ?v) (nat (to_int (length as)) + 1) (Size ?v) (nat (to_int (length as)))"
  have ti: "to_int (length as) = int (length as)"
    by (rule to_int_small[OF small])
  have sl: "slots ?v = map Some as @ Some y # map Some ys @ ?R"
    by simp
  have mv: "?mv = Normal r u \<longleftrightarrow>
       \<not> list_ex (move_assign_throws T) ys \<and> r = map Some as @ map Some ys @ ?last # ?R" for r u
    using move_n_Normal_iff[of T "map Some as" y ys ?R r u]
    by (simp add: std_move_def ti)
  have da: "destroy_at (map Some as @ map Some ys @ ?last # ?R) (Size ?v - 1) =
        Some (map Some as @ map Some ys @ None # ?R)"
    using destroy_n_eq[of "map Some as @ map Some ys" "[if ys = [] then y else moved_from T (last ys)]" ?R]
    by (simp add: destroy_at_def)
  have nz: "Size ?v \<noteq> 0" by simp
  have fin: "(with_slots ?v (map Some as @ map Some ys @ None # ?R))\<lparr>size_m := size_m ?v - 1\<rparr> = vec (as @ ys) cap"
    using le by (simp add: vec_def with_slots_def Suc_diff_le flip: replicate_Suc)
  show ?thesis
  proof (cases "list_ex (move_assign_throws T) ys")
    case True
    then have "?mv \<noteq> Normal r u" for r u using mv by simp
    then show ?thesis unfolding Erase_def Let_def using True
      by (cases ?mv) (auto simp: ti)
  next
    case False
    then have "?mv = Normal (map Some as @ map Some ys @ ?last # ?R) ()" using mv by simp
    then show ?thesis unfolding Erase_def Let_def using False
      by (simp only: result.case da nz if_False option.case fin) (auto simp: ti)
  qed
qed

lemma subscript_vec: "subscript (vec xs cap) i = (if i < length xs then Some (xs ! i) else None)"
  by (simp add: subscript_def read_slot_def nth_append)

lemma wf_obtain_vec:
  assumes "wf v"
  obtains xs cap where "v = vec xs cap" and "length xs \<le> cap"
proof -
  have "v = vec (elems v) (Capacity v)" by (rule wf_is_vec[OF assms])
  moreover have "length (elems v) \<le> Capacity v"
    using assms wf_length_elems[OF assms] by (simp add: wf_def)
  ultimately show ?thesis using that by blast
qed

lemma insert_post:
  assumes p: "p \<le> length xs" and c: "Suc (length xs) \<le> cap'"
  shows "wf (vec (take p xs @ x # drop p xs) cap')"
    and "Size (vec (take p xs @ x # drop p xs) cap') = length xs + 1"
    and "subscript (vec (take p xs @ x # drop p xs) cap') p = Some x"
    and "\<forall>i<p. subscript (vec (take p xs @ x # drop p xs) cap') i = subscript (vec xs cap) i"
    and "\<forall>i. p \<le> i \<and> i < length xs \<longrightarrow>
           subscript (vec (take p xs @ x # drop p xs) cap') (Suc i) = subscript (vec xs cap) i"
proof -
  show "wf (vec (take p xs @ x # drop p xs) cap')" using p c by simp
  show "Size (vec (take p xs @ x # drop p xs) cap') = length xs + 1" using p by simp
  show "subscript (vec (take p xs @ x # drop p xs) cap') p = Some x"
    using p by (simp add: subscript_vec nth_append)
  show "\<forall>i<p. subscript (vec (take p xs @ x # drop p xs) cap') i = subscript (vec xs cap) i"
    using p by (simp add: subscript_vec nth_append)
  show "\<forall>i. p \<le> i \<and> i < length xs \<longrightarrow>
           subscript (vec (take p xs @ x # drop p xs) cap') (Suc i) = subscript (vec xs cap) i"
    using p by (auto simp: subscript_vec nth_append min_def Suc_diff_le)
qed

lemma split_at:
  assumes "p < length xs"
  obtains as y ys where "xs = as @ y # ys" and "length as = p"
  using assms id_take_nth_drop[OF assms] that[of "take p xs" "xs ! p" "drop (Suc p) xs"] by simp

lemma Erase_vec_Normal_iff:
  assumes le: "length xs \<le> cap" and p: "p < length xs" and small: "p \<le> INT_MAX"
  shows "Erase T (vec xs cap) p = Normal v' it \<longleftrightarrow>
           \<not> list_ex (move_assign_throws T) (drop (Suc p) xs) \<and>
           v' = vec (take p xs @ drop (Suc p) xs) cap \<and> it = p"
proof -
  from split_at[OF p] obtain as y ys where xs: "xs = as @ y # ys" and la: "length as = p"
    by blast
  have l: "Suc (length as + length ys) \<le> cap" using le xs by simp
  have s: "length as \<le> INT_MAX" using small la by simp
  show ?thesis using Erase_vec[OF l s, of T y v' it] unfolding xs la[symmetric] by simp
qed

lemma erase_post:
  assumes p: "p < length xs" and le: "length xs \<le> cap"
  shows "wf (vec (take p xs @ drop (Suc p) xs) cap)"
    and "Size (vec (take p xs @ drop (Suc p) xs) cap) = length xs - 1"
    and "\<forall>i<p. subscript (vec (take p xs @ drop (Suc p) xs) cap) i = subscript (vec xs cap) i"
    and "\<forall>i. p \<le> i \<and> i < length xs - 1 \<longrightarrow>
           subscript (vec (take p xs @ drop (Suc p) xs) cap) i = subscript (vec xs cap) (Suc i)"
proof -
  show "wf (vec (take p xs @ drop (Suc p) xs) cap)" using p le by simp
  show "Size (vec (take p xs @ drop (Suc p) xs) cap) = length xs - 1" using p by simp
  show "\<forall>i<p. subscript (vec (take p xs @ drop (Suc p) xs) cap) i = subscript (vec xs cap) i"
    using p by (auto simp: subscript_vec nth_append)
  show "\<forall>i. p \<le> i \<and> i < length xs - 1 \<longrightarrow>
           subscript (vec (take p xs @ drop (Suc p) xs) cap) i = subscript (vec xs cap) (Suc i)"
    using p by (auto simp: subscript_vec nth_append min_def)
qed

lemma erase_insert_id: "p \<le> length xs \<Longrightarrow>
    take p (take p xs @ x # drop p xs) @ drop (Suc p) (take p xs @ x # drop p xs) = xs"
  by simp

section \<open>Size and capacity after each operation\<close>

lemma Capacity_with_slots [simp]: "Capacity (with_slots v b) = Capacity v"
  by (simp add: Capacity_def with_slots_def RawMemory_Capacity_def)

lemma Size_with_slots [simp]: "Size (with_slots v b) = Size v"
  by (simp add: Size_def with_slots_def)

lemma Capacity_size_update [simp]: "Capacity (v\<lparr>size_m := n\<rparr>) = Capacity v"
  by (simp add: Capacity_def)

lemma Size_size_update [simp]: "Size (v\<lparr>size_m := n\<rparr>) = n"
  by (simp add: Size_def)

lemma RawMemory_ctor_capacity: "RawMemory_ctor T n = Some nd \<Longrightarrow> capacity_m nd = n"
  by (auto simp: RawMemory_ctor_def split: option.splits)

lemma Capacity_swapped [simp]:
  "Capacity (v\<lparr>data_m := fst (RawMemory_Swap d (nd\<lparr>buffer_m := b\<rparr>)), size_m := n\<rparr>) = capacity_m nd"
  "Capacity (v\<lparr>data_m := fst (RawMemory_Swap d (nd\<lparr>buffer_m := b\<rparr>))\<rparr>) = capacity_m nd"
  by (simp_all add: Capacity_def RawMemory_Swap_def RawMemory_Capacity_def)

lemma PushBack_Capacity:
  assumes "PushBack T v a = Normal v' u \<or> PushBack T v a = Exception v'"
  shows "Capacity v' = (if PushBack T v a = Normal v' u \<and> \<not> Size v < Capacity v then grown (Size v) else Capacity v)"
  using assms unfolding PushBack_def
  by (auto simp: grown_def Capacity_def Size_def RawMemory_Capacity_def with_slots_def RawMemory_Swap_def dest!: RawMemory_ctor_capacity
           split: if_splits option.splits result.splits prod.splits)

lemma EmplaceBack_Capacity:
  assumes "EmplaceBack T v a = Normal v' u \<or> EmplaceBack T v a = Exception v'"
  shows "Capacity v' = (if EmplaceBack T v a = Normal v' u \<and> \<not> Size v < Capacity v then grown (Size v) else Capacity v)"
  using assms unfolding EmplaceBack_def
  by (auto simp: grown_def Capacity_def Size_def RawMemory_Capacity_def with_slots_def RawMemory_Swap_def dest!: RawMemory_ctor_capacity
           split: if_splits option.splits result.splits prod.splits)

lemma Emplace_Capacity:
  assumes "Emplace T v p a = Normal v' u \<or> Emplace T v p a = Exception v'"
  shows "Capacity v' = (if Emplace T v p a = Normal v' u \<and> \<not> Size v < Capacity v then grown (Size v) else Capacity v)"
  using assms unfolding Emplace_def Let_def
  by (auto simp: grown_def Capacity_def Size_def RawMemory_Capacity_def with_slots_def RawMemory_Swap_def dest!: RawMemory_ctor_capacity
           split: if_splits option.splits result.splits prod.splits)


lemmas sc_defs = Capacity_def Size_def RawMemory_Capacity_def with_slots_def RawMemory_Swap_def

lemma PushBack_Size:
  assumes "PushBack T v a = Normal v' u \<or> PushBack T v a = Exception v'"
  shows "Size v' = (if PushBack T v a = Normal v' u then Size v + 1 else Size v)"
  using assms unfolding PushBack_def
  by (auto simp: sc_defs split: if_splits option.splits result.splits prod.splits)

lemma EmplaceBack_Size:
  assumes "EmplaceBack T v a = Normal v' u \<or> EmplaceBack T v a = Exception v'"
  shows "Size v' = (if EmplaceBack T v a = Normal v' u then Size v + 1 else Size v)"
  using assms unfolding EmplaceBack_def
  by (auto simp: sc_defs split: if_splits option.splits result.splits prod.splits)

lemma Emplace_Size:
  assumes "Emplace T v p a = Normal v' u \<or> Emplace T v p a = Exception v'"
  shows "Size v' = (if Emplace T v p a = Normal v' u then Size v + 1 else Size v)"
  using assms unfolding Emplace_def Let_def
  by (auto simp: sc_defs split: if_splits option.splits result.splits prod.splits)

lemma Reserve_sizes:
  assumes "Reserve T v c = Normal v' u \<or> Reserve T v c = Exception v'"
  shows "Size v' = Size v \<and>
         Capacity v' = (if Reserve T v c = Normal v' u then max (Capacity v) c else Capacity v)"
  using assms unfolding Reserve_def
  by (auto simp: sc_defs dest!: RawMemory_ctor_capacity
           split: if_splits option.splits result.splits prod.splits)

lemma Resize_sizes:
  assumes "Resize T v n = Normal v' u \<or> Resize T v n = Exception v'"
  shows "Size v' = (if Resize T v n = Normal v' u then n else Size v) \<and>
         Capacity v \<le> Capacity v' \<and> Capacity v' \<le> max (Capacity v) n \<and>
         (Resize T v n = Normal v' u \<longrightarrow> Capacity v' = (if n \<le> Size v then Capacity v else max (Capacity v) n))"
proof (cases "n \<le> Size v")
  case True
  then show ?thesis using assms unfolding Resize_def
    by (auto simp: sc_defs split: if_splits option.splits result.splits prod.splits)
next
  case False
  show ?thesis
  proof (cases "Reserve T v n")
    case (Normal v1 u1)
    from Reserve_sizes[of T v n v1 u1] Normal
    have "Size v1 = Size v" "Capacity v1 = max (Capacity v) n" by simp_all
    then show ?thesis using assms False Normal unfolding Resize_def
      by (auto simp: split: if_splits option.splits result.splits prod.splits)
  next
    case (Exception v1)
    from Reserve_sizes[of T v n v1] Exception
    have "Size v1 = Size v" "Capacity v1 = Capacity v" by simp_all
    then show ?thesis using assms False Exception unfolding Resize_def
      by (auto simp: split: if_splits option.splits result.splits prod.splits)
  next
    case Undefined
    then show ?thesis using assms False unfolding Resize_def by simp
  qed
qed

lemma PopBack_sizes:
  assumes "PopBack v = Normal v' u \<or> PopBack v = Exception v'"
  shows "Size v' = Size v - 1 \<and> Capacity v' = Capacity v \<and> Size v \<noteq> 0"
  using assms unfolding PopBack_def
  by (auto simp: sc_defs split: if_splits option.splits)

lemma Erase_sizes:
  assumes "Erase T v p = Normal v' u \<or> Erase T v p = Exception v'"
  shows "Size v' = (if Erase T v p = Normal v' u then Size v - 1 else Size v) \<and> Capacity v' = Capacity v"
  using assms unfolding Erase_def Let_def
  by (auto simp: sc_defs split: if_splits option.splits result.splits)

lemma assign_loop_sizes:
  "assign_loop T v r i k = Normal v' u \<or> assign_loop T v r i k = Exception v' \<Longrightarrow>
   size_m v' = size_m v \<and> capacity_m (data_m v') = capacity_m (data_m v)"
proof (induction k arbitrary: v i)
  case 0
  then show ?case by simp
next
  case (Suc k)
  then show ?case
    by (fastforce simp: with_slots_def split: option.splits if_splits)
qed

lemma Vector_copy_sizes:
  "Vector_copy T other = Normal u v' \<Longrightarrow> Size v' = Size other \<and> Capacity v' = Size other"
  unfolding Vector_copy_def
  by (auto simp: sc_defs dest!: RawMemory_ctor_capacity split: option.splits result.splits)

lemma Swap_eq: "Swap this other = (other, this)"
  by (simp add: Swap_def RawMemory_move_def)

lemma Size_deref_with_slots [simp]: "Size (deref r (with_slots v b)) = Size (deref r v)"
  by (cases r) (simp_all add: deref_def)

lemma copy_assign_sizes:
  assumes "copy_assign T v r = Normal v' u \<or> copy_assign T v r = Exception v'"
  shows "Size v' = (if copy_assign T v r = Normal v' u then Size (deref r v) else Size v) \<and>
         Capacity v' = (if copy_assign T v r = Normal v' u \<and> Capacity v < Size (deref r v)
                        then Size (deref r v) else Capacity v)"
proof (cases "Capacity v < Size (deref r v)")
  case True
  then show ?thesis using assms unfolding copy_assign_def
    by (auto simp: Capacity_def Swap_eq dest!: Vector_copy_sizes split: result.splits if_splits)
next
  case False
  have al: "Size v1 = Size v \<and> Capacity v1 = Capacity v \<and> Size (deref r v1) = Size (deref r v)"
    if "assign_loop T v r 0 k = Normal v1 u1 \<or> assign_loop T v r 0 k = Exception v1" for v1 u1 k
    using assign_loop_sizes[OF that] by (cases r) (simp_all add: sc_defs deref_def)
  show ?thesis
  proof (cases "Size (deref r v) < Size v")
    case shrink: True
    let ?loop = "assign_loop T v r 0 (Size (deref r v))"
    have ca: "copy_assign T v r =
        (case ?loop of
           Undefined \<Rightarrow> Undefined
         | Exception this1 \<Rightarrow> Exception this1
         | Normal this1 u \<Rightarrow>
             (case destroy_n (slots this1) (Size (deref r this1)) (Size this1 - Size (deref r this1)) of
                None \<Rightarrow> Undefined
              | Some blk \<Rightarrow>
                  (let this2 = with_slots this1 blk
                   in Normal (this2\<lparr>size_m := size_m (deref r this2)\<rparr>) ())))"
      using False shrink by (simp add: copy_assign_def Capacity_def)
    show ?thesis
    proof (cases ?loop)
      case (Normal v1 u1)
      note a = al[of _ v1 u1, OF disjI1[OF Normal]]
      show ?thesis using assms False a unfolding ca Normal
        by (auto simp: Let_def Size_def[symmetric] split: option.splits)
    next
      case (Exception v1)
      note a = al[of _ v1, OF disjI2[OF Exception]]
      show ?thesis using assms False a unfolding ca Exception by auto
    next
      case Undefined
      then show ?thesis using assms unfolding ca by simp
    qed
  next
    case grow: False
    let ?loop = "assign_loop T v r 0 (Size v)"
    have ca: "copy_assign T v r =
        (case ?loop of
           Undefined \<Rightarrow> Undefined
         | Exception this1 \<Rightarrow> Exception this1
         | Normal this1 u \<Rightarrow>
             (case uninitialized_copy_n T (slots (deref r this1)) (Size this1)
                     (Size (deref r this1) - Size this1) (slots this1) (Size this1) of
                Undefined \<Rightarrow> Undefined
              | Exception blk \<Rightarrow> Exception (with_slots this1 blk)
              | Normal blk u \<Rightarrow>
                  (let this2 = with_slots this1 blk
                   in Normal (this2\<lparr>size_m := size_m (deref r this2)\<rparr>) ())))"
      using False grow by (simp add: copy_assign_def Capacity_def)
    show ?thesis
    proof (cases ?loop)
      case (Normal v1 u1)
      note a = al[of _ v1 u1, OF disjI1[OF Normal]]
      show ?thesis using assms False a unfolding ca Normal
        by (auto simp: Let_def Size_def[symmetric] split: result.splits)
    next
      case (Exception v1)
      note a = al[of _ v1, OF disjI2[OF Exception]]
      show ?thesis using assms False a unfolding ca Exception by auto
    next
      case Undefined
      then show ?thesis using assms unfolding ca by simp
    qed
  qed
qed

section \<open>Consecutive appends\<close>

lemma Vector_default_vec: "Vector_default = vec [] 0"
  by (simp add: Vector_default_def vec_def RawMemory_default_def)

text \<open>
  When the byte count of the doubled block wraps, the block that \<^verbatim>\<open>operator new\<close>
  returns is too short for the elements at hand.
\<close>

lemma growth_wrap_short:
  assumes nf: "\<not> fits T (grown n)" and old: "n = 0 \<or> fits T n"
  shows "((grown n * sizeof_T T) mod (SIZE_MAX + 1)) div sizeof_T T \<le> n"
proof (cases "sizeof_T T = 0")
  case True
  then show ?thesis by simp
next
  case False
  let ?s = "sizeof_T T" and ?M = "SIZE_MAX + 1"
  have s: "0 < ?s" using False by simp
  have big: "?M \<le> grown n * ?s" using nf s by (simp add: fits_def)
  have "(grown n * ?s) mod ?M < (n + 1) * ?s"
  proof (cases "n = 0")
    case True
    have "(grown n * ?s) mod ?M < ?M" by simp
    also have "?M \<le> ?s" using big True by (simp add: grown_def)
    finally show ?thesis using True by simp
  next
    case nz: False
    then have f: "n * ?s < ?M" using old by (simp add: fits_def)
    have g: "grown n * ?s = n * ?s + n * ?s" using nz by (simp add: grown_def)
    have "(grown n * ?s) mod ?M \<le> grown n * ?s - ?M" using big
      by (metis le_mod_geq mod_less_eq_dividend)
    also have "\<dots> < n * ?s" using f big unfolding g by simp
    finally show ?thesis by simp
  qed
  then have "(grown n * ?s) mod ?M div ?s < n + 1" using s
    by (simp add: less_mult_imp_div_less)
  then show ?thesis by simp
qed

lemma RawMemory_ctor_short:
  assumes "\<not> fits T (grown n)" and "n = 0 \<or> fits T n" and "RawMemory_ctor T (grown n) = Some nd"
  shows "length (buffer_m nd) \<le> n"
  using assms(3) growth_wrap_short[OF assms(1,2)]
  by (auto simp: RawMemory_ctor_def Allocate_def split: if_splits)

lemma PushBack_grow_short:
  assumes "\<not> RawMemory_Capacity (data_m v) > Size v"
    and "\<And>nd. RawMemory_ctor T (grown (Size v)) = Some nd \<Longrightarrow> length (buffer_m nd) \<le> Size v"
  shows "PushBack T v a \<noteq> Normal v' u"
proof (cases "RawMemory_ctor T (grown (Size v))")
  case None
  then show ?thesis using assms(1) by (simp add: PushBack_def grown_def)
next
  case (Some nd)
  then have "construct_at (buffer_m nd) (Size v) a = Undefined"
    using assms(2) by (simp add: construct_at_def)
  then show ?thesis using assms(1) Some by (simp add: PushBack_def grown_def)
qed

lemma PushBack_vec_Normal:
  assumes "length ys \<le> cap" and "cap = 0 \<or> fits T cap"
    and "PushBack T (vec ys cap) (Some x) = Normal w u"
  shows "w = vec (ys @ [x]) (if length ys < cap then cap else grown cap) \<and>
         fits T (if length ys < cap then cap else grown cap)"
proof (cases "length ys < cap")
  case True
  then show ?thesis using assms(2,3) PushBack_vec_room[OF True, of T "Some x"] by auto
next
  case False
  then have c: "cap = length ys" using assms(1) by simp
  have ft: "fits T (grown (length ys))"
  proof (rule ccontr)
    assume nf: "\<not> fits T (grown (length ys))"
    have "PushBack T (vec ys (length ys)) (Some x) \<noteq> Normal w u"
    proof (rule PushBack_grow_short)
      show "\<not> RawMemory_Capacity (data_m (vec ys (length ys))) > Size (vec ys (length ys))" by simp
      fix nd assume "RawMemory_ctor T (grown (Size (vec ys (length ys)))) = Some nd"
      then show "length (buffer_m nd) \<le> Size (vec ys (length ys))"
        using RawMemory_ctor_short[OF nf, of nd] assms(2) c by simp
    qed
    then show False using assms(3) c by simp
  qed
  show ?thesis using assms(3) PushBack_vec_grow[OF ft, of "Some x"] ft unfolding c
    by (simp split: if_splits)
qed

lemma PushBack_vec_total:
  assumes "length ys \<le> cap" and "nothrow T" and "length ys = cap \<longrightarrow> \<not> alloc_fails T (grown cap)"
    and "length ys = cap \<longrightarrow> fits T (grown cap)"
  shows "PushBack T (vec ys cap) (Some x) = Normal (vec (ys @ [x]) (if length ys < cap then cap else grown cap)) ()"
proof (cases "length ys < cap")
  case True
  then show ?thesis using PushBack_vec_room[OF True, of T "Some x"] by simp
next
  case False
  then have c: "cap = length ys" using assms(1) by simp
  have ft: "fits T (grown (length ys))" using assms(4) c by simp
  show ?thesis using assms(2,3) PushBack_vec_grow[OF ft, of "Some x"] unfolding c by simp
qed

lemma tight_pow2_room: "n < c \<Longrightarrow> tight_pow2 n c \<Longrightarrow> tight_pow2 (Suc n) c"
  unfolding tight_pow2_def by (metis Suc_leI less_Suc_eq less_SucI)

lemma tight_pow2_grow: "tight_pow2 c c \<Longrightarrow> tight_pow2 (Suc c) (grown c)"
proof -
  assume "tight_pow2 c c"
  then obtain e where e: "c = 2 ^ e" unfolding tight_pow2_def by blast
  then have "grown c = 2 ^ (Suc e)" by (simp add: grown_def)
  moreover have "Suc c \<le> 2 ^ (Suc e)" using e by simp
  moreover have "(2::nat) ^ (Suc e - 1) < Suc c" using e by simp
  ultimately show ?thesis unfolding tight_pow2_def
    by (intro exI[of _ "Suc e"]) simp
qed

lemma tight_pow2_first: "tight_pow2 (Suc 0) (grown 0)"
  unfolding tight_pow2_def grown_def by (intro exI[of _ 0]) simp

lemma tight_pow2_least:
  assumes "tight_pow2 n c"
  shows "(\<exists>e. c = 2 ^ e) \<and> n \<le> c \<and> (\<forall>e. n \<le> 2 ^ e \<longrightarrow> c \<le> 2 ^ e)"
proof -
  from assms obtain e where e: "c = 2 ^ e" "n \<le> c" "e = 0 \<or> 2 ^ (e - 1) < n"
    unfolding tight_pow2_def by blast
  have "c \<le> 2 ^ e'" if "n \<le> 2 ^ e'" for e'
  proof (cases "e = 0")
    case True
    then show ?thesis using e(1) by simp
  next
    case False
    from e(3) False have "(2::nat) ^ (e - 1) < n" by simp
    then have "(2::nat) ^ (e - 1) < 2 ^ e'" using that by (rule less_le_trans)
    then have "e - 1 < e'" by (rule power_less_imp_less_exp[rotated]) simp
    then have "e \<le> e'" using False by simp
    then show ?thesis using e(1) by simp
  qed
  then show ?thesis using e by blast
qed

lemma PushBack_all_vec:
  assumes "length ys \<le> cap"
    and "(ys = [] \<and> cap = 0) \<or> tight_pow2 (length ys) cap"
    and "PushBack_all T (vec ys cap) xs = Normal w u"
    and "cap = 0 \<or> fits T cap"
  shows "\<exists>cap'. w = vec (ys @ xs) cap' \<and> length (ys @ xs) \<le> cap' \<and>
           ((ys @ xs = [] \<and> cap' = 0) \<or> tight_pow2 (length (ys @ xs)) cap')"
  using assms
proof (induction xs arbitrary: ys cap)
  case Nil
  then show ?case by auto
next
  case (Cons x xs)
  let ?cap' = "if length ys < cap then cap else grown cap"
  from Cons.prems(3) obtain v1 u1 where p: "PushBack T (vec ys cap) (Some x) = Normal v1 u1"
    and rest: "PushBack_all T v1 xs = Normal w u"
    by (auto split: result.splits)
  have v1: "v1 = vec (ys @ [x]) ?cap'" and f1: "fits T ?cap'"
    using PushBack_vec_Normal[OF Cons.prems(1,4) p] by simp_all
  have l: "length (ys @ [x]) \<le> ?cap'"
    using Cons.prems(1) grown_gt[of cap] by auto
  have t: "tight_pow2 (length (ys @ [x])) ?cap'"
  proof (cases "length ys < cap")
    case True
    then have "tight_pow2 (length ys) cap" using Cons.prems(2) by auto
    then show ?thesis using True tight_pow2_room by simp
  next
    case False
    then have c: "cap = length ys" using Cons.prems(1) by simp
    show ?thesis
    proof (cases "ys = []")
      case True
      then show ?thesis using c tight_pow2_first by simp
    next
      case False
      then have "tight_pow2 cap cap" using Cons.prems(2) c by simp
      then show ?thesis using c tight_pow2_grow by simp
    qed
  qed
  from Cons.IH[OF l _ rest[unfolded v1]] t f1
  show ?case by simp
qed

lemma PushBack_all_vec_total:
  assumes "length ys \<le> cap" and "nothrow T" and "never_bad_alloc T"
    and "fits T (2 * (length ys + length xs))"
  shows "\<exists>w. PushBack_all T (vec ys cap) xs = Normal w ()"
  using assms(1,4)
proof (induction xs arbitrary: ys cap)
  case Nil
  then show ?case by simp
next
  case (Cons x xs)
  let ?cap' = "if length ys < cap then cap else grown cap"
  have "grown (length ys) \<le> 2 * (length ys + length (x # xs))" by (simp add: grown_def)
  from fits_mono[OF Cons.prems(2) this] have ft: "length ys = cap \<longrightarrow> fits T (grown cap)" by auto
  have p: "PushBack T (vec ys cap) (Some x) = Normal (vec (ys @ [x]) ?cap') ()"
    using PushBack_vec_total[OF Cons.prems(1) assms(2) _ ft] assms(3) by (simp add: never_bad_alloc_def)
  have l: "length (ys @ [x]) \<le> ?cap'"
    using Cons.prems(1) grown_gt[of cap] by auto
  have f: "fits T (2 * (length (ys @ [x]) + length xs))" using Cons.prems(2) by simp
  from Cons.IH[OF l f] p show ?case by simp
qed

lemma grown_max: "grown n = max 1 (2 * n)"
  by (simp add: grown_def)

lemma Vector_sized_sizes:
  "Vector_sized T n = Normal u v \<Longrightarrow> Size v = n \<and> Capacity v = n"
  unfolding Vector_sized_def
  by (auto simp: sc_defs dest!: RawMemory_ctor_capacity split: option.splits result.splits)

lemma Vector_move_eq: "Vector_move w = (w, \<lparr>data_m = \<lparr>buffer_m = [], capacity_m = 0\<rparr>, size_m = 0\<rparr>)"
  by (simp add: Vector_move_def RawMemory_move_def)

lemma move_assign_eq: "move_assign v w = (w, \<lparr>data_m = \<lparr>buffer_m = [], capacity_m = 0\<rparr>, size_m = 0\<rparr>)"
  by (simp add: move_assign_def RawMemory_move_def)

section \<open>Exceptions on the paths that build a new block\<close>

lemma uninitialized_move_n_no_Exception:
  "\<forall>x. \<not> move_ctor_throws T x \<Longrightarrow> uninitialized_move_n T src f n dst d \<noteq> Exception s"
  by (induction n arbitrary: src f dst d s) (auto split: option.splits result.splits prod.splits)

lemma relocate_Exception_src:
  assumes "safe_relocation T" and "relocate T src f n dst d = Exception (src', dst')"
  shows "src' = src"
proof (cases "is_nothrow_move_constructible T")
  case True
  then have "\<forall>x. \<not> move_ctor_throws T x" using assms(1) by (simp add: safe_relocation_def)
  from uninitialized_move_n_no_Exception[OF this] assms(2) True
  show ?thesis by (simp add: relocate_def)
next
  case False
  then have "is_copy_constructible T" using assms(1) by (simp add: safe_relocation_def)
  then show ?thesis using assms(2) False
    by (auto simp: relocate_def split: result.splits)
qed

lemma with_slots_same [simp]: "with_slots v (slots v) = v"
  by (simp add: with_slots_def slots_def)

lemma Reserve_strong:
  assumes "safe_relocation T" and "Reserve T v c = Exception v'"
  shows "v' = v"
  using assms(2) relocate_Exception_src[OF assms(1)] unfolding Reserve_def
  by (fastforce split: if_splits option.splits result.splits prod.splits)

lemma PushBack_strong:
  assumes "safe_relocation T" and "PushBack T v a = Exception v'"
  shows "v' = v"
  using assms(2) relocate_Exception_src[OF assms(1)] unfolding PushBack_def
  by (fastforce split: if_splits option.splits result.splits prod.splits)

lemma EmplaceBack_strong:
  assumes "safe_relocation T" and "EmplaceBack T v a = Exception v'"
  shows "v' = v"
  using assms(2) relocate_Exception_src[OF assms(1)] unfolding EmplaceBack_def
  by (fastforce split: if_splits option.splits result.splits prod.splits)

lemma relocate_copy_rule:
  assumes "\<not> is_nothrow_move_constructible T" and "is_copy_constructible T"
    and "relocate T src f n dst d = Normal (src', dst') u \<or> relocate T src f n dst d = Exception (src', dst')"
  shows "src' = src"
  using assms by (auto simp: relocate_def split: result.splits)

lemma relocate_move_rule:
  assumes "is_nothrow_move_constructible T" and "\<forall>x. \<not> move_ctor_throws T x"
  shows "relocate T src f n dst d \<noteq> Exception s"
  using assms uninitialized_move_n_no_Exception[of T] by (simp add: relocate_def)

lemma Emplace_strong:
  assumes "safe_relocation T" and "Emplace T v p a = Exception v'"
  shows "v' = v"
proof (cases "is_nothrow_move_constructible T")
  case True
  then have "\<forall>x. \<not> move_ctor_throws T x" using assms(1) by (simp add: safe_relocation_def)
  note nr = relocate_move_rule[OF True this]
  show ?thesis using assms(2) nr unfolding Emplace_def Let_def
    by (fastforce split: if_splits option.splits result.splits prod.splits)
next
  case False
  then have c: "is_copy_constructible T" using assms(1) by (simp add: safe_relocation_def)
  note cr = relocate_copy_rule[OF False c]
  show ?thesis using assms(2) unfolding Emplace_def Let_def
    by (auto split: if_splits option.splits result.splits prod.splits dest!: cr[OF disjI1] cr[OF disjI2])
qed

lemma copy_assign_strong:
  assumes "Capacity v < Size (deref r v)" and "copy_assign T v r = Exception v'"
  shows "v' = v"
  using assms unfolding copy_assign_def
  by (auto simp: Capacity_def Swap_eq split: result.splits if_splits)

section \<open>Copy assignment on well-formed vectors\<close>


lemma Vector_dtor_vec [simp]: "Vector_dtor (vec xs cap)"
  using destroy_n_eq[of "[]" xs "replicate (cap - length xs) None"]
  by (simp add: Vector_dtor_def)

lemma with_slots_vec_update:
  "i < length xs \<Longrightarrow> with_slots (vec xs cap) ((slots (vec xs cap))[i := Some y]) = vec (xs[i := y]) cap"
  by (simp add: vec_def with_slots_def slots_def list_update_append map_update)

lemma read_slot_vec: "read_slot (slots (vec xs cap)) i = (if i < length xs then Some (xs ! i) else None)"
  using subscript_vec[of xs cap i] by (simp add: subscript_def)

lemma assign_loop_This:
  "i + k \<le> length xs \<Longrightarrow>
   assign_loop T (vec xs cap) This i k =
     (if list_ex (copy_assign_throws T) (take k (drop i xs)) then Exception (vec xs cap)
      else Normal (vec xs cap) ())"
proof (induction k arbitrary: i)
  case 0
  then show ?case by simp
next
  case (Suc k)
  then have i: "i < length xs" and ik: "Suc i + k \<le> length xs" by simp_all
  have d: "drop i xs = xs ! i # drop (Suc i) xs"
    using i by (simp add: Cons_nth_drop_Suc)
  have w: "with_slots (vec xs cap) ((slots (vec xs cap))[i := Some (xs ! i)]) = vec xs cap"
    using with_slots_vec_update[OF i, of cap "xs ! i"] by simp
  show ?case
    using Suc.IH[OF ik] i
    by (simp add: read_slot_vec deref_def d w del: slots_vec)
qed


lemma assign_loop_Exception_vec:
  assumes "assign_loop T (vec xs cap) r i k = Exception v'"
  shows "\<exists>zs. v' = vec zs cap \<and> length zs = length xs"
  using assms
proof (induction k arbitrary: i xs)
  case 0
  then show ?case by simp
next
  case (Suc k)
  show ?case
  proof (cases "i < length xs")
    case False
    then show ?thesis using Suc.prems by (simp add: read_slot_vec del: slots_vec)
  next
    case True
    show ?thesis
    proof (cases "read_slot (slots (deref r (vec xs cap))) i")
      case None
      then show ?thesis using Suc.prems True by (simp add: read_slot_vec del: slots_vec)
    next
      case (Some y)
      show ?thesis
      proof (cases "copy_assign_throws T y")
        case thr: True
        then show ?thesis using Suc.prems True Some by (auto simp: read_slot_vec simp del: slots_vec)
      next
        case False
        have w: "with_slots (vec xs cap) ((slots (vec xs cap))[i := Some y]) = vec (xs[i := y]) cap"
          by (rule with_slots_vec_update[OF True])
        from Suc.prems True Some False
        have "assign_loop T (vec (xs[i := y]) cap) r (Suc i) k = Exception v'"
          by (simp add: read_slot_vec w del: slots_vec)
        from Suc.IH[OF this] show ?thesis by simp
      qed
    qed
  qed
qed









lemma copy_assign_vec_This:
  assumes "length xs \<le> cap"
  shows "copy_assign T (vec xs cap) This =
     (if list_ex (copy_assign_throws T) xs then Exception (vec xs cap) else Normal (vec xs cap) ())"
proof -
  let ?v = "vec xs cap"
  have loop: "assign_loop T ?v This 0 (length xs) =
     (if list_ex (copy_assign_throws T) xs then Exception ?v else Normal ?v ())"
    using assign_loop_This[of 0 "length xs" xs T cap] by simp
  have fin: "(with_slots ?v (slots ?v))\<lparr>size_m := size_m ?v\<rparr> = ?v"
    by (simp add: with_slots_def slots_def)
  show ?thesis
    using assms
    by (simp add: copy_assign_def deref_def loop fin Let_def del: slots_vec)
qed

section \<open>Reserve and Resize on well-formed vectors\<close>

lemma Reserve_vec:
  assumes "length xs \<le> cap" and ft: "cap < c \<longrightarrow> fits T c"
  shows "Reserve T (vec xs cap) c =
     (if c \<le> cap then Normal (vec xs cap) ()
      else if alloc_fails T c then Exception (vec xs cap)
      else if reloc_throws T xs then Exception (vec (reloc_partial T xs) cap)
      else Normal (vec xs c) ())"
proof (cases "c \<le> cap")
  case True
  then show ?thesis by (simp add: Reserve_def)
next
  case False
  let ?R = "replicate (cap - length xs) None"
  let ?E = "replicate (c - length xs) None"
  have c: "0 < c" "length xs \<le> c" using False assms by simp_all
  have rc: "RawMemory_ctor T c =
     (if alloc_fails T c then None else Some \<lparr>buffer_m = replicate c None, capacity_m = c\<rparr>)"
    by (rule RawMemory_ctor_eq[OF c(1)]) (use False ft in simp)
  have new: "replicate c None = replicate (length xs) (None :: 'a option) @ ?E"
    using c(2) by (simp flip: replicate_add)
  have rl: "relocate T (map Some xs @ ?R) 0 (length xs) (replicate c None) 0 =
     (if reloc_throws T xs
      then Exception (map Some (reloc_partial T xs) @ ?R, replicate c None)
      else Normal (map Some (relocated T xs) @ ?R, map Some xs @ ?E) ())"
    unfolding new using relocate_eq[of T "[]" xs ?R "[]" ?E] by simp
  have d: "destroy_n (map Some (relocated T xs) @ ?R) 0 (length xs) = Some (replicate (length xs) None @ ?R)"
    using destroy_n_eq[of "[]" "relocated T xs" ?R] by simp
  show ?thesis
    using False
    by (simp add: Reserve_def rc rl d)
       (simp add: vec_def with_slots_def RawMemory_Swap_def)
qed

lemma Resize_vec_shrink:
  assumes "length xs \<le> cap" and "n < length xs"
  shows "Resize T (vec xs cap) n = Normal (vec (take n xs) cap) ()"
proof -
  let ?R = "replicate (cap - length xs) None"
  have sl: "map Some xs @ ?R = map Some (take n xs) @ map Some (drop n xs) @ ?R"
    by (simp flip: map_append)
  have d: "destroy_n (map Some xs @ ?R) n (length xs - n) =
        Some (map Some (take n xs) @ replicate (length xs - n) None @ ?R)"
    unfolding sl using destroy_n_eq[of "map Some (take n xs)" "drop n xs" ?R] assms
    by (simp add: min_absorb2)
  show ?thesis
    using assms
    by (simp add: Resize_def d)
       (simp add: vec_def with_slots_def min_absorb2 flip: replicate_add)
qed

lemma Resize_vec_grow:
  assumes "length xs \<le> cap" and "length xs < n" and ft: "cap < n \<longrightarrow> fits T n"
  shows "Resize T (vec xs cap) n =
     (if cap < n \<and> alloc_fails T n then Exception (vec xs cap)
      else if cap < n \<and> reloc_throws T xs then Exception (vec (reloc_partial T xs) cap)
      else (case value_init T of
              None \<Rightarrow> Exception (vec xs (max cap n))
            | Some d \<Rightarrow> Normal (vec (xs @ replicate (n - length xs) d) (max cap n)) ()))"
proof -
  let ?c = "max cap n"
  let ?E = "replicate (?c - n) None"
  have rs: "Reserve T (vec xs cap) n =
     (if cap < n \<and> alloc_fails T n then Exception (vec xs cap)
      else if cap < n \<and> reloc_throws T xs then Exception (vec (reloc_partial T xs) cap)
      else Normal (vec xs ?c) ())"
    using Reserve_vec[OF assms(1) ft] by (auto simp: max_def)
  have sl: "slots (vec xs ?c) = map Some xs @ replicate (n - length xs) None @ ?E"
    using assms by (simp flip: replicate_add)
  have vc: "uninitialized_value_construct_n T (slots (vec xs ?c)) (Size (vec xs ?c)) (n - Size (vec xs ?c)) =
     (case value_init T of
        None \<Rightarrow> Exception (slots (vec xs ?c))
      | Some d \<Rightarrow> Normal (map Some xs @ replicate (n - length xs) (Some d) @ ?E) ())"
    unfolding sl using uninitialized_value_construct_n_eq[of T "map Some xs" "n - length xs" ?E] assms
    by (simp split: option.splits)
  have fin: "(with_slots (vec xs ?c) (map Some xs @ replicate (n - length xs) (Some d) @ ?E))\<lparr>size_m := n\<rparr> =
       vec (xs @ replicate (n - length xs) d) ?c" for d
    using assms by (simp add: vec_def with_slots_def)
  have ne: "n \<noteq> Size (vec xs cap)" "\<not> n < Size (vec xs cap)" using assms by simp_all
  show ?thesis
    unfolding Resize_def
    by (simp only: ne if_False rs vc fin result.case with_slots_same split: if_split option.split)
       auto
qed

lemma Resize_vec_same: "Resize T (vec xs cap) (length xs) = Normal (vec xs cap) ()"
  by (simp add: Resize_def)

lemma Resize_vec_Normal:
  assumes le: "length xs \<le> cap" and res: "Resize T (vec xs cap) n = Normal v' u"
    and ft: "cap < n \<longrightarrow> fits T n"
  shows "(n \<le> length xs \<and> v' = vec (take n xs) cap) \<or>
         (length xs < n \<and> (\<exists>d. value_init T = Some d \<and> v' = vec (xs @ replicate (n - length xs) d) (max cap n)) \<and>
            Reserve T (vec xs cap) n = Normal (vec xs (max cap n)) ())"
proof -
  consider "n < length xs" | "n = length xs" | "length xs < n" by linarith
  then show ?thesis
  proof cases
    case 1
    then show ?thesis using res Resize_vec_shrink[OF le 1, of T] by simp
  next
    case 2
    then show ?thesis using res Resize_vec_same[of T xs cap] by simp
  next
    case 3
    have "Reserve T (vec xs cap) n = Normal (vec xs (max cap n)) ()"
      using res Resize_vec_grow[OF le 3 ft] Reserve_vec[OF le ft]
      by (auto simp: max_def split: if_splits)
    then show ?thesis using res Resize_vec_grow[OF le 3 ft] 3
      by (auto split: if_splits option.splits)
  qed
qed

lemma Resize_vec_total:
  assumes le: "length xs \<le> cap" and nt: "nothrow T" and al: "cap < n \<longrightarrow> \<not> alloc_fails T n"
    and ft: "cap < n \<longrightarrow> fits T n"
  shows "\<exists>v'. Resize T (vec xs cap) n = Normal v' ()"
proof -
  consider "n < length xs" | "n = length xs" | "length xs < n" by linarith
  then show ?thesis
  proof cases
    case 1
    then show ?thesis using Resize_vec_shrink[OF le 1, of T] by simp
  next
    case 2
    then show ?thesis using Resize_vec_same[of T xs cap] by simp
  next
    case 3
    from nt obtain d where "value_init T = Some d" by (auto simp: nothrow_def)
    then show ?thesis using Resize_vec_grow[OF le 3 ft] nt al by simp
  qed
qed

section \<open>Emplace at the end and EmplaceBack\<close>

lemma relocate_none [simp]: "relocate T src f 0 dst d = Normal (src, dst) ()"
  by (simp add: relocate_def)

lemma Emplace_end_grow:
  assumes c: "\<not> RawMemory_Capacity (data_m v) > Size v" and small: "Size v \<le> INT_MAX"
  shows "Emplace T v (Size v) a = EmplaceBack T v a"
proof -
  let ?n = "if Size v = 0 then 1 else Size v * 2"
  have ti: "to_int (Size v) = int (Size v)" by (rule to_int_small[OF small])
  show ?thesis
  proof (cases "RawMemory_ctor T ?n")
    case None
    then show ?thesis using c by (simp add: Emplace_def EmplaceBack_def Let_def)
  next
    case (Some nd)
    show ?thesis
    proof (cases "construct_at (buffer_m nd) (Size v) a")
      case (Normal new1 u1)
      show ?thesis
      proof (cases "relocate T (slots v) 0 (Size v) new1 0")
        case n2: (Normal pr u2)
        obtain old new where pr: "pr = (old, new)" by (cases pr)
        show ?thesis
          using c Some Normal n2 pr
          by (cases "destroy_n old 0 (Size v)")
             (simp_all add: Emplace_def EmplaceBack_def Let_def ti, simp add: Size_def)
      next
        case (Exception pr)
        obtain old new where pr: "pr = (old, new)" by (cases pr)
        show ?thesis using c Some Normal Exception pr
          by (simp add: Emplace_def EmplaceBack_def Let_def ti)
      next
        case Undefined
        then show ?thesis using c Some Normal
          by (simp add: Emplace_def EmplaceBack_def Let_def ti)
      qed
    next
      case (Exception new0)
      then show ?thesis using c Some by (simp add: Emplace_def EmplaceBack_def Let_def ti)
    next
      case Undefined
      then show ?thesis using c Some by (simp add: Emplace_def EmplaceBack_def Let_def ti)
    qed
  qed
qed

lemma Emplace_end_vec:
  assumes le: "length xs \<le> cap" and small: "length xs \<le> INT_MAX"
    and ok: "length xs < cap \<longrightarrow> a \<noteq> None"
  shows "Emplace T (vec xs cap) (length xs) a = EmplaceBack T (vec xs cap) a"
proof (cases "length xs < cap")
  case True
  with ok obtain x where a: "a = Some x" by auto
  show ?thesis
    using Emplace_vec_room_end[OF True small, of T a] EmplaceBack_vec_room[OF True, of T a] a by simp
next
  case False
  then have "\<not> RawMemory_Capacity (data_m (vec xs cap)) > Size (vec xs cap)" by simp
  from Emplace_end_grow[OF this, of T a] small show ?thesis by simp
qed

lemma PushBack_is_EmplaceBack: "PushBack T v a = outcome (EmplaceBack T v a)"
proof (cases "RawMemory_Capacity (data_m v) > Size v")
  case True
  then show ?thesis
    by (cases "construct_at (slots v) (Size v) a") (simp_all add: PushBack_def EmplaceBack_def outcome_def)
next
  case False
  let ?n = "if Size v = 0 then 1 else Size v * 2"
  show ?thesis
  proof (cases "RawMemory_ctor T ?n")
    case None
    then show ?thesis using False by (simp add: PushBack_def EmplaceBack_def outcome_def)
  next
    case (Some nd)
    show ?thesis
    proof (cases "construct_at (buffer_m nd) (Size v) a")
      case (Normal new1 u1)
      show ?thesis
      proof (cases "relocate T (slots v) 0 (Size v) new1 0")
        case n2: (Normal pr u2)
        obtain old new where pr: "pr = (old, new)" by (cases pr)
        show ?thesis
          using False Some Normal n2 pr
          by (cases "destroy_n old 0 (Size v)") (simp_all add: PushBack_def EmplaceBack_def outcome_def)
      next
        case (Exception pr)
        obtain old new where pr: "pr = (old, new)" by (cases pr)
        show ?thesis using False Some Normal Exception pr
          by (simp add: PushBack_def EmplaceBack_def outcome_def)
      next
        case Undefined
        then show ?thesis using False Some Normal
          by (simp add: PushBack_def EmplaceBack_def outcome_def)
      qed
    next
      case (Exception new0)
      then show ?thesis using False Some by (simp add: PushBack_def EmplaceBack_def outcome_def)
    next
      case Undefined
      then show ?thesis using False Some by (simp add: PushBack_def EmplaceBack_def outcome_def)
    qed
  qed
qed

lemma Emplace_at_end_is_EmplaceBack:
  assumes "wf v" and "Size v \<le> INT_MAX" and "Size v < Capacity v \<longrightarrow> a \<noteq> None"
  shows "Emplace T v (Size v) a = EmplaceBack T v a"
    and "outcome (Insert T v (Size v) a) = PushBack T v a"
proof -
  from assms(1) obtain xs cap where v: "v = vec xs cap" and le: "length xs \<le> cap"
    by (rule wf_obtain_vec)
  show 1: "Emplace T v (Size v) a = EmplaceBack T v a"
    using Emplace_end_vec[OF le, of a T] assms(2,3) unfolding v by simp
  show "outcome (Insert T v (Size v) a) = PushBack T v a"
    unfolding Insert_def 1 by (rule PushBack_is_EmplaceBack[symmetric])
qed

lemma PopBack_vec:
  assumes "Suc (length xs) \<le> cap"
  shows "PopBack (vec (xs @ [x]) cap) = Normal (vec xs cap) ()"
proof -
  let ?R = "replicate (cap - Suc (length xs)) None"
  have d: "destroy_n (map Some xs @ Some x # ?R) (length xs) 1 = Some (map Some xs @ None # ?R)"
    using destroy_n_eq[of "map Some xs" "[x]" ?R] by simp
  have fin: "(with_slots (vec (xs @ [x]) cap) (map Some xs @ None # ?R))\<lparr>size_m := length xs\<rparr> = vec xs cap"
    using assms by (simp add: vec_def with_slots_def Suc_diff_le flip: replicate_Suc)
  have sz: "size_m (vec (xs @ [x]) cap) - 1 = length xs" by (simp add: vec_def)
  show ?thesis using d fin sz by (simp add: PopBack_def)
qed

lemma Erase_position_cong: "to_int p = to_int q \<Longrightarrow> Erase T v p = Erase T v q"
  by (simp add: Erase_def)

section \<open>Insertion, removal and resizing within the range of the integer types\<close>

text \<open>
  \<open>Emplace\<close> and \<open>Insert\<close> at a position that an \<^verbatim>\<open>int\<close> can hold, \<open>p \<le> INT_MAX\<close>, when
  the byte count of a block that has to be allocated is a \<^verbatim>\<open>size_t\<close>: whenever the call
  returns, the size has grown by 1, the new element is at index \<open>p\<close>, the elements
  formerly at \<open>[p, old size)\<close> are one slot up in their order, the elements \<open>[0, p)\<close>
  are unchanged and the iterator returned addresses the new element. The call does
  return when no operation of \<^verbatim>\<open>T\<close> throws and the allocation (needed only when
  \<open>Size() = Capacity()\<close>) succeeds.
\<close>

lemma Emplace_inserts_at_position:
  assumes "wf v" and "p \<le> Size v" and "p \<le> INT_MAX"
    and ft: "Size v = Capacity v \<longrightarrow> fits T (grown (Capacity v))"
  shows "(\<forall>v' it. Emplace T v p (Some x) = Normal v' it \<longrightarrow>
            wf v' \<and> Size v' = Size v + 1 \<and>
            elems v' = take p (elems v) @ x # drop p (elems v) \<and>
            it = p \<and> subscript v' it = Some x \<and>
            (\<forall>i<p. subscript v' i = subscript v i) \<and>
            (\<forall>i. p \<le> i \<and> i < Size v \<longrightarrow> subscript v' (Suc i) = subscript v i))
       \<and> (nothrow T \<and> (Size v = Capacity v \<longrightarrow> \<not> alloc_fails T (grown (Capacity v))) \<longrightarrow>
            (\<exists>v'. Emplace T v p (Some x) = Normal v' p))
       \<and> Insert T v p (Some x) = Emplace T v p (Some x)"
proof -
  from assms(1) obtain xs cap where v: "v = vec xs cap" and le: "length xs \<le> cap"
    by (rule wf_obtain_vec)
  have p: "p \<le> length xs" using assms(2) v by simp
  have ft': "length xs = cap \<longrightarrow> fits T (grown cap)" using ft v by simp
  let ?ys = "take p xs @ x # drop p xs"
  let ?cap' = "if length xs < cap then cap else grown cap"
  have cap': "Suc (length xs) \<le> ?cap'" using le grown_gt[of cap] by auto
  note post = insert_post[OF p cap']
  have 1: "v' = vec ?ys ?cap' \<and> it = p" if "Emplace T (vec xs cap) p (Some x) = Normal v' it" for v' it
    using Emplace_vec_Normal[OF le p assms(3) ft' that] .
  have 2: "Emplace T (vec xs cap) p (Some x) = Normal (vec ?ys ?cap') p"
    if "nothrow T" "length xs = cap \<longrightarrow> \<not> alloc_fails T (grown cap)"
    using Emplace_vec_total[OF le p assms(3) that ft'] .
  show ?thesis
    unfolding v Insert_def
  proof (intro conjI allI impI)
    fix v' it assume r: "Emplace T (vec xs cap) p (Some x) = Normal v' it"
    note e = 1[OF r]
    show "wf v'" using e post(1) by simp
    show "Size v' = Size (vec xs cap) + 1" using e post(2) by simp
    show "elems v' = take p (elems (vec xs cap)) @ x # drop p (elems (vec xs cap))" using e by simp
    show "it = p" using e by simp
    show "subscript v' it = Some x" using e post(3) by simp
    show "\<And>i. i < p \<Longrightarrow> subscript v' i = subscript (vec xs cap) i" using e post(4) by simp
    show "\<And>i. p \<le> i \<and> i < Size (vec xs cap) \<Longrightarrow> subscript v' (Suc i) = subscript (vec xs cap) i"
      using e post(5) by simp
  next
    assume "nothrow T \<and> (Size (vec xs cap) = Capacity (vec xs cap) \<longrightarrow> \<not> alloc_fails T (grown (Capacity (vec xs cap))))"
    then have "nothrow T" "length xs = cap \<longrightarrow> \<not> alloc_fails T (grown cap)" by simp_all
    from 2[OF this] show "\<exists>v'. Emplace T (vec xs cap) p (Some x) = Normal v' p" by blast
  next
    show "Emplace T (vec xs cap) p (Some x) = Emplace T (vec xs cap) p (Some x)" by simp
  qed
qed

text \<open>Inserting 99 at index 1 of \<open>[0, 1, 2, 3, 4]\<close> yields \<open>[0, 99, 1, 2, 3, 4]\<close>.\<close>

lemma Emplace_inserts_at_position_example:
  "wf (vec [0, 1, 2, 3, 4 :: int] 5) \<and> (1::nat) \<le> Size (vec [0, 1, 2, 3, 4 :: int] 5) \<and> (1::nat) \<le> INT_MAX \<and>
   (\<exists>v'. Insert int_traits (vec [0, 1, 2, 3, 4] 5) 1 (Some 99) = Normal v' 1 \<and>
         elems v' = [0, 99, 1, 2, 3, 4] \<and> Size v' = 6)"
proof -
  have h: "wf (vec [0, 1, 2, 3, 4 :: int] 5)" "(1::nat) \<le> Size (vec [0, 1, 2, 3, 4 :: int] 5)" "(1::nat) \<le> INT_MAX"
    "Size (vec [0, 1, 2, 3, 4 :: int] 5) = Capacity (vec [0, 1, 2, 3, 4 :: int] 5) \<longrightarrow>
       fits int_traits (grown (Capacity (vec [0, 1, 2, 3, 4 :: int] 5)))"
    by (simp_all add: INT_MAX_def fits_def grown_def int_traits_def SIZE_MAX_def)
  note t = Emplace_inserts_at_position[OF h, of 99]
  have al: "nothrow int_traits \<and> (Size (vec [0, 1, 2, 3, 4 :: int] 5) = Capacity (vec [0, 1, 2, 3, 4 :: int] 5) \<longrightarrow>
      \<not> alloc_fails int_traits (grown (Capacity (vec [0, 1, 2, 3, 4 :: int] 5))))"
    by (simp add: int_traits_def nothrow_def)
  from t al obtain v' where r: "Emplace int_traits (vec [0, 1, 2, 3, 4] 5) 1 (Some 99) = Normal v' 1"
    by blast
  with t have "elems v' = take 1 (elems (vec [0, 1, 2, 3, 4 :: int] 5)) @ 99 # drop 1 (elems (vec [0, 1, 2, 3, 4 :: int] 5))"
    and "Size v' = Size (vec [0, 1, 2, 3, 4 :: int] 5) + 1"
    by blast+
  then have "elems v' = [0, 99, 1, 2, 3, 4]" "Size v' = 6" by simp_all
  with r t h(1-3) show ?thesis by (simp add: Insert_def)
qed

text \<open>
  \<open>Erase\<close> at a position \<open>p \<le> INT_MAX\<close>: the element at \<open>p\<close> is removed, the elements
  formerly at \<open>[p + 1, size)\<close> are one slot down, the size is 1 less and the iterator
  returned is \<open>p\<close>, the index of the element that followed the erased one (\<open>Size()\<close>,
  that is \<open>end()\<close>, when the last element was erased). \<open>Erase\<close> at \<open>p\<close> right after
  \<open>Insert\<close> at \<open>p\<close> restores the contents and the size.
\<close>

lemma Erase_removes_at_position:
  assumes "wf v" and "p \<le> Size v" and "p \<le> INT_MAX"
    and ft: "Size v = Capacity v \<longrightarrow> fits T (grown (Capacity v))"
  shows "(p < Size v \<longrightarrow>
           (\<forall>v' it. Erase T v p = Normal v' it \<longrightarrow>
              wf v' \<and> Size v' = Size v - 1 \<and> Capacity v' = Capacity v \<and>
              elems v' = take p (elems v) @ drop (Suc p) (elems v) \<and> it = p \<and>
              (\<forall>i<p. subscript v' i = subscript v i) \<and>
              (\<forall>i. p \<le> i \<and> i < Size v' \<longrightarrow> subscript v' i = subscript v (Suc i))) \<and>
           (nothrow T \<longrightarrow> (\<exists>v'. Erase T v p = Normal v' p)))
       \<and> (\<forall>v1 it1 v2 it2. Insert T v p (Some x) = Normal v1 it1 \<and> Erase T v1 it1 = Normal v2 it2 \<longrightarrow>
              elems v2 = elems v \<and> Size v2 = Size v \<and> it2 = p)
       \<and> (nothrow T \<and> (Size v = Capacity v \<longrightarrow> \<not> alloc_fails T (grown (Capacity v))) \<longrightarrow>
              (\<exists>v1 v2. Insert T v p (Some x) = Normal v1 p \<and> Erase T v1 p = Normal v2 p \<and>
                       elems v2 = elems v \<and> Size v2 = Size v))"
proof -
  from assms(1) obtain xs cap where v: "v = vec xs cap" and le: "length xs \<le> cap"
    by (rule wf_obtain_vec)
  have p: "p \<le> length xs" using assms(2) v by simp
  have ft': "length xs = cap \<longrightarrow> fits T (grown cap)" using ft v by simp
  let ?ys = "take p xs @ x # drop p xs"
  let ?cap' = "if length xs < cap then cap else grown cap"
  have cap': "Suc (length xs) \<le> ?cap'" using le grown_gt[of cap] by auto
  have lys: "length ?ys \<le> ?cap'" "p < length ?ys" using cap' p by simp_all
  have ins: "v1 = vec ?ys ?cap' \<and> it1 = p" if "Emplace T (vec xs cap) p (Some x) = Normal v1 it1" for v1 it1
    using Emplace_vec_Normal[OF le p assms(3) ft' that] .
  have ers: "Erase T (vec ?ys ?cap') p = Normal v2 it2 \<longleftrightarrow>
       \<not> list_ex (move_assign_throws T) (drop (Suc p) ?ys) \<and> v2 = vec xs ?cap' \<and> it2 = p" for v2 it2
    using Erase_vec_Normal_iff[OF lys assms(3), of T v2 it2] erase_insert_id[OF p, of x] by simp
  have A: "p < Size v \<longrightarrow>
           (\<forall>v' it. Erase T v p = Normal v' it \<longrightarrow>
              wf v' \<and> Size v' = Size v - 1 \<and> Capacity v' = Capacity v \<and>
              elems v' = take p (elems v) @ drop (Suc p) (elems v) \<and> it = p \<and>
              (\<forall>i<p. subscript v' i = subscript v i) \<and>
              (\<forall>i. p \<le> i \<and> i < Size v' \<longrightarrow> subscript v' i = subscript v (Suc i))) \<and>
           (nothrow T \<longrightarrow> (\<exists>v'. Erase T v p = Normal v' p))"
  proof (intro impI)
    assume "p < Size v"
    then have pl: "p < length xs" using v by simp
    note iff = Erase_vec_Normal_iff[OF le pl assms(3), of T]
    note post = erase_post[OF pl le]
    show "(\<forall>v' it. Erase T v p = Normal v' it \<longrightarrow>
              wf v' \<and> Size v' = Size v - 1 \<and> Capacity v' = Capacity v \<and>
              elems v' = take p (elems v) @ drop (Suc p) (elems v) \<and> it = p \<and>
              (\<forall>i<p. subscript v' i = subscript v i) \<and>
              (\<forall>i. p \<le> i \<and> i < Size v' \<longrightarrow> subscript v' i = subscript v (Suc i))) \<and>
           (nothrow T \<longrightarrow> (\<exists>v'. Erase T v p = Normal v' p))"
      unfolding v
    proof (intro conjI allI impI)
      fix v' it assume "Erase T (vec xs cap) p = Normal v' it"
      then have e: "v' = vec (take p xs @ drop (Suc p) xs) cap" "it = p" using iff by simp_all
      show "wf v'" using e post(1) by simp
      show "Size v' = Size (vec xs cap) - 1" using e post(2) by simp
      show "Capacity v' = Capacity (vec xs cap)" using e by simp
      show "elems v' = take p (elems (vec xs cap)) @ drop (Suc p) (elems (vec xs cap))" using e by simp
      show "it = p" by fact
      show "\<And>i. i < p \<Longrightarrow> subscript v' i = subscript (vec xs cap) i" using e post(3) by simp
      show "\<And>i. p \<le> i \<and> i < Size v' \<Longrightarrow> subscript v' i = subscript (vec xs cap) (Suc i)"
        using post(4) post(2) unfolding e by simp
    next
      assume "nothrow T"
      then show "\<exists>v'. Erase T (vec xs cap) p = Normal v' p" using iff by simp
    qed
  qed
  have B: "\<forall>v1 it1 v2 it2. Insert T v p (Some x) = Normal v1 it1 \<and> Erase T v1 it1 = Normal v2 it2 \<longrightarrow>
              elems v2 = elems v \<and> Size v2 = Size v \<and> it2 = p"
    unfolding v Insert_def using ins ers by (metis Size_vec elems_vec)
  have C: "nothrow T \<and> (Size v = Capacity v \<longrightarrow> \<not> alloc_fails T (grown (Capacity v))) \<longrightarrow>
              (\<exists>v1 v2. Insert T v p (Some x) = Normal v1 p \<and> Erase T v1 p = Normal v2 p \<and>
                       elems v2 = elems v \<and> Size v2 = Size v)"
  proof
    assume a: "nothrow T \<and> (Size v = Capacity v \<longrightarrow> \<not> alloc_fails T (grown (Capacity v)))"
    then have "nothrow T" "length xs = cap \<longrightarrow> \<not> alloc_fails T (grown cap)" using v by simp_all
    from Emplace_vec_total[OF le p assms(3) this ft']
    have i: "Insert T v p (Some x) = Normal (vec ?ys ?cap') p" unfolding v Insert_def .
    have e: "Erase T (vec ?ys ?cap') p = Normal (vec xs ?cap') p" using ers a by simp
    show "\<exists>v1 v2. Insert T v p (Some x) = Normal v1 p \<and> Erase T v1 p = Normal v2 p \<and>
                       elems v2 = elems v \<and> Size v2 = Size v"
      using i e v by (intro exI[of _ "vec ?ys ?cap'"] exI[of _ "vec xs ?cap'"]) simp
  qed
  show ?thesis using A B C by blast
qed

text \<open>Erasing at index 1 of \<open>[0, 99, 1, 2, 3, 4]\<close> yields \<open>[0, 1, 2, 3, 4]\<close>.\<close>

lemma Erase_removes_at_position_example:
  "wf (vec [0, 99, 1, 2, 3, 4 :: int] 8) \<and> (1::nat) \<le> Size (vec [0, 99, 1, 2, 3, 4 :: int] 8) \<and>
   (1::nat) \<le> INT_MAX \<and> (1::nat) < Size (vec [0, 99, 1, 2, 3, 4 :: int] 8) \<and> nothrow int_traits \<and>
   (\<exists>v'. Erase int_traits (vec [0, 99, 1, 2, 3, 4] 8) 1 = Normal v' 1 \<and>
         elems v' = [0, 1, 2, 3, 4] \<and> Size v' = 5)"
proof -
  have h: "wf (vec [0, 99, 1, 2, 3, 4 :: int] 8)" "(1::nat) \<le> Size (vec [0, 99, 1, 2, 3, 4 :: int] 8)"
    "(1::nat) \<le> INT_MAX"
    "Size (vec [0, 99, 1, 2, 3, 4 :: int] 8) = Capacity (vec [0, 99, 1, 2, 3, 4 :: int] 8) \<longrightarrow>
       fits int_traits (grown (Capacity (vec [0, 99, 1, 2, 3, 4 :: int] 8)))"
    by (simp_all add: INT_MAX_def)
  have lt: "(1::nat) < Size (vec [0, 99, 1, 2, 3, 4 :: int] 8)" by simp
  note t = Erase_removes_at_position[OF h, of 0]
  from t lt obtain v' where r: "Erase int_traits (vec [0, 99, 1, 2, 3, 4] 8) 1 = Normal v' 1"
    using nothrow_int_traits(1) by blast
  with t lt have "elems v' = take 1 (elems (vec [0, 99, 1, 2, 3, 4 :: int] 8)) @ drop (Suc 1) (elems (vec [0, 99, 1, 2, 3, 4 :: int] 8))"
    and "Size v' = Size (vec [0, 99, 1, 2, 3, 4 :: int] 8) - 1"
    by blast+
  then have "elems v' = [0, 1, 2, 3, 4]" "Size v' = 5" by simp_all
  with r h(1-3) lt show ?thesis by simp
qed

text \<open>
  \<open>Resize(n)\<close> when the byte count of \<open>n\<close> elements is a \<^verbatim>\<open>size_t\<close> (needed only for
  \<open>n > Capacity()\<close>): whenever the call returns, \<open>Size() = n\<close>. If \<open>n\<close> is at most the
  old size, the elements \<open>[0, n)\<close> are unchanged, the slots from \<open>n\<close> on are raw memory
  and the capacity is unchanged. If \<open>n\<close> is greater than the old size, \<open>Reserve(n)\<close> has
  returned, the elements \<open>[0, old size)\<close> are unchanged and the elements
  \<open>[old size, n)\<close> are equal to \<^verbatim>\<open>T()\<close>. The call does return when no operation of
  \<^verbatim>\<open>T\<close> throws and the allocation succeeds.
\<close>

lemma Resize_sets_size:
  assumes "wf v" and ft: "Capacity v < n \<longrightarrow> fits T n"
  shows "(\<forall>v' u. Resize T v n = Normal v' u \<longrightarrow>
            wf v' \<and> Size v' = n \<and>
            (\<forall>i. i < n \<and> i < Size v \<longrightarrow> subscript v' i = subscript v i) \<and>
            (n \<le> Size v \<longrightarrow> elems v' = take n (elems v) \<and> Capacity v' = Capacity v) \<and>
            (Size v < n \<longrightarrow>
               (\<exists>d. value_init T = Some d \<and> elems v' = elems v @ replicate (n - Size v) d \<and>
                    (\<forall>i. Size v \<le> i \<and> i < n \<longrightarrow> subscript v' i = Some d)) \<and>
               (\<exists>v1. Reserve T v n = Normal v1 () \<and> elems v1 = elems v \<and> Capacity v' = Capacity v1) \<and>
               Capacity v' = max (Capacity v) n))
       \<and> (nothrow T \<and> (Capacity v < n \<longrightarrow> \<not> alloc_fails T n) \<longrightarrow>
            (\<exists>v'. Resize T v n = Normal v' ()))"
proof -
  from assms(1) obtain xs cap where v: "v = vec xs cap" and le: "length xs \<le> cap"
    by (rule wf_obtain_vec)
  have ft': "cap < n \<longrightarrow> fits T n" using ft v by simp
  show ?thesis
    unfolding v
  proof (intro conjI allI impI)
    fix v' u assume r: "Resize T (vec xs cap) n = Normal v' u"
    note c = Resize_vec_Normal[OF le r ft']
    show "wf v'" using c le by auto
    show "Size v' = n" using c by auto
    show "\<And>i. i < n \<and> i < Size (vec xs cap) \<Longrightarrow> subscript v' i = subscript (vec xs cap) i"
      using c by (auto simp: subscript_vec nth_append)
    show "elems v' = take n (elems (vec xs cap))" if "n \<le> Size (vec xs cap)"
      using c that by auto
    show "Capacity v' = Capacity (vec xs cap)" if "n \<le> Size (vec xs cap)"
      using c that by auto
    show "\<exists>d. value_init T = Some d \<and>
            elems v' = elems (vec xs cap) @ replicate (n - Size (vec xs cap)) d \<and>
            (\<forall>i. Size (vec xs cap) \<le> i \<and> i < n \<longrightarrow> subscript v' i = Some d)"
      if "Size (vec xs cap) < n"
      using c that by (auto simp: subscript_vec nth_append)
    show "\<exists>v1. Reserve T (vec xs cap) n = Normal v1 () \<and> elems v1 = elems (vec xs cap) \<and> Capacity v' = Capacity v1"
      if "Size (vec xs cap) < n"
      using c that by auto
    show "Capacity v' = max (Capacity (vec xs cap)) n" if "Size (vec xs cap) < n"
      using c that by auto
  next
    assume "nothrow T \<and> (Capacity (vec xs cap) < n \<longrightarrow> \<not> alloc_fails T n)"
    then show "\<exists>v'. Resize T (vec xs cap) n = Normal v' ()"
      using Resize_vec_total[OF le _ _ ft'] by simp
  qed
qed

text \<open>Resizing \<open>[1, 2, 3]\<close> (capacity 4) to 6 and to 1.\<close>

lemma Resize_sets_size_example:
  "wf (vec [1, 2, 3 :: int] 4) \<and> nothrow int_traits \<and> never_bad_alloc int_traits \<and>
   Resize int_traits (vec [1, 2, 3] 4) 6 = Normal (vec [1, 2, 3, 0, 0, 0] 6) () \<and>
   Resize int_traits (vec [1, 2, 3] 4) 1 = Normal (vec [1] 4) () \<and>
   Size (vec [1, 2, 3, 0, 0, 0 :: int] 6) = 6 \<and> Size (vec [1 :: int] 4) = 1 \<and>
   elems (vec [1 :: int] 4) = take 1 (elems (vec [1, 2, 3 :: int] 4)) \<and>
   Capacity (vec [1 :: int] 4) = Capacity (vec [1, 2, 3 :: int] 4) \<and>
   Capacity (vec [1, 2, 3, 0, 0, 0 :: int] 6) = max (Capacity (vec [1, 2, 3 :: int] 4)) 6"
proof -
  have w: "wf (vec [1, 2, 3 :: int] 4)" by simp
  have e1: "Resize int_traits (vec [1, 2, 3] 4) 6 = Normal (vec [1, 2, 3, 0, 0, 0] 6) ()" by code_simp
  have e2: "Resize int_traits (vec [1, 2, 3] 4) 1 = Normal (vec [1] 4) ()" by code_simp
  have f: "Capacity (vec [1, 2, 3 :: int] 4) < 6 \<longrightarrow> fits int_traits 6"
    "Capacity (vec [1, 2, 3 :: int] 4) < 1 \<longrightarrow> fits int_traits 1"
    by (simp_all add: fits_def int_traits_def SIZE_MAX_def)
  note t1 = Resize_sets_size[OF w f(1)]
  note t2 = Resize_sets_size[OF w f(2)]
  have c1: "Size (vec [1, 2, 3, 0, 0, 0 :: int] 6) = 6 \<and>
      Capacity (vec [1, 2, 3, 0, 0, 0 :: int] 6) = max (Capacity (vec [1, 2, 3 :: int] 4)) 6"
    using t1 e1 by simp
  have c2: "Size (vec [1 :: int] 4) = 1 \<and> elems (vec [1 :: int] 4) = take 1 (elems (vec [1, 2, 3 :: int] 4)) \<and>
      Capacity (vec [1 :: int] 4) = Capacity (vec [1, 2, 3 :: int] 4)"
    using t2 e2 by simp
  show ?thesis using w e1 e2 c1 c2 by simp
qed

section \<open>The claims\<close>

text \<open>
  C4 (code bug). Claim: for every vector \<open>v\<close> and every position index \<open>p\<close> in
  \<open>[0, v.Size()]\<close>, \<open>Insert(begin() + p, x)\<close> and \<open>Emplace(begin() + p, ...)\<close> increase
  \<open>Size()\<close> by exactly 1, place the new element at index \<open>p\<close>, shift the elements
  formerly at \<open>[p, old size)\<close> up by one slot in their order, leave the elements
  \<open>[0, p)\<close> unchanged and return an iterator addressing the inserted element.

  \<open>Emplace\<close> narrows the position to an \<^verbatim>\<open>int\<close> (\<^verbatim>\<open>int pos = position - begin();\<close>) and
  indexes with it, where \<open>EmplaceBack\<close> and \<open>PushBack\<close> index with the \<^verbatim>\<open>size_t\<close> member
  \<^verbatim>\<open>size_\<close>. For \<open>p \<le> INT_MAX\<close> the code does what the claim says (lemma
  \<open>Emplace_inserts_at_position\<close>). With \<open>2 ^ 31\<close> elements in a full block, inserting
  at \<open>end()\<close> makes \<open>pos\<close> the negative number \<open>- 2 ^ 31\<close>, and the new element is
  built at \<^verbatim>\<open>new_data.GetAddress() + pos\<close>, before the new block; \<open>EmplaceBack\<close> and
  \<open>PushBack\<close> of the same element on the same vector append it, at index \<open>2 ^ 31\<close> of
  a block of \<open>2 ^ 32\<close> slots.
\<close>

theorem Emplace_position_beyond_int:
  "wf (vec (replicate 2147483648 (0::int)) 2147483648) \<and>
   2147483648 \<le> Size (vec (replicate 2147483648 (0::int)) 2147483648) \<and>
   Emplace int_traits (vec (replicate 2147483648 0) 2147483648) 2147483648 (Some 99) = Undefined \<and>
   Insert int_traits (vec (replicate 2147483648 0) 2147483648) 2147483648 (Some 99) = Undefined \<and>
   EmplaceBack int_traits (vec (replicate 2147483648 0) 2147483648) (Some 99) =
     Normal (vec (replicate 2147483648 0 @ [99]) 4294967296) 2147483648 \<and>
   PushBack int_traits (vec (replicate 2147483648 0) 2147483648) (Some 99) =
     Normal (vec (replicate 2147483648 0 @ [99]) 4294967296) ()"
proof -
  let ?xs = "replicate 2147483648 (0::int)"
  have ti: "to_int 2147483648 = - 2147483648"
    by (simp add: to_int_def)
  have e: "Emplace int_traits (vec ?xs 2147483648) 2147483648 (Some 99) = Undefined"
    unfolding Emplace_def Let_def ti
    by (simp add: RawMemory_ctor_def Allocate_def int_traits_def)
  have l: "length ?xs = 2147483648" by simp
  have g: "grown (length ?xs) = 4294967296" by (simp add: grown_def)
  have ft: "fits int_traits (grown (length ?xs))"
    unfolding g by (simp add: fits_def int_traits_def SIZE_MAX_def)
  have nr: "\<not> reloc_throws int_traits ?xs" by simp
  have na: "\<not> alloc_fails int_traits (grown (length ?xs))" by (simp add: int_traits_def)
  have eb: "EmplaceBack int_traits (vec ?xs (length ?xs)) (Some 99) =
      Normal (vec (?xs @ [99]) (grown (length ?xs))) (length ?xs)"
    using EmplaceBack_vec_grow[OF ft, of "Some 99"] nr na by simp
  have pb: "PushBack int_traits (vec ?xs (length ?xs)) (Some 99) =
      Normal (vec (?xs @ [99]) (grown (length ?xs))) ()"
    using PushBack_vec_grow[OF ft, of "Some 99"] nr na by simp
  show ?thesis using e eb pb unfolding g unfolding l by (simp add: Insert_def)
qed

text \<open>
  C5 (code bug). Claim: for every vector \<open>v\<close> and index \<open>p\<close> in \<open>[0, v.Size())\<close>,
  \<open>Erase(begin() + p)\<close> removes the element at \<open>p\<close>, shifts the elements formerly at
  \<open>[p + 1, size)\<close> down by one slot, decrements \<open>Size()\<close> by 1 and returns an iterator
  addressing the element that followed the erased one (or end); hence \<open>Erase\<close> at \<open>p\<close>
  right after \<open>Insert\<close> of any value at \<open>p\<close> restores the contents and the size.

  \<open>Erase\<close> narrows the position to an \<^verbatim>\<open>int\<close> as \<open>Emplace\<close> does, where \<open>PopBack\<close>
  indexes with \<^verbatim>\<open>size_\<close>. For \<open>p \<le> INT_MAX\<close> the code does what the claim says (lemma
  \<open>Erase_removes_at_position\<close>). With \<open>2 ^ 31 + 1\<close> elements, erasing the last one
  (index \<open>2 ^ 31\<close>) makes \<open>pos\<close> negative, and \<^verbatim>\<open>begin() + pos\<close> lies before the block;
  \<open>PopBack\<close> removes that element. With the \<open>2 ^ 32 + 1\<close> elements
  \<open>[7, 0, ..., 0, 9]\<close>, erasing the last one (index \<open>2 ^ 32\<close>) makes \<open>pos\<close> zero: the
  call removes the first element, 7, keeps 9 and returns \<open>begin()\<close>.
\<close>

theorem Erase_position_beyond_int:
  "wf (vec (replicate 2147483649 (0::int)) 2147483649) \<and>
   2147483648 < Size (vec (replicate 2147483649 (0::int)) 2147483649) \<and>
   Erase int_traits (vec (replicate 2147483649 0) 2147483649) 2147483648 = Undefined \<and>
   PopBack (vec (replicate 2147483649 (0::int)) 2147483649) = Normal (vec (replicate 2147483648 0) 2147483649) () \<and>
   wf (vec (7 # replicate 4294967295 0 @ [9 :: int]) 4294967297) \<and>
   4294967296 < Size (vec (7 # replicate 4294967295 0 @ [9 :: int]) 4294967297) \<and>
   Erase int_traits (vec (7 # replicate 4294967295 0 @ [9]) 4294967297) 4294967296 =
     Normal (vec (replicate 4294967295 0 @ [9]) 4294967297) 0"
proof -
  have ti: "to_int 2147483648 = - 2147483648"
    by (simp add: to_int_def)
  have e1: "Erase int_traits (vec (replicate 2147483649 0) 2147483649) 2147483648 = Undefined"
    unfolding Erase_def Let_def ti by simp
  have "replicate (2147483648 + 1) (0::int) = replicate 2147483648 0 @ replicate 1 0"
    by (rule replicate_add)
  then have r: "replicate 2147483649 (0::int) = replicate 2147483648 0 @ [0]" by simp
  have pb: "PopBack (vec (replicate 2147483649 (0::int)) 2147483649) = Normal (vec (replicate 2147483648 0) 2147483649) ()"
    unfolding r by (rule PopBack_vec) simp
  have t0: "to_int 4294967296 = to_int 0" by (simp add: to_int_def)
  let ?ys = "replicate 4294967295 0 @ [9 :: int]"
  have nm: "\<not> list_ex (move_assign_throws int_traits) ?ys"
    by (rule nothrow_list_ex(1)) simp
  have "Erase int_traits (vec ([] @ 7 # ?ys) 4294967297) (length ([] :: int list)) =
          Normal (vec ([] @ ?ys) 4294967297) (length ([] :: int list))"
    by (subst Erase_vec) (simp_all add: INT_MAX_def nm del: list_ex_append)
  then have e0: "Erase int_traits (vec (7 # ?ys) 4294967297) 0 = Normal (vec ?ys 4294967297) 0"
    by simp
  have e2: "Erase int_traits (vec (7 # ?ys) 4294967297) 4294967296 = Normal (vec ?ys 4294967297) 0"
    unfolding Erase_position_cong[OF t0] by (rule e0)
  show ?thesis using e1 pb e2 by simp
qed

text \<open>
  C8 (confirmed). For every vector and every single operation among \<open>Reserve\<close>,
  \<open>Resize\<close>, \<open>PushBack\<close>, \<open>EmplaceBack\<close>, \<open>PopBack\<close>, \<open>Insert\<close>/\<open>Emplace\<close>,
  \<open>Erase\<close> and copy assignment (from another vector or from itself), the capacity
  after the operation is at least the capacity before it, whether the operation
  returns or leaves through an exception.
\<close>

theorem Capacity_never_shrinks:
  "(Reserve T v c = Normal v' u \<or> Reserve T v c = Exception v' \<longrightarrow> Capacity v \<le> Capacity v') \<and>
   (Resize T v n = Normal v' u \<or> Resize T v n = Exception v' \<longrightarrow> Capacity v \<le> Capacity v') \<and>
   (PushBack T v a = Normal v' u \<or> PushBack T v a = Exception v' \<longrightarrow> Capacity v \<le> Capacity v') \<and>
   (EmplaceBack T v a = Normal v' i \<or> EmplaceBack T v a = Exception v' \<longrightarrow> Capacity v \<le> Capacity v') \<and>
   (PopBack v = Normal v' u \<or> PopBack v = Exception v' \<longrightarrow> Capacity v \<le> Capacity v') \<and>
   (Emplace T v p a = Normal v' i \<or> Emplace T v p a = Exception v' \<longrightarrow> Capacity v \<le> Capacity v') \<and>
   (Insert T v p a = Normal v' i \<or> Insert T v p a = Exception v' \<longrightarrow> Capacity v \<le> Capacity v') \<and>
   (Erase T v p = Normal v' i \<or> Erase T v p = Exception v' \<longrightarrow> Capacity v \<le> Capacity v') \<and>
   (copy_assign T v r = Normal v' u \<or> copy_assign T v r = Exception v' \<longrightarrow> Capacity v \<le> Capacity v')"
proof -
  have g: "\<not> Size v < Capacity v \<Longrightarrow> Capacity v \<le> grown (Size v)"
    using grown_gt[of "Size v"] by simp
  have 1: "Reserve T v c = Normal v' u \<or> Reserve T v c = Exception v' \<longrightarrow> Capacity v \<le> Capacity v'"
    using Reserve_sizes[of T v c v' u] by auto
  have 2: "Resize T v n = Normal v' u \<or> Resize T v n = Exception v' \<longrightarrow> Capacity v \<le> Capacity v'"
    using Resize_sizes[of T v n v' u] by blast
  have 3: "PushBack T v a = Normal v' u \<or> PushBack T v a = Exception v' \<longrightarrow> Capacity v \<le> Capacity v'"
    using PushBack_Capacity[of T v a v' u] g by (auto split: if_splits)
  have 4: "EmplaceBack T v a = Normal v' i \<or> EmplaceBack T v a = Exception v' \<longrightarrow> Capacity v \<le> Capacity v'"
    using EmplaceBack_Capacity[of T v a v' i] g by (auto split: if_splits)
  have 5: "PopBack v = Normal v' u \<or> PopBack v = Exception v' \<longrightarrow> Capacity v \<le> Capacity v'"
    using PopBack_sizes[of v v' u] by auto
  have 6: "Emplace T v p a = Normal v' i \<or> Emplace T v p a = Exception v' \<longrightarrow> Capacity v \<le> Capacity v'"
    using Emplace_Capacity[of T v p a v' i] g by (auto split: if_splits)
  have 7: "Erase T v p = Normal v' i \<or> Erase T v p = Exception v' \<longrightarrow> Capacity v \<le> Capacity v'"
    using Erase_sizes[of T v p v' i] by auto
  have 8: "copy_assign T v r = Normal v' u \<or> copy_assign T v r = Exception v' \<longrightarrow> Capacity v \<le> Capacity v'"
    using copy_assign_sizes[of T v r v' u] by (auto split: if_splits)
  show ?thesis using 1 2 3 4 5 6 7 8 unfolding Insert_def by blast
qed

text \<open>Each operation on \<open>[1, 2, 3]\<close> in a block of 3 slots.\<close>

theorem Capacity_never_shrinks_witness:
  "Reserve int_traits (vec [1, 2, 3 :: int] 3) 10 = Normal (vec [1, 2, 3] 10) () \<and> Capacity (vec [1, 2, 3 :: int] 3) \<le> Capacity (vec [1, 2, 3 :: int] 10) \<and>
   Resize int_traits (vec [1, 2, 3 :: int] 3) 5 = Normal (vec [1, 2, 3, 0, 0] 5) () \<and> Capacity (vec [1, 2, 3 :: int] 3) \<le> Capacity (vec [1, 2, 3, 0, 0 :: int] 5) \<and>
   PushBack int_traits (vec [1, 2, 3 :: int] 3) (Some 4) = Normal (vec [1, 2, 3, 4] 6) () \<and> Capacity (vec [1, 2, 3 :: int] 3) \<le> Capacity (vec [1, 2, 3, 4 :: int] 6) \<and>
   EmplaceBack int_traits (vec [1, 2, 3 :: int] 3) (Some 4) = Normal (vec [1, 2, 3, 4] 6) 3 \<and> Capacity (vec [1, 2, 3 :: int] 3) \<le> Capacity (vec [1, 2, 3, 4 :: int] 6) \<and>
   PopBack (vec [1, 2, 3 :: int] 3) = Normal (vec [1, 2] 3) () \<and> Capacity (vec [1, 2, 3 :: int] 3) \<le> Capacity (vec [1, 2 :: int] 3) \<and>
   Emplace int_traits (vec [1, 2, 3 :: int] 3) 1 (Some 9) = Normal (vec [1, 9, 2, 3] 6) 1 \<and> Capacity (vec [1, 2, 3 :: int] 3) \<le> Capacity (vec [1, 9, 2, 3 :: int] 6) \<and>
   Insert int_traits (vec [1, 2, 3 :: int] 3) 1 (Some 9) = Normal (vec [1, 9, 2, 3] 6) 1 \<and> Capacity (vec [1, 2, 3 :: int] 3) \<le> Capacity (vec [1, 9, 2, 3 :: int] 6) \<and>
   Erase int_traits (vec [1, 2, 3 :: int] 3) 1 = Normal (vec [1, 3] 3) 1 \<and> Capacity (vec [1, 2, 3 :: int] 3) \<le> Capacity (vec [1, 3 :: int] 3) \<and>
   copy_assign int_traits (vec [1, 2, 3 :: int] 3) (Other (vec [7, 8, 9, 10] 4)) = Normal (vec [7, 8, 9, 10] 4) () \<and> Capacity (vec [1, 2, 3 :: int] 3) \<le> Capacity (vec [7, 8, 9, 10 :: int] 4)"
proof -
  have e0: "Reserve int_traits (vec [1, 2, 3 :: int] 3) 10 = Normal (vec [1, 2, 3] 10) ()" by code_simp
  have c0: "Capacity (vec [1, 2, 3 :: int] 3) \<le> Capacity (vec [1, 2, 3 :: int] 10)"
    using Capacity_never_shrinks[where T = int_traits and v = "vec [1, 2, 3 :: int] 3" and v' = "vec [1, 2, 3 :: int] 10" and c = 10] e0 by simp
  have e1: "Resize int_traits (vec [1, 2, 3 :: int] 3) 5 = Normal (vec [1, 2, 3, 0, 0] 5) ()" by code_simp
  have c1: "Capacity (vec [1, 2, 3 :: int] 3) \<le> Capacity (vec [1, 2, 3, 0, 0 :: int] 5)"
    using Capacity_never_shrinks[where T = int_traits and v = "vec [1, 2, 3 :: int] 3" and v' = "vec [1, 2, 3, 0, 0 :: int] 5" and n = 5] e1 by simp
  have e2: "PushBack int_traits (vec [1, 2, 3 :: int] 3) (Some 4) = Normal (vec [1, 2, 3, 4] 6) ()" by code_simp
  have c2: "Capacity (vec [1, 2, 3 :: int] 3) \<le> Capacity (vec [1, 2, 3, 4 :: int] 6)"
    using Capacity_never_shrinks[where T = int_traits and v = "vec [1, 2, 3 :: int] 3" and v' = "vec [1, 2, 3, 4 :: int] 6" and a = "Some 4"] e2 by simp
  have e3: "EmplaceBack int_traits (vec [1, 2, 3 :: int] 3) (Some 4) = Normal (vec [1, 2, 3, 4] 6) 3" by code_simp
  have c3: "Capacity (vec [1, 2, 3 :: int] 3) \<le> Capacity (vec [1, 2, 3, 4 :: int] 6)"
    using Capacity_never_shrinks[where T = int_traits and v = "vec [1, 2, 3 :: int] 3" and v' = "vec [1, 2, 3, 4 :: int] 6" and a = "Some 4" and i = 3] e3 by simp
  have e4: "PopBack (vec [1, 2, 3 :: int] 3) = Normal (vec [1, 2] 3) ()" by code_simp
  have c4: "Capacity (vec [1, 2, 3 :: int] 3) \<le> Capacity (vec [1, 2 :: int] 3)"
    using Capacity_never_shrinks[where T = int_traits and v = "vec [1, 2, 3 :: int] 3" and v' = "vec [1, 2 :: int] 3"] e4 by simp
  have e5: "Emplace int_traits (vec [1, 2, 3 :: int] 3) 1 (Some 9) = Normal (vec [1, 9, 2, 3] 6) 1" by code_simp
  have c5: "Capacity (vec [1, 2, 3 :: int] 3) \<le> Capacity (vec [1, 9, 2, 3 :: int] 6)"
    using Capacity_never_shrinks[where T = int_traits and v = "vec [1, 2, 3 :: int] 3" and v' = "vec [1, 9, 2, 3 :: int] 6" and p = 1 and a = "Some 9" and i = 1] e5 by simp
  have e6: "Insert int_traits (vec [1, 2, 3 :: int] 3) 1 (Some 9) = Normal (vec [1, 9, 2, 3] 6) 1" by code_simp
  have c6: "Capacity (vec [1, 2, 3 :: int] 3) \<le> Capacity (vec [1, 9, 2, 3 :: int] 6)"
    using Capacity_never_shrinks[where T = int_traits and v = "vec [1, 2, 3 :: int] 3" and v' = "vec [1, 9, 2, 3 :: int] 6" and p = 1 and a = "Some 9" and i = 1] e6 by simp
  have e7: "Erase int_traits (vec [1, 2, 3 :: int] 3) 1 = Normal (vec [1, 3] 3) 1" by code_simp
  have c7: "Capacity (vec [1, 2, 3 :: int] 3) \<le> Capacity (vec [1, 3 :: int] 3)"
    using Capacity_never_shrinks[where T = int_traits and v = "vec [1, 2, 3 :: int] 3" and v' = "vec [1, 3 :: int] 3" and p = 1 and i = 1] e7 by simp
  have e8: "copy_assign int_traits (vec [1, 2, 3 :: int] 3) (Other (vec [7, 8, 9, 10] 4)) = Normal (vec [7, 8, 9, 10] 4) ()" by code_simp
  have c8: "Capacity (vec [1, 2, 3 :: int] 3) \<le> Capacity (vec [7, 8, 9, 10 :: int] 4)"
    using Capacity_never_shrinks[where T = int_traits and v = "vec [1, 2, 3 :: int] 3" and v' = "vec [7, 8, 9, 10 :: int] 4" and r = "Other (vec [7, 8, 9, 10] 4)"] e8 by simp
  show ?thesis using e0 c0 e1 c1 e2 c2 e3 c3 e4 c4 e5 c5 e6 c6 e7 c7 e8 c8 by simp
qed

text \<open>
  C2 (confirmed). Whenever \<open>PushBack\<close>, \<open>EmplaceBack\<close> or \<open>Emplace\<close> (\<open>Insert\<close>) needs
  more room than the current capacity (the branch \<open>\<not> Size() < Capacity()\<close>, in a state
  with \<open>Size() \<le> Capacity()\<close>, so that growth is triggered with
  \<open>Size() = Capacity()\<close>), the new capacity is \<open>max 1 (2 * old capacity)\<close>: each of
  them, when it returns, has that capacity, and each of them does return, with the
  new element in place in a block of that capacity, when the vector is well-formed,
  no operation of \<^verbatim>\<open>T\<close> throws and the allocation of the new block succeeds
  (\<^verbatim>\<open>operator new\<close> does not throw and the byte count is a \<^verbatim>\<open>size_t\<close>; for \<open>Emplace\<close>,
  at a position in the vector that an \<^verbatim>\<open>int\<close> can hold). Consequently, after \<open>k \<ge> 1\<close>
  consecutive \<open>PushBack\<close> calls on an empty vector, \<open>Capacity()\<close> is the smallest power
  of two that is at least \<open>k\<close>: it is a power of two, it is at least \<open>k\<close>, and every
  power of two that is at least \<open>k\<close> is at least \<open>Capacity()\<close>. The calls do all
  return when no operation of \<^verbatim>\<open>T\<close> throws, no allocation fails and the byte count of
  \<open>2 * k\<close> elements is a \<^verbatim>\<open>size_t\<close>.
\<close>

theorem growth_doubles_capacity:
  "(Size v \<le> Capacity v \<and> \<not> Size v < Capacity v \<longrightarrow>
      (PushBack T v a = Normal v' u \<longrightarrow> Capacity v' = max 1 (2 * Capacity v)) \<and>
      (EmplaceBack T v a = Normal v' i \<longrightarrow> Capacity v' = max 1 (2 * Capacity v)) \<and>
      (Emplace T v p a = Normal v' i \<longrightarrow> Capacity v' = max 1 (2 * Capacity v)) \<and>
      (Insert T v p a = Normal v' i \<longrightarrow> Capacity v' = max 1 (2 * Capacity v))) \<and>
   (wf v \<and> Size v = Capacity v \<and> nothrow T \<and>
    \<not> alloc_fails T (max 1 (2 * Capacity v)) \<and> fits T (max 1 (2 * Capacity v)) \<longrightarrow>
      PushBack T v (Some x) = Normal (vec (elems v @ [x]) (max 1 (2 * Capacity v))) () \<and>
      EmplaceBack T v (Some x) = Normal (vec (elems v @ [x]) (max 1 (2 * Capacity v))) (Size v) \<and>
      (p \<le> Size v \<and> p \<le> INT_MAX \<longrightarrow>
         Emplace T v p (Some x) =
           Normal (vec (take p (elems v) @ x # drop p (elems v)) (max 1 (2 * Capacity v))) p \<and>
         Insert T v p (Some x) =
           Normal (vec (take p (elems v) @ x # drop p (elems v)) (max 1 (2 * Capacity v))) p)) \<and>
   (xs \<noteq> [] \<longrightarrow>
      (\<forall>w. PushBack_all T Vector_default xs = Normal w () \<longrightarrow>
         Size w = length xs \<and> elems w = xs \<and>
         (\<exists>e. Capacity w = 2 ^ e) \<and> length xs \<le> Capacity w \<and>
         (\<forall>e. length xs \<le> 2 ^ e \<longrightarrow> Capacity w \<le> 2 ^ e))) \<and>
   (nothrow T \<and> never_bad_alloc T \<and> fits T (2 * length xs) \<longrightarrow>
      (\<exists>w. PushBack_all T Vector_default xs = Normal w ()))"
proof -
  have A: "Size v \<le> Capacity v \<and> \<not> Size v < Capacity v \<longrightarrow>
      (PushBack T v a = Normal v' u \<longrightarrow> Capacity v' = max 1 (2 * Capacity v)) \<and>
      (EmplaceBack T v a = Normal v' i \<longrightarrow> Capacity v' = max 1 (2 * Capacity v)) \<and>
      (Emplace T v p a = Normal v' i \<longrightarrow> Capacity v' = max 1 (2 * Capacity v)) \<and>
      (Insert T v p a = Normal v' i \<longrightarrow> Capacity v' = max 1 (2 * Capacity v))"
  proof (intro impI conjI)
    assume h: "Size v \<le> Capacity v \<and> \<not> Size v < Capacity v"
    then have eq: "Size v = Capacity v" by simp
    show "PushBack T v a = Normal v' u \<Longrightarrow> Capacity v' = max 1 (2 * Capacity v)"
      using PushBack_Capacity[of T v a v' u] h eq by (simp add: grown_max)
    show "EmplaceBack T v a = Normal v' i \<Longrightarrow> Capacity v' = max 1 (2 * Capacity v)"
      using EmplaceBack_Capacity[of T v a v' i] h eq by (simp add: grown_max)
    show "Emplace T v p a = Normal v' i \<Longrightarrow> Capacity v' = max 1 (2 * Capacity v)"
      using Emplace_Capacity[of T v p a v' i] h eq by (simp add: grown_max)
    show "Insert T v p a = Normal v' i \<Longrightarrow> Capacity v' = max 1 (2 * Capacity v)"
      using Emplace_Capacity[of T v p a v' i] h eq by (simp add: grown_max Insert_def)
  qed
  have R: "wf v \<and> Size v = Capacity v \<and> nothrow T \<and>
    \<not> alloc_fails T (max 1 (2 * Capacity v)) \<and> fits T (max 1 (2 * Capacity v)) \<longrightarrow>
      PushBack T v (Some x) = Normal (vec (elems v @ [x]) (max 1 (2 * Capacity v))) () \<and>
      EmplaceBack T v (Some x) = Normal (vec (elems v @ [x]) (max 1 (2 * Capacity v))) (Size v) \<and>
      (p \<le> Size v \<and> p \<le> INT_MAX \<longrightarrow>
         Emplace T v p (Some x) =
           Normal (vec (take p (elems v) @ x # drop p (elems v)) (max 1 (2 * Capacity v))) p \<and>
         Insert T v p (Some x) =
           Normal (vec (take p (elems v) @ x # drop p (elems v)) (max 1 (2 * Capacity v))) p)"
  proof (intro impI)
    assume h: "wf v \<and> Size v = Capacity v \<and> nothrow T \<and>
      \<not> alloc_fails T (max 1 (2 * Capacity v)) \<and> fits T (max 1 (2 * Capacity v))"
    then have w: "wf v" by simp
    from w obtain ys cap where v: "v = vec ys cap" and le: "length ys \<le> cap"
      by (rule wf_obtain_vec)
    from h have c: "cap = length ys" unfolding v by simp
    from h have nt: "nothrow T" by simp
    from h have al: "\<not> alloc_fails T (grown (length ys))" and ft: "fits T (grown (length ys))"
      unfolding v c by (simp_all add: grown_max)
    have nr: "\<not> reloc_throws T ys" using nt by simp
    have pb: "PushBack T (vec ys (length ys)) (Some x) = Normal (vec (ys @ [x]) (grown (length ys))) ()"
      using PushBack_vec_grow[OF ft, of "Some x"] al nr by simp
    have eb: "EmplaceBack T (vec ys (length ys)) (Some x) = Normal (vec (ys @ [x]) (grown (length ys))) (length ys)"
      using EmplaceBack_vec_grow[OF ft, of "Some x"] al nr by simp
    have em: "Emplace T (vec ys (length ys)) p (Some x) =
        Normal (vec (take p ys @ x # drop p ys) (grown (length ys))) p"
      if "p \<le> length ys" "p \<le> INT_MAX"
      using Emplace_vec_total[OF order_refl that nt, of x] al ft by simp
    show "PushBack T v (Some x) = Normal (vec (elems v @ [x]) (max 1 (2 * Capacity v))) () \<and>
      EmplaceBack T v (Some x) = Normal (vec (elems v @ [x]) (max 1 (2 * Capacity v))) (Size v) \<and>
      (p \<le> Size v \<and> p \<le> INT_MAX \<longrightarrow>
         Emplace T v p (Some x) =
           Normal (vec (take p (elems v) @ x # drop p (elems v)) (max 1 (2 * Capacity v))) p \<and>
         Insert T v p (Some x) =
           Normal (vec (take p (elems v) @ x # drop p (elems v)) (max 1 (2 * Capacity v))) p)"
      unfolding v c Insert_def using pb eb em by (simp add: grown_max)
  qed
  have B: "xs \<noteq> [] \<longrightarrow>
      (\<forall>w. PushBack_all T Vector_default xs = Normal w () \<longrightarrow>
         Size w = length xs \<and> elems w = xs \<and>
         (\<exists>e. Capacity w = 2 ^ e) \<and> length xs \<le> Capacity w \<and>
         (\<forall>e. length xs \<le> 2 ^ e \<longrightarrow> Capacity w \<le> 2 ^ e))"
  proof (intro impI allI)
    fix w assume ne: "xs \<noteq> []" and r: "PushBack_all T Vector_default xs = Normal w ()"
    from PushBack_all_vec[of "[]" 0 T xs w "()"] r
    obtain cap' where w: "w = vec xs cap'" and t: "tight_pow2 (length xs) cap'"
      using ne by (auto simp: Vector_default_vec)
    from tight_pow2_least[OF t] show "Size w = length xs \<and> elems w = xs \<and>
         (\<exists>e. Capacity w = 2 ^ e) \<and> length xs \<le> Capacity w \<and>
         (\<forall>e. length xs \<le> 2 ^ e \<longrightarrow> Capacity w \<le> 2 ^ e)"
      unfolding w by simp
  qed
  have C: "nothrow T \<and> never_bad_alloc T \<and> fits T (2 * length xs) \<longrightarrow>
      (\<exists>w. PushBack_all T Vector_default xs = Normal w ())"
    using PushBack_all_vec_total[of "[]" 0 T xs] by (simp add: Vector_default_vec)
  show ?thesis using A R B C by blast
qed

text \<open>
  Appending to the full vector \<open>[1, 2, 3, 4]\<close>, by \<open>PushBack\<close> and by \<open>EmplaceBack\<close>, and
  inserting at index 2, by \<open>Emplace\<close> and by \<open>Insert\<close>, doubles the capacity 4 to 8;
  pushing \<open>0, 1, 2, 3, 4\<close> onto an empty vector ends with capacity 8.
\<close>

theorem growth_doubles_capacity_witness:
  "Size (vec [1, 2, 3, 4 :: int] 4) \<le> Capacity (vec [1, 2, 3, 4 :: int] 4) \<and>
   \<not> Size (vec [1, 2, 3, 4 :: int] 4) < Capacity (vec [1, 2, 3, 4 :: int] 4) \<and>
   wf (vec [1, 2, 3, 4 :: int] 4) \<and> Size (vec [1, 2, 3, 4 :: int] 4) = Capacity (vec [1, 2, 3, 4 :: int] 4) \<and>
   nothrow int_traits \<and> never_bad_alloc int_traits \<and>
   \<not> alloc_fails int_traits (max 1 (2 * Capacity (vec [1, 2, 3, 4 :: int] 4))) \<and>
   fits int_traits (max 1 (2 * Capacity (vec [1, 2, 3, 4 :: int] 4))) \<and>
   (2::nat) \<le> Size (vec [1, 2, 3, 4 :: int] 4) \<and> (2::nat) \<le> INT_MAX \<and>
   PushBack int_traits (vec [1, 2, 3, 4] 4) (Some 5) = Normal (vec [1, 2, 3, 4, 5] 8) () \<and>
   EmplaceBack int_traits (vec [1, 2, 3, 4] 4) (Some 5) = Normal (vec [1, 2, 3, 4, 5] 8) 4 \<and>
   Emplace int_traits (vec [1, 2, 3, 4] 4) 2 (Some 5) = Normal (vec [1, 2, 5, 3, 4] 8) 2 \<and>
   Insert int_traits (vec [1, 2, 3, 4] 4) 2 (Some 5) = Normal (vec [1, 2, 5, 3, 4] 8) 2 \<and>
   Capacity (vec [1, 2, 3, 4, 5 :: int] 8) = max 1 (2 * Capacity (vec [1, 2, 3, 4 :: int] 4)) \<and>
   Capacity (vec [1, 2, 5, 3, 4 :: int] 8) = max 1 (2 * Capacity (vec [1, 2, 3, 4 :: int] 4)) \<and>
   [0, 1, 2, 3, 4 :: int] \<noteq> [] \<and> fits int_traits (2 * length [0, 1, 2, 3, 4 :: int]) \<and>
   PushBack_all int_traits Vector_default [0, 1, 2, 3, 4] = Normal (vec [0, 1, 2, 3, 4] 8) () \<and>
   Size (vec [0, 1, 2, 3, 4 :: int] 8) = 5 \<and> Capacity (vec [0, 1, 2, 3, 4 :: int] 8) = 2 ^ 3 \<and>
   length [0, 1, 2, 3, 4 :: int] \<le> 2 ^ 3 \<and> \<not> length [0, 1, 2, 3, 4 :: int] \<le> 2 ^ 2 \<and>
   Capacity (vec [0, 1, 2, 3, 4 :: int] 8) \<le> 2 ^ 3"
proof -
  let ?v = "vec [1, 2, 3, 4 :: int] 4"
  have h: "wf ?v \<and> Size ?v = Capacity ?v \<and> nothrow int_traits \<and>
      \<not> alloc_fails int_traits (max 1 (2 * Capacity ?v)) \<and> fits int_traits (max 1 (2 * Capacity ?v))"
    by (simp add: fits_def int_traits_def SIZE_MAX_def nothrow_def)
  have f: "fits int_traits (2 * length [0, 1, 2, 3, 4 :: int])"
    by (simp add: fits_def int_traits_def SIZE_MAX_def)
  have q: "(2::nat) \<le> Size ?v \<and> (2::nat) \<le> INT_MAX" by (simp add: INT_MAX_def)
  note t = growth_doubles_capacity[where T = int_traits and v = ?v and a = "Some 5" and x = 5 and p = 2
      and v' = "vec [1, 2, 3, 4, 5] 8" and u = "()" and xs = "[0, 1, 2, 3, 4]"]
  have e1: "PushBack int_traits ?v (Some 5) = Normal (vec [1, 2, 3, 4, 5] 8) ()"
    and e2: "EmplaceBack int_traits ?v (Some 5) = Normal (vec [1, 2, 3, 4, 5] 8) 4"
    and e3: "Emplace int_traits ?v 2 (Some 5) = Normal (vec [1, 2, 5, 3, 4] 8) 2"
    and e4: "Insert int_traits ?v 2 (Some 5) = Normal (vec [1, 2, 5, 3, 4] 8) 2"
    using t h q by simp_all
  have c1: "Capacity (vec [1, 2, 3, 4, 5 :: int] 8) = max 1 (2 * Capacity ?v)"
    using t e1 by simp
  have e5: "PushBack_all int_traits Vector_default [0, 1, 2, 3, 4] = Normal (vec [0, 1, 2, 3, 4] 8) ()"
    by code_simp
  have "\<forall>e. length [0, 1, 2, 3, 4 :: int] \<le> 2 ^ e \<longrightarrow> Capacity (vec [0, 1, 2, 3, 4 :: int] 8) \<le> 2 ^ e"
    using t e5 by blast
  then have c2: "Capacity (vec [0, 1, 2, 3, 4 :: int] 8) \<le> 2 ^ 3"
    by (rule allE[of _ 3]) simp
  show ?thesis using h f q e1 e2 e3 e4 c1 c2 e5 by simp
qed

text \<open>
  C7 (confirmed). \<open>Size() \<le> Capacity()\<close> holds in every state reachable from a
  constructor (default, sized, copy, move) by any sequence of copy and move assignment
  (also from the vector itself), \<open>Reserve\<close>, \<open>Resize\<close>, \<open>PushBack\<close>, \<open>EmplaceBack\<close>,
  \<open>PopBack\<close>, \<open>Insert\<close>/\<open>Emplace\<close>, \<open>Erase\<close> and \<open>Swap\<close>, including the states
  that an operation leaves when it exits by exception. A call outside its precondition
  (\<open>PopBack\<close> on an empty vector, a position outside the range) is undefined behaviour
  and reaches no state.
\<close>

theorem reachable_Size_le_Capacity:
  "reachable T v \<Longrightarrow> Size v \<le> Capacity v"
proof (induction rule: reachable.induct)
  case r_default
  show ?case by (simp add: Vector_default_vec)
next
  case (r_sized n v)
  then show ?case using Vector_sized_sizes by fastforce
next
  case (r_copy w v)
  then show ?case using Vector_copy_sizes by fastforce
next
  case (r_move_new w)
  then show ?case by (simp add: Vector_move_eq)
next
  case (r_move_old w)
  then show ?case by (simp add: Vector_move_eq sc_defs)
next
  case (r_copy_assign v w v' u)
  then show ?case using copy_assign_sizes[of T v "Other w" v' u]
    by (auto simp: deref_def split: if_splits)
next
  case (r_copy_assign_self v v' u)
  then show ?case using copy_assign_sizes[of T v This v' u]
    by (auto simp: deref_def split: if_splits)
next
  case (r_move_assign_this v w)
  then show ?case by (simp add: move_assign_eq)
next
  case (r_move_assign_rhs v w)
  then show ?case by (simp add: move_assign_eq sc_defs)
next
  case (r_move_assign_self v)
  then show ?case by (simp add: move_assign_self_def sc_defs)
next
  case (r_Reserve v c v' u)
  then show ?case using Reserve_sizes[of T v c v' u] by (auto split: if_splits)
next
  case (r_Resize v n v' u)
  then show ?case using Resize_sizes[of T v n v' u] by (auto split: if_splits)
next
  case (r_PushBack v a v' u)
  then show ?case using PushBack_Capacity[of T v a v' u] PushBack_Size[of T v a v' u] grown_gt[of "Size v"]
    by (auto split: if_splits)
next
  case (r_EmplaceBack v a v' i)
  then show ?case using EmplaceBack_Capacity[of T v a v' i] EmplaceBack_Size[of T v a v' i] grown_gt[of "Size v"]
    by (auto split: if_splits)
next
  case (r_PopBack v v' u)
  then show ?case using PopBack_sizes[of v v' u] by auto
next
  case (r_Emplace v p a v' i)
  then show ?case using Emplace_Capacity[of T v p a v' i] Emplace_Size[of T v p a v' i] grown_gt[of "Size v"]
    by (auto split: if_splits)
next
  case (r_Insert v p a v' i)
  then show ?case unfolding Insert_def
    using Emplace_Capacity[of T v p a v' i] Emplace_Size[of T v p a v' i] grown_gt[of "Size v"]
    by (auto split: if_splits)
next
  case (r_Erase v p v' i)
  then show ?case using Erase_sizes[of T v p v' i] by (auto split: if_splits)
next
  case (r_Swap_this v w)
  then show ?case by (simp add: Swap_eq)
next
  case (r_Swap_other v w)
  then show ?case by (simp add: Swap_eq)
qed

text \<open>The state after pushing 1, 2, 3 onto an empty vector.\<close>

theorem reachable_Size_le_Capacity_witness:
  "reachable int_traits (vec [1, 2, 3] 4) \<and> Size (vec [1, 2, 3 :: int] 4) \<le> Capacity (vec [1, 2, 3 :: int] 4)"
proof -
  have 0: "reachable int_traits (vec [] 0)"
    using reachable.r_default[of int_traits] by (simp add: Vector_default_vec)
  have "PushBack int_traits (vec [] 0) (Some 1) = Normal (vec [1] 1) ()" by code_simp
  with 0 have 1: "reachable int_traits (vec [1] 1)" by (blast intro: reachable.r_PushBack)
  have "PushBack int_traits (vec [1] 1) (Some 2) = Normal (vec [1, 2] 2) ()" by code_simp
  with 1 have 2: "reachable int_traits (vec [1, 2] 2)" by (blast intro: reachable.r_PushBack)
  have "PushBack int_traits (vec [1, 2] 2) (Some 3) = Normal (vec [1, 2, 3] 4) ()" by code_simp
  with 2 have 3: "reachable int_traits (vec [1, 2, 3] 4)" by (blast intro: reachable.r_PushBack)
  from 3 reachable_Size_le_Capacity[OF 3] show ?thesis by simp
qed

text \<open>
  C1 (corrected). Claim: every path the spec labels strong is atomic on failure: if a
  failure is thrown while relocating the elements to a new block (in \<open>Reserve\<close>, or in
  the growth of \<open>PushBack\<close>, \<open>EmplaceBack\<close>, \<open>Emplace\<close>), or while building the temporary
  copy in copy assignment with \<open>rhs.Size() > Capacity()\<close>, the vector is exactly as it
  was before the call.

  The relocation rule moves the elements of a type that cannot be copied even when its
  move constructor may throw, and a move that was done is not undone. So the claim
  holds for the element types that are copy-constructible or whose move constructor
  does not throw: for these, whenever one of the operations exits by exception (a
  failed allocation, a throwing constructor of the new element, a throwing relocation),
  the whole state of the vector is the one before the call.
\<close>

theorem strong_paths_atomic:
  assumes "safe_relocation T"
  shows "(Reserve T v c = Exception v' \<longrightarrow> v' = v) \<and>
         (PushBack T v a = Exception v' \<longrightarrow> v' = v) \<and>
         (EmplaceBack T v a = Exception v' \<longrightarrow> v' = v) \<and>
         (Emplace T v p a = Exception v' \<longrightarrow> v' = v) \<and>
         (Insert T v p a = Exception v' \<longrightarrow> v' = v) \<and>
         (Capacity v < Size (deref r v) \<and> copy_assign T v r = Exception v' \<longrightarrow> v' = v)"
  using Reserve_strong[OF assms] PushBack_strong[OF assms] EmplaceBack_strong[OF assms]
    Emplace_strong[OF assms] copy_assign_strong
  unfolding Insert_def by blast

text \<open>
  A copyable element type whose copy constructor throws on 13: every strong path fails
  on \<open>[1, 13]\<close> and leaves the vector as it was.
\<close>

theorem strong_paths_atomic_witness:
  "safe_relocation throwing_copy_traits \<and>
   Reserve throwing_copy_traits (vec [1, 13] 2) 4 = Exception (vec [1, 13] 2) \<and>
   PushBack throwing_copy_traits (vec [1, 13] 2) (Some 5) = Exception (vec [1, 13] 2) \<and>
   EmplaceBack throwing_copy_traits (vec [1, 13] 2) (Some 5) = Exception (vec [1, 13] 2) \<and>
   Emplace throwing_copy_traits (vec [1, 13] 2) 1 (Some 5) = Exception (vec [1, 13] 2) \<and>
   Insert throwing_copy_traits (vec [1, 13] 2) 1 (Some 5) = Exception (vec [1, 13] 2) \<and>
   Capacity (vec [7 :: int] 1) < Size (deref (Other (vec [1, 13 :: int] 2)) (vec [7] 1)) \<and>
   copy_assign throwing_copy_traits (vec [7] 1) (Other (vec [1, 13] 2)) = Exception (vec [7] 1)"
proof -
  have s: "safe_relocation throwing_copy_traits"
    by (simp add: safe_relocation_def throwing_copy_traits_def)
  have x1: "Reserve throwing_copy_traits (vec [1, 13] 2) 4 = Exception (vec [1, 13] 2)" by code_simp
  have x2: "PushBack throwing_copy_traits (vec [1, 13] 2) (Some 5) = Exception (vec [1, 13] 2)" by code_simp
  have x3: "EmplaceBack throwing_copy_traits (vec [1, 13] 2) (Some 5) = Exception (vec [1, 13] 2)" by code_simp
  have x4: "Emplace throwing_copy_traits (vec [1, 13] 2) 1 (Some 5) = Exception (vec [1, 13] 2)" by code_simp
  have x5: "copy_assign throwing_copy_traits (vec [7] 1) (Other (vec [1, 13] 2)) = Exception (vec [7] 1)" by code_simp
  have c: "Capacity (vec [7 :: int] 1) < Size (deref (Other (vec [1, 13 :: int] 2)) (vec [7] 1))"
    by (simp add: deref_def)
  from x1 x2 x3 x4 x5 c strong_paths_atomic[OF s, of "vec [1, 13] 2" 4 "vec [1, 13] 2"] show ?thesis
    using s by (simp add: Insert_def)
qed

text \<open>
  A move-only element type whose move constructor throws on 13: relocation moves the
  first element, fails on the second, and the vector is left holding the moved-from
  value 0 in place of 1.
\<close>

theorem move_only_relocation_counterexample:
  "\<not> is_copy_constructible move_only_traits \<and> wf (vec [1, 13 :: int] 2) \<and>
   Reserve move_only_traits (vec [1, 13] 2) 4 = Exception (vec [0, 13] 2) \<and>
   PushBack move_only_traits (vec [1, 13] 2) (Some 5) = Exception (vec [0, 13] 2) \<and>
   EmplaceBack move_only_traits (vec [1, 13] 2) (Some 5) = Exception (vec [0, 13] 2) \<and>
   Emplace move_only_traits (vec [1, 13] 2) 1 (Some 5) = Exception (vec [0, 13] 2) \<and>
   elems (vec [0, 13 :: int] 2) \<noteq> elems (vec [1, 13 :: int] 2)"
proof -
  have "Reserve move_only_traits (vec [1, 13] 2) 4 = Exception (vec [0, 13] 2)" by code_simp
  moreover have "PushBack move_only_traits (vec [1, 13] 2) (Some 5) = Exception (vec [0, 13] 2)" by code_simp
  moreover have "EmplaceBack move_only_traits (vec [1, 13] 2) (Some 5) = Exception (vec [0, 13] 2)" by code_simp
  moreover have "Emplace move_only_traits (vec [1, 13] 2) 1 (Some 5) = Exception (vec [0, 13] 2)" by code_simp
  ultimately show ?thesis by (simp add: move_only_traits_def)
qed



text \<open>
  C10 (confirmed). Copy-assigning a well-formed vector to itself leaves its whole state
  (size, capacity, every slot) unchanged: the call takes the storage-reuse path,
  assigns each element to itself, and returns, or exits by exception when the copy
  assignment of an element throws. Nothing is allocated, constructed or destroyed: no
  other operation of \<^verbatim>\<open>T\<close> and no allocation has a part in the outcome.
\<close>

theorem self_assign_no_op:
  assumes "wf v"
  shows "copy_assign T v This =
           (if list_ex (copy_assign_throws T) (elems v) then Exception v else Normal v ())"
proof -
  from assms obtain xs cap where v: "v = vec xs cap" and le: "length xs \<le> cap"
    by (rule wf_obtain_vec)
  show ?thesis unfolding v using copy_assign_vec_This[OF le] by simp
qed

text \<open>Self-assignment of \<open>[1, 2, 3]\<close>, and of \<open>[1, 13, 3]\<close> where assigning 13 throws.\<close>

theorem self_assign_no_op_witness:
  "wf (vec [1, 2, 3 :: int] 7) \<and>
   copy_assign int_traits (vec [1, 2, 3] 7) This = Normal (vec [1, 2, 3] 7) () \<and>
   copy_assign throwing_copy_traits (vec [1, 13, 3] 7) This = Exception (vec [1, 13, 3] 7)"
proof -
  have w: "wf (vec [1, 2, 3 :: int] 7)" "wf (vec [1, 13, 3 :: int] 7)" by simp_all
  show ?thesis
    using self_assign_no_op[OF w(1), of int_traits] self_assign_no_op[OF w(2), of throwing_copy_traits] w
    by (simp add: int_traits_def throwing_copy_traits_def)
qed

text \<open>
  C6 (code bug). Claim: for every vector and every \<open>n\<close>, \<open>Resize(n)\<close> ends with
  \<open>Size() = n\<close>: if \<open>n\<close> is less than the old size, the elements \<open>[0, n)\<close> are unchanged
  and the capacity is unchanged; if \<open>n\<close> is greater than the old size, it performs
  \<open>Reserve(n)\<close> and then default-constructs the elements \<open>[old size, n)\<close>, leaving the
  elements \<open>[0, old size)\<close> unchanged.

  For \<open>n > Capacity()\<close>, \<open>Reserve(n)\<close> allocates: \<open>Allocate\<close> asks \<^verbatim>\<open>operator new\<close> for
  \<^verbatim>\<open>n * sizeof(T)\<close> bytes, a product computed in \<^verbatim>\<open>size_t\<close> with no check. When the
  byte count of \<open>n\<close> elements is a \<^verbatim>\<open>size_t\<close>, the code does what the claim says (lemma
  \<open>Resize_sets_size\<close>). For \<^verbatim>\<open>Vector<int>\<close> and \<open>n = 2 ^ 62\<close> the product \<open>2 ^ 64\<close>
  wraps to 0: \<^verbatim>\<open>operator new(0)\<close> returns a block with room for no element (nothing
  throws and no allocation fails), and the relocation of the elements \<open>[1, 2, 3]\<close>
  writes past it.
\<close>

theorem Resize_byte_count_wraps:
  "wf (vec [1, 2, 3 :: int] 4) \<and> nothrow int_traits \<and> never_bad_alloc int_traits \<and>
   sizeof_T int_traits = 4 \<and> (4611686018427387904 * 4) mod (SIZE_MAX + 1) = 0 \<and>
   Allocate int_traits 4611686018427387904 = Some [] \<and>
   Reserve int_traits (vec [1, 2, 3] 4) 4611686018427387904 = Undefined \<and>
   Resize int_traits (vec [1, 2, 3] 4) 4611686018427387904 = Undefined"
proof -
  have a: "Allocate int_traits 4611686018427387904 = Some []" by code_simp
  have r: "Reserve int_traits (vec [1, 2, 3] 4) 4611686018427387904 = Undefined" by code_simp
  have z: "Resize int_traits (vec [1, 2, 3] 4) 4611686018427387904 = Undefined" by code_simp
  have s: "sizeof_T int_traits = 4" by (simp add: int_traits_def)
  have m: "(4611686018427387904 * 4) mod (SIZE_MAX + 1) = (0::nat)" by (simp add: SIZE_MAX_def)
  show ?thesis using a r z s m by simp
qed

text \<open>
  C9 (code bug). Claim: \<open>Emplace(v.end(), args...)\<close> (and \<open>Insert(v.end(), x)\<close>) produces
  exactly the same final state as \<open>EmplaceBack(args...)\<close> (\<open>PushBack(x)\<close>), in the
  capacity-available branch and in the growth branch.

  The two agree whenever the new element is built (and in the growth branch also when
  it is not), for vectors of at most \<open>INT_MAX\<close> elements: lemma
  \<open>Emplace_at_end_is_EmplaceBack\<close>. They differ when there is spare capacity and the
  constructor of the new element throws: \<open>EmplaceBack\<close> and \<open>PushBack\<close> leave the vector
  as it was and pass the exception on, while the handler in \<open>Emplace\<close> first runs
  \<^verbatim>\<open>operator delete (end())\<close> on a pointer into the vector's own block. The theorem
  evaluates both on \<open>[1, 2, 3]\<close> with capacity 7.
\<close>

theorem Emplace_end_throwing_constructor:
  "Size (vec [1, 2, 3 :: int] 7) < Capacity (vec [1, 2, 3 :: int] 7) \<and>
   Emplace throwing_copy_traits (vec [1, 2, 3] 7) 3 None = Undefined \<and>
   EmplaceBack throwing_copy_traits (vec [1, 2, 3] 7) None = Exception (vec [1, 2, 3] 7) \<and>
   Insert throwing_copy_traits (vec [1, 2, 3] 7) 3 None = Undefined \<and>
   PushBack throwing_copy_traits (vec [1, 2, 3] 7) None = Exception (vec [1, 2, 3] 7)"
proof -
  have "Emplace throwing_copy_traits (vec [1, 2, 3] 7) 3 None = Undefined" by code_simp
  moreover have "EmplaceBack throwing_copy_traits (vec [1, 2, 3] 7) None = Exception (vec [1, 2, 3] 7)" by code_simp
  moreover have "PushBack throwing_copy_traits (vec [1, 2, 3] 7) None = Exception (vec [1, 2, 3] 7)" by code_simp
  ultimately show ?thesis by (simp add: Insert_def)
qed

end
